theory Spec2Isabelle
  imports Complex_Main "HOL-Library.AList" "HOL-Library.Log_Nat"
begin

section \<open>Tables\<close>

text \<open>
  The program keeps its data in pandas tables. A table is modelled row by row: the list of
  its column names with the dtype pandas gave each column when the file was read, and the
  list of its rows, a row giving the cell under each column name. A float is modelled by
  the real number it denotes, the missing value (NaN) as a cell of its own; a text cell is
  a string.
\<close>

datatype cell = Num real | NaN | Str string

datatype dtype = Numeric | Object

type_synonym row = "string \<Rightarrow> cell"

record frame =
  columns :: "(string \<times> dtype) list"
  rows :: "row list"

datatype error =
  KeyError | TypeError | ValueError | IndexError | NameError | AttributeError | LinAlgError
  | ZeroDivisionError

definition column_names :: "frame \<Rightarrow> string list" where
  "column_names df = map fst (columns df)"

text \<open>\<^verbatim>\<open>pd.api.types.is_numeric_dtype(df[col])\<close>\<close>

definition is_numeric_dtype :: "frame \<Rightarrow> string \<Rightarrow> bool" where
  "is_numeric_dtype df col = (map_of (columns df) col = Some Numeric)"

text \<open>\<^verbatim>\<open>series < 0\<close> on one cell of a numeric column: a comparison with NaN is false.\<close>

fun lt_zero :: "cell \<Rightarrow> bool" where
  "lt_zero (Num v) = (v < 0)"
| "lt_zero NaN = False"
| "lt_zero (Str s) = False"

text \<open>\<^verbatim>\<open>series.isnull()\<close> on one cell.\<close>

fun isnull :: "cell \<Rightarrow> bool" where
  "isnull NaN = True"
| "isnull (Num v) = False"
| "isnull (Str s) = False"

section \<open>Cleaner: \<^verbatim>\<open>clean_data\<close>\<close>

text \<open>
  \<^verbatim>\<open>cleaning_stats\<close> is a dict with the keys \<^verbatim>\<open>initial_rows\<close>, \<^verbatim>\<open>removed_rows\<close>,
  \<^verbatim>\<open>final_rows\<close> and \<^verbatim>\<open>total_removed\<close>; \<^verbatim>\<open>removed_rows\<close> is itself a dict from the
  reason to a row count, kept here as an association list in insertion order.
\<close>

record cleaning_stats =
  initial_rows :: nat
  removed_rows :: "(string \<times> nat) list"
  final_rows :: nat
  total_removed :: int

definition preserve_columns :: "string list" where
  "preserve_columns =
     [''Stock'', ''Market Capitalization'', ''Industry'', ''NSE Code'', ''BSE Code'', ''ISIN'']"

text \<open>
  One pass of the loop body for a numeric column \<open>col\<close>, on the pair of the rows still
  kept (\<^verbatim>\<open>df_cleaned\<close>) and the dict \<^verbatim>\<open>cleaning_stats['removed_rows']\<close>. Both counts are
  taken on the rows still kept, before they are filtered.
\<close>

definition clean_column ::
  "string \<Rightarrow> row list \<times> (string \<times> nat) list \<Rightarrow> row list \<times> (string \<times> nat) list" where
  "clean_column col st =
     (let df_cleaned = fst st;
          removed = snd st;
          neg_mask = (\<lambda>r. lt_zero (r col));
          neg_count = length (filter neg_mask df_cleaned);
          removed1 = (if neg_count > 0
                      then AList.update (''Negative values in '' @ col) neg_count removed
                      else removed);
          null_count = length (filter (\<lambda>r. isnull (r col)) df_cleaned);
          removed2 = (if null_count > 0
                      then AList.update (''Missing values in '' @ col) null_count removed1
                      else removed1)
      in (filter (\<lambda>r. \<not> neg_mask r \<and> \<not> isnull (r col)) df_cleaned, removed2))"

definition columns_to_clean :: "frame \<Rightarrow> string list" where
  "columns_to_clean df = filter (\<lambda>col. col \<notin> set preserve_columns) (column_names df)"

definition clean_loop ::
  "frame \<Rightarrow> string list \<Rightarrow> row list \<times> (string \<times> nat) list \<Rightarrow> row list \<times> (string \<times> nat) list" where
  "clean_loop df cols st =
     fold (\<lambda>col st. if is_numeric_dtype df col then clean_column col st else st) cols st"

definition clean_data :: "frame \<Rightarrow> frame \<times> cleaning_stats" where
  "clean_data df =
     (let st = clean_loop df (columns_to_clean df) (rows df, []);
          df_cleaned = df\<lparr>rows := fst st\<rparr>
      in (df_cleaned,
          \<lparr>initial_rows = length (rows df),
           removed_rows = snd st,
           final_rows = length (rows df_cleaned),
           total_removed = int (length (rows df)) - int (length (rows df_cleaned))\<rparr>))"

text \<open>
  The cells the cleaner keeps: neither negative nor missing. \<open>clean_inv N\<close> is the loop
  invariant of \<^verbatim>\<open>clean_data\<close> on a table of \<open>N\<close> rows: the counts recorded so far and the
  rows still kept add up to \<open>N\<close>, and a column with a recorded reason has no invalid cell
  left.
\<close>

definition valid_cell :: "cell \<Rightarrow> bool" where
  "valid_cell c = (\<not> lt_zero c \<and> \<not> isnull c)"

definition clean_inv :: "nat \<Rightarrow> row list \<times> (string \<times> nat) list \<Rightarrow> bool" where
  "clean_inv N st = (sum_list (map snd (snd st)) + length (fst st) = N \<and>
     (\<forall>c. (''Negative values in '' @ c) \<in> fst ` set (snd st) \<or> (''Missing values in '' @ c) \<in> fst ` set (snd st)
         \<longrightarrow> (\<forall>r\<in>set (fst st). valid_cell (r c))))"

definition numeric_columns_to_clean :: "frame \<Rightarrow> string list" where
  "numeric_columns_to_clean df = filter (is_numeric_dtype df) (columns_to_clean df)"

text \<open>A table for the scenario of 100 rows, and the numeric columns the cleaner checks.\<close>

definition scenario_row :: "cell \<Rightarrow> cell \<Rightarrow> row" where
  "scenario_row pe roe = (\<lambda>_. NaN)(''Stock'' := Str ''S'', ''PE'' := pe, ''ROE'' := roe)"

definition scenario_table :: frame where
  "scenario_table =
     \<lparr>columns = [(''Stock'', Object), (''PE'', Numeric), (''ROE'', Numeric)],
      rows = replicate 10 (scenario_row (Num (-1)) (Num 2))
           @ replicate 5 (scenario_row (Num 3) NaN)
           @ replicate 85 (scenario_row (Num 3) (Num 2))\<rparr>"

section \<open>Double-precision arithmetic\<close>

text \<open>
  numpy, pandas and scikit-learn compute in IEEE 754 binary64 with rounding to nearest,
  ties to even: the result of an operation is the exact result rounded to 53 significant
  bits, and to a multiple of \<open>2 powi (-1074)\<close> below the normal range. \<open>rint\<close> rounds a
  real to the nearest integer, a tie to the even one (it is also the rounding of
  \<^verbatim>\<open>np.round\<close>). \<open>expo x\<close> is the binary exponent of \<open>x\<close>, the \<open>e\<close> with
  \<open>2 powi e \<le> \<bar>x\<bar> < 2 powi (e + 1)\<close>, computed from the bit length of the integer part
  of \<open>\<bar>x\<bar>\<close> or of \<open>1 / \<bar>x\<bar>\<close>; \<open>quantum x\<close> is the exponent of the last bit kept, and
  \<open>fl x\<close> is \<open>x\<close> rounded. A double is a real \<open>x\<close> with \<open>fl x = x\<close>. Overflow to infinity
  is not modelled: the properties that depend on the rounding bound the size of their
  inputs.
\<close>

definition rint :: "real \<Rightarrow> int" where
  "rint x =
     (let f = \<lfloor>x\<rfloor>; d = x - of_int f
      in if d < 1 / 2 then f
         else if d > 1 / 2 then f + 1
         else if even f then f else f + 1)"

definition expo :: "real \<Rightarrow> int" where
  "expo x =
     (let a = \<bar>x\<bar>
      in if a \<ge> 1 then bitlen \<lfloor>a\<rfloor> - 1
         else let j = bitlen \<lfloor>1 / a\<rfloor> - 1
              in if a * 2 ^ nat j = 1 then - j else - j - 1)"

definition quantum :: "real \<Rightarrow> int" where
  "quantum x = max (expo x - 52) (- 1074)"

definition fl :: "real \<Rightarrow> real" where
  "fl x = (if x = 0 then 0 else of_int (rint (x / 2 powi quantum x)) * 2 powi quantum x)"


section \<open>Normalizer: \<^verbatim>\<open>normalize_data\<close>\<close>

text \<open>
  \<^verbatim>\<open>df[col]\<close> reads a column as the list of its cells. \<^verbatim>\<open>df[col] = values\<close> writes the
  cells row by row; a column the table does not have yet is added after the last one.
\<close>

definition get_column :: "frame \<Rightarrow> string \<Rightarrow> cell list" where
  "get_column df col = map (\<lambda>r. r col) (rows df)"

definition set_column :: "frame \<Rightarrow> string \<Rightarrow> dtype \<Rightarrow> cell list \<Rightarrow> frame" where
  "set_column df col dt vs =
     df\<lparr>columns := AList.update col dt (columns df),
        rows := map (\<lambda>(r, v). r(col := v)) (zip (rows df) vs)\<rparr>"

definition dtype_of :: "frame \<Rightarrow> string \<Rightarrow> dtype" where
  "dtype_of df col = (case map_of (columns df) col of Some dt \<Rightarrow> dt | None \<Rightarrow> Object)"

text \<open>
  \<^verbatim>\<open>-1 * series\<close> on one cell. On a text cell Python's \<^verbatim>\<open>-1 * s\<close> is the empty string.
\<close>

fun neg_cell :: "cell \<Rightarrow> cell" where
  "neg_cell (Num v) = Num (-1 * v)"
| "neg_cell NaN = NaN"
| "neg_cell (Str s) = Str []"

fun is_Str :: "cell \<Rightarrow> bool" where
  "is_Str (Str s) = True"
| "is_Str (Num v) = False"
| "is_Str NaN = False"

text \<open>The numbers of a column, its missing cells left out.\<close>

fun nums :: "cell list \<Rightarrow> real list" where
  "nums [] = []"
| "nums (Num v # cs) = v # nums cs"
| "nums (c # cs) = nums cs"

text \<open>
  scikit-learn's \<^verbatim>\<open>MinMaxScaler\<close> with its default feature range \<open>(0, 1)\<close>, on one column,
  in double precision. \<^verbatim>\<open>fit\<close> computes \<^verbatim>\<open>data_min_\<close>, \<^verbatim>\<open>data_max_\<close>,
  \<^verbatim>\<open>data_range_ = data_max_ - data_min_\<close>,
  \<^verbatim>\<open>scale_ = (1 - 0) / _handle_zeros_in_scale(data_range_)\<close> and
  \<^verbatim>\<open>min_ = 0 - data_min_ * scale_\<close>, ignoring missing values; \<^verbatim>\<open>transform\<close> computes
  \<^verbatim>\<open>X *= scale_\<close> and then \<^verbatim>\<open>X += min_\<close>, leaves a missing value missing, and does
  not clip. \<^verbatim>\<open>_handle_zeros_in_scale\<close> gets the ranges as an array and replaces every range
  below \<^verbatim>\<open>10 * eps\<close> by 1, \<^verbatim>\<open>eps\<close> being \<open>2 powi (-52)\<close>. numpy's division does not
  raise on a divisor 0: the quotient is infinite or NaN, not a number, and \<open>np_divide\<close>
  gives \<open>None\<close> for it; with such a \<^verbatim>\<open>scale_\<close> every transformed cell is NaN. An empty
  column and a column with a text cell raise \<^verbatim>\<open>ValueError\<close>.
\<close>

definition np_divide :: "real \<Rightarrow> real \<Rightarrow> real option" where
  "np_divide a b = (if b = 0 then None else Some (fl (a / b)))"

definition handle_zeros_in_scale :: "real \<Rightarrow> real" where
  "handle_zeros_in_scale scale = (if scale < 10 * 2 powi (- 52) then 1 else scale)"

definition MinMaxScaler_fit :: "real list \<Rightarrow> (real \<times> real) option" where
  "MinMaxScaler_fit X =
     (let data_min = Min (set X);
          data_max = Max (set X);
          data_range = fl (data_max - data_min)
      in case np_divide (1 - 0) (handle_zeros_in_scale data_range) of
           None \<Rightarrow> None
         | Some scale \<Rightarrow> Some (scale, fl (0 - fl (data_min * scale))))"

fun MinMaxScaler_transform :: "(real \<times> real) option \<Rightarrow> cell \<Rightarrow> cell" where
  "MinMaxScaler_transform (Some (scale, min_shift)) (Num x) = Num (fl (fl (x * scale) + min_shift))"
| "MinMaxScaler_transform None (Num x) = NaN"
| "MinMaxScaler_transform fitted c = c"

definition fit_transform :: "cell list \<Rightarrow> error + cell list" where
  "fit_transform X =
     (if X = [] \<or> list_ex is_Str X then Inl ValueError
      else if nums X = [] then Inr X
      else Inr (map (MinMaxScaler_transform (MinMaxScaler_fit (nums X))) X))"

text \<open>The body of the loop of \<^verbatim>\<open>normalize_data\<close> for one column, and the loop.\<close>

definition normalize_column :: "string list \<Rightarrow> string \<Rightarrow> frame \<Rightarrow> error + frame" where
  "normalize_column columns_to_invert column df_normalized =
     (if column \<notin> set (column_names df_normalized) then Inl KeyError
      else
        let df1 = (if column \<in> set columns_to_invert
                   then set_column df_normalized column (dtype_of df_normalized column)
                          (map neg_cell (get_column df_normalized column))
                   else df_normalized)
        in case fit_transform (get_column df1 column) of
             Inl e \<Rightarrow> Inl e
           | Inr vs \<Rightarrow> Inr (set_column df1 column Numeric vs))"

fun normalize_loop :: "string list \<Rightarrow> string list \<Rightarrow> frame \<Rightarrow> error + frame" where
  "normalize_loop columns_to_invert [] df_normalized = Inr df_normalized"
| "normalize_loop columns_to_invert (column # cols) df_normalized =
     (case normalize_column columns_to_invert column df_normalized of
        Inl e \<Rightarrow> Inl e
      | Inr df' \<Rightarrow> normalize_loop columns_to_invert cols df')"

definition normalize_data :: "frame \<Rightarrow> string list \<Rightarrow> string list \<Rightarrow> error + frame" where
  "normalize_data df columns_to_normalize columns_to_invert =
     normalize_loop columns_to_invert columns_to_normalize df"

text \<open>The scaler on a column of numbers.\<close>

definition scaled_column :: "real list \<Rightarrow> cell list" where
  "scaled_column vs = map (MinMaxScaler_transform (MinMaxScaler_fit vs)) (map Num vs)"

text \<open>A table with the column \<open>[1, 2, 3, 4, 5]\<close> and a table with a constant column.\<close>

definition example_column_table :: "string \<Rightarrow> real list \<Rightarrow> frame" where
  "example_column_table col vs =
     \<lparr>columns = [(''Stock'', Object), (col, Numeric)],
      rows = map (\<lambda>v. (\<lambda>_. NaN)(''Stock'' := Str ''S'', col := Num v)) vs\<rparr>"

section \<open>ScoreEngine: \<^verbatim>\<open>calculate_composite_score\<close> and the rank\<close>

text \<open>
  \<^verbatim>\<open>weights\<close> is a dict from the column to its weight in percent, an association list
  here. \<^verbatim>\<open>[weights[col] for col in columns]\<close> raises \<^verbatim>\<open>KeyError\<close> on a column without a
  weight, \<^verbatim>\<open>df[columns]\<close> on a column the table does not have; multiplying a text cell
  by a float raises \<^verbatim>\<open>TypeError\<close>. \<^verbatim>\<open>sum(axis=1)\<close> skips missing values.
\<close>

fun weighted :: "cell \<Rightarrow> real \<Rightarrow> real" where
  "weighted (Num v) w = v * w"
| "weighted c w = 0"

definition calculate_composite_score ::
  "frame \<Rightarrow> string list \<Rightarrow> (string \<times> real) list \<Rightarrow> error + cell list" where
  "calculate_composite_score df columns_for_composite_score weights =
     (case those (map (map_of weights) columns_for_composite_score) of
        None \<Rightarrow> Inl KeyError
      | Some ws \<Rightarrow>
          let weight_array = map (\<lambda>w. w / 100) ws in
          if \<not> set columns_for_composite_score \<subseteq> set (column_names df) then Inl KeyError
          else if list_ex (\<lambda>r. list_ex (\<lambda>col. is_Str (r col)) columns_for_composite_score) (rows df)
          then Inl TypeError
          else Inr (map (\<lambda>r. Num (sum_list (map (\<lambda>(col, w). weighted (r col) w)
                                              (zip columns_for_composite_score weight_array))))
                        (rows df)))"

text \<open>
  pandas' \<^verbatim>\<open>Series.rank(ascending=False)\<close> with its default \<^verbatim>\<open>method='average'\<close>: the
  values are put in descending order and numbered from 1, and each value gets the average
  of the numbers its equal values hold. A missing value keeps no rank (NaN) and is not
  numbered. The column ranked here holds numbers only.
\<close>

fun positions_from :: "nat \<Rightarrow> real \<Rightarrow> real list \<Rightarrow> nat list" where
  "positions_from k v [] = []"
| "positions_from k v (y # ys) =
     (if y = v then k # positions_from (Suc k) v ys else positions_from (Suc k) v ys)"

definition average_rank :: "real list \<Rightarrow> real \<Rightarrow> real" where
  "average_rank vs v =
     (let ps = positions_from 1 v (rev (sort vs))
      in real (sum_list ps) / real (length ps))"

fun rank_cell :: "real list \<Rightarrow> cell \<Rightarrow> cell" where
  "rank_cell vs (Num v) = Num (average_rank vs v)"
| "rank_cell vs c = NaN"

definition rank_descending :: "cell list \<Rightarrow> cell list" where
  "rank_descending cs = map (rank_cell (nums cs)) cs"

text \<open>
  Standard competition ranking, as the specification words it: the rank of a score is the
  lowest position of its tie group in the descending order, one more than the number of
  strictly larger scores.
\<close>

definition competition_rank :: "real list \<Rightarrow> real \<Rightarrow> nat" where
  "competition_rank vs v = 1 + length (filter (\<lambda>y. v < y) vs)"

section \<open>Selector: \<^verbatim>\<open>handle_stock_selection\<close>\<close>

text \<open>
  numpy's \<^verbatim>\<open>np.percentile(a, q, method='linear')\<close> on a non-empty array of numbers, in
  double precision. The array is sorted; the quantile is \<^verbatim>\<open>q / 100\<close>, the virtual index
  \<^verbatim>\<open>(n - 1) * quantiles\<close>, each rounded. At or above the last index the result is the last
  entry. Below it the result interpolates between the entries at the floor of the virtual
  index and the next one with the weight \<^verbatim>\<open>gamma = virtual_index - previous_index\<close>.
  numpy's \<^verbatim>\<open>_lerp(a, b, t)\<close> computes \<^verbatim>\<open>a + (b - a) * t\<close> and, where \<^verbatim>\<open>t >= 0.5\<close>,
  \<^verbatim>\<open>b - (b - a) * (1 - t)\<close> instead, every operation rounded.
\<close>

definition lerp :: "real \<Rightarrow> real \<Rightarrow> real \<Rightarrow> real" where
  "lerp a b t =
     (let diff_b_a = fl (b - a)
      in if t \<ge> 1 / 2 then fl (b - fl (diff_b_a * fl (1 - t)))
         else fl (a + fl (diff_b_a * t)))"

definition percentile_linear :: "real list \<Rightarrow> nat \<Rightarrow> real" where
  "percentile_linear a q =
     (let arr = sort a;
          n = length a;
          quantile = fl (real q / 100);
          virtual_index = fl ((real n - 1) * quantile);
          previous_index = nat \<lfloor>virtual_index\<rfloor>;
          next_index = previous_index + 1;
          gamma = fl (virtual_index - real previous_index)
      in if virtual_index \<ge> real n - 1 then arr ! (n - 1)
         else lerp (arr ! previous_index) (arr ! next_index) gamma)"

text \<open>
  On a column of a table: a text cell raises \<^verbatim>\<open>TypeError\<close>, a percentage above 100
  raises \<^verbatim>\<open>ValueError\<close>, a missing value makes the percentile NaN. numpy has no percentile of an empty array (an \<^verbatim>\<open>IndexError\<close> in the
  versions that raise); the ranked table is never empty, since the cleaner's table is kept
  only when it has rows.
\<close>

definition np_percentile :: "cell list \<Rightarrow> nat \<Rightarrow> error + cell" where
  "np_percentile a q =
     (if list_ex is_Str a then Inl TypeError
      else if q > 100 then Inl ValueError
      else if a = [] then Inl IndexError
      else if list_ex isnull a then Inr NaN
      else Inr (Num (percentile_linear (nums a) q)))"

text \<open>\<^verbatim>\<open>series > percentile_value\<close> on one cell: a comparison with NaN is false.\<close>

fun gt_cell :: "cell \<Rightarrow> cell \<Rightarrow> bool" where
  "gt_cell (Num v) (Num c) = (v > c)"
| "gt_cell a b = False"

text \<open>
  Lines 366 to 372: the cutoff and the selected rows, a copy of the rows of the ranked
  table whose score is greater than the cutoff. The result is the new table and the cutoff.
\<close>

definition select_above_percentile :: "frame \<Rightarrow> nat \<Rightarrow> error + (frame \<times> cell)" where
  "select_above_percentile df_ranked percentile_threshold =
     (if ''Composite Score'' \<notin> set (column_names df_ranked) then Inl KeyError
      else case np_percentile (get_column df_ranked ''Composite Score'') percentile_threshold of
             Inl e \<Rightarrow> Inl e
           | Inr percentile_value \<Rightarrow>
               Inr (df_ranked\<lparr>rows := filter (\<lambda>r. gt_cell (r ''Composite Score'') percentile_value)
                                          (rows df_ranked)\<rparr>,
                    percentile_value))"

text \<open>
  \<^verbatim>\<open>pd.cut(values, bins=[-inf, 29182.71, 89123.03, inf], labels=[...], include_lowest=True)\<close>
  followed by \<^verbatim>\<open>astype(str)\<close>. The intervals are closed on the right; with the outer
  edges infinite only the two inner edges decide the bin of a number: the bin is the number
  of inner edges below the value. A missing value falls in no bin, and \<^verbatim>\<open>astype(str)\<close>
  writes it as the text \<^verbatim>\<open>nan\<close>. A text cell raises \<^verbatim>\<open>TypeError\<close>.
\<close>

fun cut_bin :: "real list \<Rightarrow> real \<Rightarrow> nat" where
  "cut_bin [] v = 0"
| "cut_bin (e # es) v = (if v \<le> e then 0 else Suc (cut_bin es v))"

definition market_cap_bins :: "real list" where
  "market_cap_bins = [29182.71, 89123.03]"

definition market_cap_labels :: "string list" where
  "market_cap_labels = [''Small-Cap'', ''Mid-Cap'', ''Large-Cap'']"

fun market_cap_category :: "cell \<Rightarrow> error + cell" where
  "market_cap_category (Num v) = Inr (Str (market_cap_labels ! cut_bin market_cap_bins v))"
| "market_cap_category NaN = Inr (Str ''nan'')"
| "market_cap_category (Str s) = Inl TypeError"

text \<open>\<open>sequence\<close> collects the results of a list of steps, or the first error.\<close>

fun sequence :: "('e + 'a) list \<Rightarrow> 'e + 'a list" where
  "sequence [] = Inr []"
| "sequence (Inl e # xs) = Inl e"
| "sequence (Inr x # xs) = (case sequence xs of Inl e \<Rightarrow> Inl e | Inr ys \<Rightarrow> Inr (x # ys))"

text \<open>Lines 375 to 381: the new column \<^verbatim>\<open>Market Cap Category\<close> of the selected table.\<close>

definition assign_market_cap_category :: "frame \<Rightarrow> error + frame" where
  "assign_market_cap_category df_selected =
     (if ''Market Capitalization'' \<notin> set (column_names df_selected) then Inl KeyError
      else case sequence (map market_cap_category (get_column df_selected ''Market Capitalization'')) of
             Inl e \<Rightarrow> Inl e
           | Inr cats \<Rightarrow> Inr (set_column df_selected ''Market Cap Category'' Object cats))"

text \<open>The two steps together: the table \<^verbatim>\<open>df_selected\<close> and the cutoff.\<close>

definition stock_selection :: "frame \<Rightarrow> nat \<Rightarrow> error + (frame \<times> cell)" where
  "stock_selection df_ranked percentile_threshold =
     (case select_above_percentile df_ranked percentile_threshold of
        Inl e \<Rightarrow> Inl e
      | Inr (df_selected, percentile_value) \<Rightarrow>
          (case assign_market_cap_category df_selected of
             Inl e \<Rightarrow> Inl e
           | Inr df_selected' \<Rightarrow> Inr (df_selected', percentile_value)))"

text \<open>Tables for the selector: a score and a market capitalization per row.\<close>

definition example_ranked_table :: "(real \<times> cell) list \<Rightarrow> frame" where
  "example_ranked_table xs =
     \<lparr>columns = [(''Stock'', Object), (''Market Capitalization'', Numeric),
                 (''Composite Score'', Numeric), (''Rank'', Numeric)],
      rows = map (\<lambda>(score, mcap). (\<lambda>_. NaN)(''Stock'' := Str ''S'',
                    ''Market Capitalization'' := mcap, ''Composite Score'' := Num score)) xs\<rparr>"


section \<open>ReturnsAnalyzer: trading days, covariance and mean\<close>

text \<open>
  The table \<^verbatim>\<open>returns_data\<close> has one row per trading day and one column of daily returns
  per asset; a day without an observation for an asset holds NaN (the first day always
  does). \<^verbatim>\<open>analyze_trading_days\<close> counts the rows; its calendar entries (first and last
  date, months spanned, missing business days) are computed from the dates alone and are
  not modelled.
\<close>

record trading_metrics =
  total_trading_days :: nat
  trading_days_ratio :: real

definition analyze_trading_days :: "frame \<Rightarrow> trading_metrics" where
  "analyze_trading_days returns_data =
     (let trading_days = length (rows returns_data)
      in \<lparr>total_trading_days = trading_days,
          trading_days_ratio = real trading_days / 252\<rparr>)"

text \<open>
  pandas' \<^verbatim>\<open>DataFrame.cov()\<close> gives, for each pair of columns, the sample covariance
  (divisor \<open>n - 1\<close>) over the rows where both columns hold a number, NaN when there are
  fewer than two such rows; \<^verbatim>\<open>DataFrame.mean()\<close> gives, for each column, the mean of its
  numbers, NaN when it has none. Both are reductions in pandas' compiled code, and the
  doubles they return depend on the order in which that code adds and multiplies. The
  model takes the two functions as given: \<open>pd\<close> stands for the library, and the pages that
  call it take it as a parameter.
\<close>

record pandas =
  DataFrame_cov :: "frame \<Rightarrow> cell list list"
  DataFrame_mean :: "frame \<Rightarrow> cell list"

text \<open>
  The two statistics in exact arithmetic, and the library that computes them so. On a
  table whose sums, products and quotients are all doubles it returns what pandas returns.
\<close>

fun pair_of :: "cell \<Rightarrow> cell \<Rightarrow> (real \<times> real) list" where
  "pair_of (Num x) (Num y) = [(x, y)]"
| "pair_of a b = []"

definition pair_obs :: "frame \<Rightarrow> string \<Rightarrow> string \<Rightarrow> (real \<times> real) list" where
  "pair_obs df a b = concat (map (\<lambda>r. pair_of (r a) (r b)) (rows df))"

definition sample_cov :: "(real \<times> real) list \<Rightarrow> cell" where
  "sample_cov obs =
     (let n = length obs in
      if n < 2 then NaN
      else
        let mean_x = sum_list (map fst obs) / real n;
            mean_y = sum_list (map snd obs) / real n
        in Num (sum_list (map (\<lambda>(x, y). (x - mean_x) * (y - mean_y)) obs) / (real n - 1)))"

definition exact_cov :: "frame \<Rightarrow> cell list list" where
  "exact_cov df =
     map (\<lambda>a. map (\<lambda>b. sample_cov (pair_obs df a b)) (column_names df)) (column_names df)"

definition column_mean :: "cell list \<Rightarrow> cell" where
  "column_mean cs = (if nums cs = [] then NaN else Num (sum_list (nums cs) / real (length (nums cs))))"

definition exact_mean :: "frame \<Rightarrow> cell list" where
  "exact_mean df = map (\<lambda>a. column_mean (get_column df a)) (column_names df)"

definition exact_pandas :: pandas where
  "exact_pandas = \<lparr>DataFrame_cov = exact_cov, DataFrame_mean = exact_mean\<rparr>"

text \<open>
  A table or a series times a number, on one cell: the product of two doubles, rounded.
\<close>

fun times_cell :: "real \<Rightarrow> cell \<Rightarrow> cell" where
  "times_cell k (Num v) = Num (fl (v * k))"
| "times_cell k c = c"

text \<open>
  \<^verbatim>\<open>analyze_covariance_for_optimization\<close> computes diagnostics that are only displayed
  (eigenvalues, condition number, symmetry, extreme correlations); what matters to the
  caller is whether it raises. \<^verbatim>\<open>np.linalg.eigvals\<close> raises \<^verbatim>\<open>LinAlgError\<close> on a matrix
  with a NaN, and with a single asset the correlations off the diagonal are an empty array,
  whose \<^verbatim>\<open>min()\<close> raises \<^verbatim>\<open>ValueError\<close>.
\<close>

definition analyze_covariance_for_optimization :: "cell list list \<Rightarrow> frame \<Rightarrow> error + unit" where
  "analyze_covariance_for_optimization covariance_matrix returns_data =
     (if list_ex (list_ex isnull) covariance_matrix then Inl LinAlgError
      else if length (column_names returns_data) < 2 then Inl ValueError
      else Inr ())"

section \<open>PortfolioOptimizer: the constraints of \<^verbatim>\<open>handle_portfolio_optimization\<close>\<close>

text \<open>
  \<^verbatim>\<open>series.unique()\<close>: the distinct values in the order of their first appearance.
\<close>

definition unique :: "'a list \<Rightarrow> 'a list" where
  "unique xs = rev (remdups (rev xs))"

text \<open>\<^verbatim>\<open>series == value\<close> on one cell: NaN is equal to nothing.\<close>

definition eq_cell :: "cell \<Rightarrow> cell \<Rightarrow> bool" where
  "eq_cell a b = (a = b \<and> a \<noteq> NaN)"

text \<open>
  Each constraint is a dict with a \<^verbatim>\<open>type\<close> and a \<^verbatim>\<open>fun\<close>, a lambda. A lambda is modelled
  by its code and the values it captured when it was created. The equality constraint is
  \<^verbatim>\<open>lambda x: np.sum(x) - 1\<close>. A group constraint is
  \<^verbatim>\<open>lambda x, idx=industry_indices: industry_limits[industry] - np.sum(x[idx])\<close> (and the
  same with \<^verbatim>\<open>cap_indices\<close>, \<^verbatim>\<open>cap_limits[cap_type]\<close>): the default argument \<^verbatim>\<open>idx\<close> is
  evaluated when the lambda is created and stored in it, while \<^verbatim>\<open>industry\<close>,
  \<^verbatim>\<open>cap_type\<close>, \<^verbatim>\<open>industry_limits\<close> and \<^verbatim>\<open>cap_limits\<close> are free variables of the lambda,
  looked up in the enclosing function's variables each time the lambda is called.
\<close>

datatype constraint_type = Eq | Ineq

datatype constraint_fun =
    SumMinusOne
  | IndustryLimitMinusSum "nat list"
  | CapLimitMinusSum "nat list"

type_synonym constraint = "constraint_type \<times> constraint_fun"

text \<open>
  The local variables of \<^verbatim>\<open>handle_portfolio_optimization\<close> the lambdas read: the loop
  variables \<^verbatim>\<open>industry\<close> and \<^verbatim>\<open>cap_type\<close> (unbound before their loops run) and the two
  dicts of limits.
\<close>

record locals =
  industry :: "cell option"
  cap_type :: "string option"
  industry_limits :: "(cell \<times> real) list"
  cap_limits :: "(string \<times> real) list"

text \<open>\<^verbatim>\<open>np.sum(x[idx])\<close>\<close>

definition sum_at :: "real list \<Rightarrow> nat list \<Rightarrow> real" where
  "sum_at x idx = sum_list (map (\<lambda>i. x ! i) idx)"

text \<open>Calling a constraint function with the weight vector \<open>x\<close>, in the variables \<open>env\<close>.\<close>

fun call_constraint :: "locals \<Rightarrow> constraint_fun \<Rightarrow> real list \<Rightarrow> error + real" where
  "call_constraint env SumMinusOne x = Inr (sum_list x - 1)"
| "call_constraint env (IndustryLimitMinusSum idx) x =
     (case industry env of
        None \<Rightarrow> Inl NameError
      | Some ind \<Rightarrow>
          (case map_of (industry_limits env) ind of
             None \<Rightarrow> Inl KeyError
           | Some limit \<Rightarrow> Inr (limit - sum_at x idx)))"
| "call_constraint env (CapLimitMinusSum idx) x =
     (case cap_type env of
        None \<Rightarrow> Inl NameError
      | Some ct \<Rightarrow>
          (case map_of (cap_limits env) ct of
             None \<Rightarrow> Inl KeyError
           | Some limit \<Rightarrow> Inr (limit - sum_at x idx)))"

text \<open>
  \<^verbatim>\<open>[i for i, symbol in enumerate(returns_data.columns) if symbol in stocks]\<close>, where
  \<^verbatim>\<open>stocks\<close> is the \<^verbatim>\<open>Symbol\<close> column of the rows of \<^verbatim>\<open>selected_stocks\<close> whose column
  \<open>col\<close> equals \<open>v\<close>.
\<close>

definition group_indices :: "frame \<Rightarrow> string list \<Rightarrow> string \<Rightarrow> cell \<Rightarrow> nat list" where
  "group_indices selected_stocks returns_columns col v =
     (let stocks = map (\<lambda>r. r ''Symbol'')
                     (filter (\<lambda>r. eq_cell (r col) v) (rows selected_stocks))
      in filter (\<lambda>i. Str (returns_columns ! i) \<in> set stocks) [0 ..< length returns_columns])"

text \<open>
  The two loops, lines 784 to 802, on the pair of the variables and the list
  \<^verbatim>\<open>constraints\<close>. Each pass binds the loop variable, computes the indices of the group
  and, when there are any, appends a constraint that stores them. Reading a column the
  selected table does not have raises \<^verbatim>\<open>KeyError\<close>.
\<close>

definition industry_step ::
  "frame \<Rightarrow> string list \<Rightarrow> cell \<Rightarrow> locals \<times> constraint list \<Rightarrow> locals \<times> constraint list" where
  "industry_step selected_stocks returns_columns ind st =
     (let env = (fst st)\<lparr>industry := Some ind\<rparr>;
          industry_indices = group_indices selected_stocks returns_columns ''Industry'' ind
      in if industry_indices \<noteq> []
         then (env, snd st @ [(Ineq, IndustryLimitMinusSum industry_indices)])
         else (env, snd st))"

definition cap_step ::
  "frame \<Rightarrow> string list \<Rightarrow> string \<Rightarrow> locals \<times> constraint list \<Rightarrow> locals \<times> constraint list" where
  "cap_step selected_stocks returns_columns ct st =
     (let env = (fst st)\<lparr>cap_type := Some ct\<rparr>;
          cap_indices = group_indices selected_stocks returns_columns ''Market Cap Category'' (Str ct)
      in if cap_indices \<noteq> []
         then (env, snd st @ [(Ineq, CapLimitMinusSum cap_indices)])
         else (env, snd st))"

definition build_constraints ::
  "frame \<Rightarrow> string list \<Rightarrow> locals \<Rightarrow> error + (locals \<times> constraint list)" where
  "build_constraints selected_stocks returns_columns env =
     (if \<not> set [''Industry'', ''Market Cap Category'', ''Symbol'']
            \<subseteq> set (column_names selected_stocks)
      then Inl KeyError
      else
        let industries = unique (get_column selected_stocks ''Industry'');
            st0 = (env, [(Eq, SumMinusOne)]);
            st1 = fold (industry_step selected_stocks returns_columns) industries st0
        in Inr (fold (cap_step selected_stocks returns_columns)
                  [''Large-Cap'', ''Mid-Cap'', ''Small-Cap''] st1))"

text \<open>
  What the solver gets when a constraint is evaluated at \<open>x\<close>: \<^verbatim>\<open>minimize\<close> is called after
  both loops, so every lambda runs in the variables as the loops left them.
\<close>

definition constraint_values ::
  "frame \<Rightarrow> string list \<Rightarrow> locals \<Rightarrow> real list \<Rightarrow> error + (error + real) list" where
  "constraint_values selected_stocks returns_columns env x =
     (case build_constraints selected_stocks returns_columns env of
        Inl e \<Rightarrow> Inl e
      | Inr st \<Rightarrow> Inr (map (\<lambda>c. call_constraint (fst st) (snd c) x) (snd st)))"

text \<open>
  Two selected stocks with returns: one IT large cap and one bank mid cap, with the
  individual industry limits 30 percent for IT and 60 percent for banks, and the market
  cap limits the page sets up for them: 50 percent each for the two categories present,
  0 for the absent small caps.
\<close>

definition two_stocks :: frame where
  "two_stocks =
     \<lparr>columns = [(''Stock'', Object), (''Industry'', Object), (''Market Cap Category'', Object),
                 (''Symbol'', Object)],
      rows = [(\<lambda>_. NaN)(''Stock'' := Str ''Infosys'', ''Industry'' := Str ''IT'',
                ''Market Cap Category'' := Str ''Large-Cap'', ''Symbol'' := Str ''INFY''),
              (\<lambda>_. NaN)(''Stock'' := Str ''HDFC Bank'', ''Industry'' := Str ''Banks'',
                ''Market Cap Category'' := Str ''Mid-Cap'', ''Symbol'' := Str ''HDFCBANK'')]\<rparr>"

definition two_stocks_locals :: locals where
  "two_stocks_locals =
     \<lparr>industry = None, cap_type = None,
      industry_limits = [(Str ''IT'', 0.3), (Str ''Banks'', 0.6)],
      cap_limits = [(''Large-Cap'', 0.5), (''Mid-Cap'', 0.5), (''Small-Cap'', 0)]\<rparr>"

section \<open>PortfolioOptimizer: post-processing of the solution\<close>

text \<open>
  \<^verbatim>\<open>np.round(x, 2)\<close> rounds \<open>x * 100\<close> to the nearest integer, a tie to the even one, and
  divides by 100.
\<close>

definition round2 :: "real \<Rightarrow> real" where
  "round2 x = of_int (rint (x * 100)) / 100"

text \<open>\<^verbatim>\<open>np.argmax\<close>: the first index of the largest entry of a non-empty array.\<close>

fun argmax_from :: "nat \<Rightarrow> real \<Rightarrow> nat \<Rightarrow> real list \<Rightarrow> nat" where
  "argmax_from best_i best i [] = best_i"
| "argmax_from best_i best i (x # xs) =
     (if x > best then argmax_from i x (Suc i) xs else argmax_from best_i best (Suc i) xs)"

definition argmax :: "real list \<Rightarrow> nat" where
  "argmax xs = (case xs of [] \<Rightarrow> 0 | x # rest \<Rightarrow> argmax_from 0 x 1 rest)"

text \<open>
  Lines 831 to 837, on the solution \<^verbatim>\<open>result.x\<close> of a successful solve: the weights
  normalized to the sum 1, as percentages rounded to two decimals, the residual added to the
  largest. A solution whose entries sum to 0 has no normalized weights that are numbers
  (numpy divides to inf and NaN); the result is then \<open>None\<close>. The solver returns one entry
  per asset, and there is at least one asset.
\<close>

definition adjusted_weights_pct :: "real list \<Rightarrow> real list option" where
  "adjusted_weights_pct result_x =
     (if result_x = [] \<or> sum_list result_x = 0 then None
      else
        let optimal_weights = map (\<lambda>x. x / sum_list result_x) result_x;
            weights_pct = map (\<lambda>w. round2 (w * 100)) optimal_weights;
            k = argmax weights_pct
        in Some (weights_pct[k := weights_pct ! k + (100 - sum_list weights_pct)]))"

text \<open>
  Lines 840 to 867: the table \<^verbatim>\<open>portfolio_results\<close>, one row per asset with its ticker and
  its weight (the name, segment and category columns are labels looked up per ticker and
  are left out), filtered to the weights above 0.01, sorted by weight in descending order,
  and followed by the row \<^verbatim>\<open>Total\<close> with the weight 100.00.
\<close>

record result_row =
  ticker :: string
  weight_pct :: real

definition per_asset_rows :: "string list \<Rightarrow> real list \<Rightarrow> result_row list option" where
  "per_asset_rows returns_columns result_x =
     (case adjusted_weights_pct result_x of
        None \<Rightarrow> None
      | Some weights_pct \<Rightarrow>
          let table = map (\<lambda>(t, w). \<lparr>ticker = t, weight_pct = w\<rparr>) (zip returns_columns weights_pct);
              kept = filter (\<lambda>r. weight_pct r > 0.01) table
          in Some (rev (sort_key weight_pct (rev kept))))"

definition portfolio_results :: "string list \<Rightarrow> real list \<Rightarrow> result_row list option" where
  "portfolio_results returns_columns result_x =
     map_option (\<lambda>per_asset. per_asset @ [\<lparr>ticker = [], weight_pct = 100.00\<rparr>])
       (per_asset_rows returns_columns result_x)"

section \<open>The session and the six pages\<close>

text \<open>
  \<^verbatim>\<open>st.session_state\<close> keeps references to tables between runs of the pages. Tables are
  objects: two variables can name the same table, and an assignment to a column of one is
  seen through the other. The model keeps the tables in a store, a list indexed by
  address; the session holds addresses. A new table (a copy, a filtered or a sorted table)
  gets a new address.
\<close>

type_synonym addr = nat

record session_state =
  step :: nat
  data :: "addr option"
  cleaned_data :: "addr option"
  normalized_data :: "addr option"
  normalized_columns :: "string list option"
  normalization_completed :: bool
  weights :: "(string \<times> real) list"
  ranked_data :: "addr option"
  selected_stocks :: "addr option"
  returns_data :: "addr option"
  closing_prices :: "addr option"
  covariance_matrix :: "cell list list option"
  trading_days_metrics :: "trading_metrics option"

record world =
  session :: session_state
  heap :: "frame list"

definition initialize_session_state :: session_state where
  "initialize_session_state =
     \<lparr>step = 1, data = None, cleaned_data = None, normalized_data = None,
      normalized_columns = None, normalization_completed = False, weights = [],
      ranked_data = None, selected_stocks = None, returns_data = None,
      closing_prices = None, covariance_matrix = None, trading_days_metrics = None\<rparr>"

definition alloc :: "frame \<Rightarrow> world \<Rightarrow> addr \<times> world" where
  "alloc df w = (length (heap w), w\<lparr>heap := heap w @ [df]\<rparr>)"

definition set_step :: "nat \<Rightarrow> world \<Rightarrow> world" where
  "set_step n w = w\<lparr>session := (session w)\<lparr>step := n\<rparr>\<rparr>"

text \<open>
  Each page is a function of what the user does on it (the uploaded file, the selections,
  the buttons pressed) and of the world; it returns the world after the run. An exception
  ends the run and leaves the world as it is at that point.

  Page 1, \<^verbatim>\<open>handle_data_import\<close>: \<^verbatim>\<open>pd.read_csv\<close> creates the table \<open>contents\<close>,
  \<^verbatim>\<open>clean_data\<close> a cleaned copy, which is kept when it has rows.
\<close>

definition handle_data_import :: "frame option \<Rightarrow> bool \<Rightarrow> world \<Rightarrow> world" where
  "handle_data_import uploaded_file proceed w =
     (case uploaded_file of
        None \<Rightarrow> w
      | Some contents \<Rightarrow>
          let (df, w1) = alloc contents w;
              (cleaned, cleaning_stats) = clean_data (heap w1 ! df);
              (df_cleaned, w2) = alloc cleaned w1
          in if length (rows cleaned) > 0
             then let w3 = w2\<lparr>session := (session w2)\<lparr>cleaned_data := Some df_cleaned\<rparr>\<rparr>
                  in if proceed then set_step 2 w3 else w3
             else w2)"

text \<open>
  Page 2, \<^verbatim>\<open>handle_normalization\<close>. The page offers the numeric columns outside
  \<^verbatim>\<open>preserve_columns\<close> for normalization, and the columns chosen for inversion.
\<close>

definition handle_normalization ::
  "string list \<Rightarrow> string list \<Rightarrow> bool \<Rightarrow> bool \<Rightarrow> world \<Rightarrow> world" where
  "handle_normalization columns_to_normalize columns_to_invert apply_clicked proceed w =
     (case cleaned_data (session w) of
        None \<Rightarrow> w
      | Some df \<Rightarrow>
          let w1 =
            (if columns_to_normalize \<noteq> [] \<and> apply_clicked
             then (case normalize_data (heap w ! df) columns_to_normalize columns_to_invert of
                     Inl e \<Rightarrow> w
                   | Inr normalized \<Rightarrow>
                       let (df_normalized, w') = alloc normalized w
                       in w'\<lparr>session := (session w')
                             \<lparr>normalized_data := Some df_normalized,
                              normalized_columns := Some columns_to_normalize,
                              normalization_completed := True\<rparr>\<rparr>)
             else w)
          in if normalization_completed (session w1) \<and> proceed then set_step 3 w1 else w1)"

text \<open>
  \<^verbatim>\<open>df.sort_values(col, ascending=False)\<close>: a new table with the rows in descending order
  of the column, rows with a missing value last. Rows with equal values are kept in their
  order.
\<close>

fun num_of :: "cell \<Rightarrow> real" where
  "num_of (Num v) = v"
| "num_of c = 0"

definition sort_values_desc :: "frame \<Rightarrow> string \<Rightarrow> frame" where
  "sort_values_desc df col =
     df\<lparr>rows := rev (sort_key (\<lambda>r. num_of (r col)) (rev (filter (\<lambda>r. \<not> isnull (r col)) (rows df))))
                @ filter (\<lambda>r. isnull (r col)) (rows df)\<rparr>"

text \<open>
  Page 3, \<^verbatim>\<open>handle_composite_score\<close>. \<^verbatim>\<open>df = st.session_state.normalized_data\<close> names the
  normalized table itself, and the two column assignments write into it; only
  \<^verbatim>\<open>df_ranked\<close> is a new table. \<open>weight_inputs\<close> are the weights entered, one per
  normalized column.
\<close>

definition handle_composite_score :: "real list \<Rightarrow> bool \<Rightarrow> bool \<Rightarrow> world \<Rightarrow> world" where
  "handle_composite_score weight_inputs calculate_clicked proceed w =
     (if \<not> normalization_completed (session w) then w
      else case (normalized_data (session w), normalized_columns (session w)) of
        (Some df, Some normalized_cols) \<Rightarrow>
          let entered = zip normalized_cols weight_inputs;
              weights_dict = fold (\<lambda>(col, weight). AList.update col weight) entered [];
              total_weight = sum_list (map snd entered)
          in if \<bar>total_weight - 100\<bar> > 0.1 then w
             else
               let w1 =
                 (if calculate_clicked
                  then (case calculate_composite_score (heap w ! df) normalized_cols weights_dict of
                          Inl e \<Rightarrow> w
                        | Inr scores \<Rightarrow>
                            let h1 = (heap w)[df := set_column (heap w ! df)
                                                      ''Composite Score'' Numeric scores];
                                h2 = h1[df := set_column (h1 ! df) ''Rank'' Numeric
                                                (rank_descending (get_column (h1 ! df) ''Composite Score''))];
                                (df_ranked, w') =
                                   alloc (sort_values_desc (h2 ! df) ''Composite Score'')
                                     (w\<lparr>heap := h2\<rparr>)
                            in w'\<lparr>session := (session w')
                                  \<lparr>ranked_data := Some df_ranked, weights := weights_dict\<rparr>\<rparr>)
                  else w)
               in if ranked_data (session w1) \<noteq> None \<and> proceed then set_step 4 w1 else w1
      | _ \<Rightarrow> w)"

text \<open>
  Page 4, \<^verbatim>\<open>handle_stock_selection\<close>. \<^verbatim>\<open>df_selected\<close> is a copy; it is stored when the
  user proceeds.
\<close>

definition handle_stock_selection :: "nat \<Rightarrow> bool \<Rightarrow> world \<Rightarrow> world" where
  "handle_stock_selection percentile_threshold proceed w =
     (case ranked_data (session w) of
        None \<Rightarrow> w
      | Some df_ranked \<Rightarrow>
          (case stock_selection (heap w ! df_ranked) percentile_threshold of
             Inl e \<Rightarrow> w
           | Inr (selected, percentile_value) \<Rightarrow>
               let (df_selected, w1) = alloc selected w
               in if proceed
                  then set_step 5
                         (w1\<lparr>session := (session w1)\<lparr>selected_stocks := Some df_selected\<rparr>\<rparr>)
                  else w1))"

text \<open>
  Page 5, \<^verbatim>\<open>handle_returns_analysis\<close>. \<^verbatim>\<open>selected_stocks = st.session_state.selected_stocks\<close>
  names the selected table itself, and the column \<^verbatim>\<open>Symbol\<close> is written into it. The
  download of the prices is the work of the price-series collaborator: \<open>fetched_returns\<close>
  and \<open>fetched_prices\<close> are the tables \<^verbatim>\<open>returns_data\<close> and \<^verbatim>\<open>closing_prices\<close> the loop over
  the symbols builds from it. The results are stored only when nothing in the analysis
  raises. Computing the symbols raises \<^verbatim>\<open>KeyError\<close> when a code column that is read is
  not in the table, and \<^verbatim>\<open>ValueError\<close> on a table without rows, where \<^verbatim>\<open>apply\<close> returns
  a table instead of a column. \<open>pd\<close> is the pandas library.
\<close>

definition get_stock_symbol :: "row \<Rightarrow> cell" where
  "get_stock_symbol r = (if \<not> isnull (r ''NSE Code'') then r ''NSE Code'' else r ''BSE Code'')"

definition symbols_raise :: "frame \<Rightarrow> bool" where
  "symbols_raise df =
     (rows df = []
      \<or> ''NSE Code'' \<notin> set (column_names df)
      \<or> (''BSE Code'' \<notin> set (column_names df) \<and> list_ex (\<lambda>r. isnull (r ''NSE Code'')) (rows df)))"

definition frame_empty :: "frame \<Rightarrow> bool" where
  "frame_empty df = (columns df = [] \<or> rows df = [])"

definition handle_returns_analysis ::
  "pandas \<Rightarrow> frame \<Rightarrow> frame \<Rightarrow> bool \<Rightarrow> world \<Rightarrow> world" where
  "handle_returns_analysis pd fetched_returns fetched_prices proceed w =
     (case selected_stocks (session w) of
        None \<Rightarrow> w
      | Some sel \<Rightarrow>
          if symbols_raise (heap w ! sel) then w
          else
            let w1 = w\<lparr>heap := (heap w)[sel := set_column (heap w ! sel) ''Symbol'' Object
                                                 (map get_stock_symbol (rows (heap w ! sel)))]\<rparr>
            in if frame_empty fetched_returns then w1
               else
                 let trading_metrics = analyze_trading_days fetched_returns;
                     covariance = map (map (times_cell (real (total_trading_days trading_metrics))))
                                      (DataFrame_cov pd fetched_returns)
                 in case analyze_covariance_for_optimization covariance fetched_returns of
                      Inl e \<Rightarrow> w1
                    | Inr u \<Rightarrow>
                        let (r, w2) = alloc fetched_returns w1;
                            (c, w3) = alloc fetched_prices w2;
                            w4 = w3\<lparr>session := (session w3)
                                    \<lparr>returns_data := Some r,
                                     closing_prices := Some c,
                                     covariance_matrix := Some covariance,
                                     trading_days_metrics := Some trading_metrics\<rparr>\<rparr>
                        in if proceed then set_step 6 w4 else w4)"


text \<open>
  A world after page 4 with one selected stock, and the returns of two assets over three
  trading days (the first day without a return).
\<close>

definition selected_world :: world where
  "selected_world =
     \<lparr>session = initialize_session_state\<lparr>step := 5, selected_stocks := Some 0\<rparr>,
      heap = [\<lparr>columns = [(''Stock'', Object), (''NSE Code'', Object), (''BSE Code'', Numeric)],
                rows = [(\<lambda>_. NaN)(''Stock'' := Str ''Infosys'', ''NSE Code'' := Str ''INFY'')]\<rparr>]\<rparr>"

definition three_days :: frame where
  "three_days =
     \<lparr>columns = [(''X'', Numeric), (''Y'', Numeric)],
      rows = [(\<lambda>_. NaN),
              (\<lambda>_. NaN)(''X'' := Num 0.01, ''Y'' := Num 0.02),
              (\<lambda>_. NaN)(''X'' := Num 0.03, ''Y'' := Num 0.02)]\<rparr>"



section \<open>What a page does to the tables of earlier pages\<close>

text \<open>
  \<open>same_except cs f f'\<close>: outside the columns \<open>cs\<close> the tables \<open>f\<close> and \<open>f'\<close> have the same
  columns and the same cells, row by row.
\<close>

definition mask :: "string set \<Rightarrow> row \<Rightarrow> row" where
  "mask cs r = (\<lambda>c. if c \<in> cs then NaN else r c)"

definition same_except :: "string set \<Rightarrow> frame \<Rightarrow> frame \<Rightarrow> bool" where
  "same_except cs f f' =
     (map (mask cs) (rows f') = map (mask cs) (rows f)
      \<and> filter (\<lambda>cd. fst cd \<notin> cs) (columns f') = filter (\<lambda>cd. fst cd \<notin> cs) (columns f))"

text \<open>
  A file with one metric column, and the world after it went through pages 1 and 2
  (cleaning, then normalization of the metric) from a fresh session.
\<close>

definition example_file :: frame where
  "example_file =
     \<lparr>columns = [(''Stock'', Object), (''NSE Code'', Object),
                 (''Market Capitalization'', Numeric), (''ROE'', Numeric)],
      rows = [(\<lambda>_. NaN)(''Stock'' := Str ''Infosys'', ''NSE Code'' := Str ''INFY'',
                ''Market Capitalization'' := Num 600000, ''ROE'' := Num 30),
              (\<lambda>_. NaN)(''Stock'' := Str ''HDFC Bank'', ''NSE Code'' := Str ''HDFCBANK'',
                ''Market Capitalization'' := Num 50000, ''ROE'' := Num 10)]\<rparr>"

definition fresh_world :: world where
  "fresh_world = \<lparr>session = initialize_session_state, heap = []\<rparr>"

definition normalized_world :: world where
  "normalized_world =
     handle_normalization [''ROE''] [] True True
       (handle_data_import (Some example_file) True fresh_world)"

text \<open>The same world after page 3, with the one weight of 100 percent.\<close>

definition ranked_world :: world where
  "ranked_world = handle_composite_score [100] True True normalized_world"

section \<open>Properties of the rounding\<close>

lemma rint_char:
  "\<bar>x - of_int (rint x)\<bar> < 1 / 2 \<or> (\<bar>x - of_int (rint x)\<bar> = 1 / 2 \<and> even (rint x))"
proof -
  define f where "f = \<lfloor>x\<rfloor>"
  define d where "d = x - of_int f"
  have d: "0 \<le> d" "d < 1" unfolding d_def f_def by linarith+
  have x: "x - of_int f = d" "x - of_int (f + 1) = d - 1" by (simp_all add: d_def)
  have r: "rint x = (if d < 1 / 2 then f else if d > 1 / 2 then f + 1 else if even f then f else f + 1)"
    unfolding rint_def Let_def d_def f_def by (rule refl)
  consider "d < 1 / 2" | "d > 1 / 2" | "d = 1 / 2" "even f" | "d = 1 / 2" "odd f" by linarith
  then show ?thesis
  proof cases
    case 1
    then have "rint x = f" by (simp add: r)
    then show ?thesis using d 1 by (simp only: x) simp
  next
    case 2
    then have "rint x = f + 1" by (simp add: r)
    then show ?thesis using d 2 by (simp only: x) simp
  next
    case 3
    then have "rint x = f" by (simp add: r)
    then show ?thesis using d 3 by (simp only: x) simp
  next
    case 4
    then have "rint x = f + 1" by (simp add: r)
    then show ?thesis using d 4 by (simp only: x) simp
  qed
qed

lemma rint_unique:
  assumes "\<bar>x - of_int k\<bar> < 1 / 2 \<or> (\<bar>x - of_int k\<bar> = 1 / 2 \<and> even k)"
  shows "rint x = k"
proof -
  have c: "\<bar>x - of_int (rint x)\<bar> < 1 / 2 \<or> (\<bar>x - of_int (rint x)\<bar> = 1 / 2 \<and> even (rint x))"
    by (rule rint_char)
  have "\<bar>of_int (rint x) - (of_int k :: real)\<bar> \<le> 1" using assms c by linarith
  then have "\<bar>rint x - k\<bar> \<le> 1" by linarith
  then consider "rint x = k" | "rint x = k + 1" | "rint x = k - 1" by linarith
  then show ?thesis
  proof cases
    case 1 then show ?thesis .
  next
    case 2
    then have "of_int (rint x) = (of_int k :: real) + 1" by simp
    with assms c have "even k \<and> even (rint x)" by linarith
    with 2 show ?thesis by simp
  next
    case 3
    then have "of_int (rint x) = (of_int k :: real) - 1" by simp
    with assms c have "even k \<and> even (rint x)" by linarith
    with 3 show ?thesis by simp
  qed
qed

lemma rint_of_int: "rint (of_int k) = k"
  by (rule rint_unique) simp

lemma rint_neg: "rint (- x) = - rint x"
proof (rule rint_unique)
  have "\<bar>- x - of_int (- rint x)\<bar> = \<bar>x - of_int (rint x)\<bar>" by simp
  then show "\<bar>- x - of_int (- rint x)\<bar> < 1 / 2 \<or> (\<bar>- x - of_int (- rint x)\<bar> = 1 / 2 \<and> even (- rint x))"
    using rint_char [of x] by simp
qed

lemma rint_mono:
  assumes "x \<le> y"
  shows "rint x \<le> rint y"
proof (rule ccontr)
  assume "\<not> rint x \<le> rint y"
  then have gt: "rint y + 1 \<le> rint x" by simp
  then have r: "(of_int (rint y) :: real) + 1 \<le> of_int (rint x)" by linarith
  have cx: "\<bar>x - of_int (rint x)\<bar> < 1 / 2 \<or> (\<bar>x - of_int (rint x)\<bar> = 1 / 2 \<and> even (rint x))"
    by (rule rint_char)
  have cy: "\<bar>y - of_int (rint y)\<bar> < 1 / 2 \<or> (\<bar>y - of_int (rint y)\<bar> = 1 / 2 \<and> even (rint y))"
    by (rule rint_char)
  have eq: "of_int (rint x) = (of_int (rint y) :: real) + 1" using assms r cx cy by linarith
  then have "rint x = rint y + 1" by linarith
  moreover have "even (rint x) \<and> even (rint y)" using assms r cx cy eq by linarith
  ultimately show False by simp
qed

lemma expo_bounds:
  assumes "x \<noteq> 0"
  shows "2 powi (expo x) \<le> \<bar>x\<bar> \<and> \<bar>x\<bar> < 2 powi (expo x + 1)"
proof (cases "\<bar>x\<bar> \<ge> 1")
  case True
  define n where "n = \<lfloor>\<bar>x\<bar>\<rfloor>"
  have n1: "1 \<le> n" using True by (simp add: n_def)
  define j where "j = nat (bitlen n - 1)"
  have b: "2 ^ j \<le> n \<and> n < 2 ^ nat (bitlen n)"
    unfolding j_def using bitlen_bounds [of n] n1 by simp
  have "0 < bitlen n"
  proof (rule ccontr)
    assume "\<not> 0 < bitlen n"
    then have "nat (bitlen n) = 0" by simp
    then show False using bitlen_bounds [of n] n1 by simp
  qed
  then have bl: "bitlen n = int j + 1" by (simp add: j_def)
  have e: "expo x = int j" using True by (simp add: expo_def Let_def n_def [symmetric] bl)
  have up: "n + 1 \<le> 2 ^ (j + 1)" using b bl by (simp add: nat_add_distrib)
  have "(2::real) ^ j \<le> of_int n" proof -
    have "real_of_int (2 ^ j) \<le> real_of_int n" by (rule iffD2 [OF of_int_le_iff]) (simp add: b)
    then show ?thesis by simp
  qed
  also have "\<dots> \<le> \<bar>x\<bar>" by (simp add: n_def)
  finally have lo: "(2::real) ^ j \<le> \<bar>x\<bar>" .
  have "\<bar>x\<bar> < of_int n + 1" by (simp add: n_def)
  also have "\<dots> \<le> (2::real) ^ (j + 1)" proof -
    have "real_of_int (n + 1) \<le> real_of_int (2 ^ (j + 1))" by (rule iffD2 [OF of_int_le_iff]) (rule up)
    then show ?thesis by simp
  qed
  finally have hi: "\<bar>x\<bar> < (2::real) ^ (j + 1)" .
  show ?thesis using lo hi by (simp add: e power_int_def nat_add_distrib)
next
  case False
  define a where "a = \<bar>x\<bar>"
  have a0: "0 < a" "a < 1" using assms False by (simp_all add: a_def)
  define n where "n = \<lfloor>1 / a\<rfloor>"
  have "1 \<le> 1 / a" using a0 by simp
  then have n1: "1 \<le> n" by (simp add: n_def)
  define j where "j = nat (bitlen n - 1)"
  have b: "2 ^ j \<le> n \<and> n < 2 ^ nat (bitlen n)"
    unfolding j_def using bitlen_bounds [of n] n1 by simp
  have "0 < bitlen n"
  proof (rule ccontr)
    assume "\<not> 0 < bitlen n"
    then have "nat (bitlen n) = 0" by simp
    then show False using bitlen_bounds [of n] n1 by simp
  qed
  then have bl: "bitlen n = int j + 1" by (simp add: j_def)
  have up: "n + 1 \<le> 2 ^ (j + 1)" using b bl by (simp add: nat_add_distrib)
  have "(2::real) ^ j \<le> of_int n" proof -
    have "real_of_int (2 ^ j) \<le> real_of_int n" by (rule iffD2 [OF of_int_le_iff]) (simp add: b)
    then show ?thesis by simp
  qed
  also have "\<dots> \<le> 1 / a" by (simp add: n_def)
  finally have lo: "(2::real) ^ j \<le> 1 / a" .
  have "1 / a < of_int n + 1" by (simp add: n_def)
  also have "\<dots> \<le> (2::real) ^ (j + 1)" proof -
    have "real_of_int (n + 1) \<le> real_of_int (2 ^ (j + 1))" by (rule iffD2 [OF of_int_le_iff]) (rule up)
    then show ?thesis by simp
  qed
  finally have hi: "1 / a < (2::real) ^ (j + 1)" .
  have lo': "a * 2 ^ j \<le> 1" using lo a0 by (simp add: field_simps)
  have hi': "1 < a * 2 ^ (j + 1)" using hi a0 by (simp add: field_simps)
  have e: "expo x = (if a * 2 ^ j = 1 then - int j else - int j - 1)"
    using False by (simp add: expo_def Let_def a_def [symmetric] n_def [symmetric] bl)
  have p1: "(2::real) powi (- int j) = 1 / 2 ^ j" by (simp add: power_int_def field_simps)
  have p2: "(2::real) powi (- int j - 1) = 1 / 2 ^ (j + 1)"
    by (simp add: power_int_def field_simps nat_add_distrib)
  have p3: "(2::real) powi (- int j + 1) = 2 / 2 ^ j"
    using power_int_add [of "2::real" "- int j" 1] by (simp add: p1)
  show ?thesis
  proof (cases "a * 2 ^ j = 1")
    case True
    then have "a = 1 / 2 ^ j" by (simp add: field_simps)
    moreover have "expo x = - int j" using True e by simp
    moreover have "(1::real) / 2 ^ j < 2 / 2 ^ j" by (simp add: field_simps)
    ultimately show ?thesis unfolding a_def [symmetric] by (simp only: p1 p3) simp
  next
    case False
    then have "a * 2 ^ j < 1" using lo' by simp
    then have "a < 1 / 2 ^ j" by (simp add: field_simps)
    moreover have "1 / 2 ^ (j + 1) < a" using hi' by (simp add: field_simps)
    ultimately show ?thesis using False e by (simp add: a_def [symmetric] p1 p2)
  qed
qed


lemma pw_add: "(2::real) powi (a + b) = 2 powi a * 2 powi b"
  by (rule power_int_add) simp

lemma pw_diff: "(2::real) powi a / 2 powi b = 2 powi (a - b)"
  by (simp add: power_int_diff)

lemma pw_nonneg: "0 \<le> n \<Longrightarrow> (2::real) powi n = of_int (2 ^ nat n)"
  by (simp add: power_int_def)

lemma pw_pos: "0 < (2::real) powi n"
  by (simp add: zero_less_power_int)

lemma pw_mono: "a \<le> b \<Longrightarrow> (2::real) powi a \<le> 2 powi b"
  by (rule power_int_increasing) simp_all

lemma expo_unique:
  assumes "2 powi e \<le> \<bar>x\<bar>" and "\<bar>x\<bar> < 2 powi (e + 1)"
  shows "expo x = e"
proof -
  have "0 < \<bar>x\<bar>" using assms(1) pw_pos [of e] by linarith
  then have "x \<noteq> 0" by simp
  then have b: "2 powi (expo x) \<le> \<bar>x\<bar>" "\<bar>x\<bar> < 2 powi (expo x + 1)"
    using expo_bounds [of x] by simp_all
  have "\<not> expo x < e"
  proof
    assume "expo x < e"
    then have "(2::real) powi (expo x + 1) \<le> 2 powi e" by (intro pw_mono) simp
    then show False using b(2) assms(1) by linarith
  qed
  moreover have "\<not> e < expo x"
  proof
    assume "e < expo x"
    then have "(2::real) powi (e + 1) \<le> 2 powi (expo x)" by (intro pw_mono) simp
    then show False using b(1) assms(2) by linarith
  qed
  ultimately show ?thesis by simp
qed

lemma expo_mono:
  assumes "x \<noteq> 0" and "\<bar>x\<bar> \<le> \<bar>y\<bar>"
  shows "expo x \<le> expo y"
proof (rule ccontr)
  assume "\<not> expo x \<le> expo y"
  then have "(2::real) powi (expo y + 1) \<le> 2 powi (expo x)" by (intro pw_mono) simp
  moreover have "y \<noteq> 0" using assms by auto
  ultimately show False using expo_bounds [of x] expo_bounds [of y] assms by linarith
qed

lemma expo_neg: "expo (- x) = expo x"
  by (simp add: expo_def)

lemma quantum_neg: "quantum (- x) = quantum x"
  by (simp add: quantum_def expo_neg)

lemma fl_neg: "fl (- x) = - fl x"
  by (simp add: fl_def quantum_neg rint_neg)

lemma fl_zero: "fl 0 = 0"
  by (simp add: fl_def)

lemma fl_le_pow:
  assumes "0 < x" and "quantum x \<le> k" and "x \<le> 2 powi k"
  shows "fl x \<le> 2 powi k"
proof -
  define q where "q = quantum x"
  have "x / 2 powi q \<le> 2 powi k / 2 powi q"
    using assms(3) pw_pos [of q] by (simp add: divide_right_mono)
  also have "\<dots> = of_int (2 ^ nat (k - q))"
    using assms(2) by (simp add: pw_diff pw_nonneg q_def)
  finally have "rint (x / 2 powi q) \<le> rint (of_int (2 ^ nat (k - q)))" by (rule rint_mono)
  then have "rint (x / 2 powi q) \<le> 2 ^ nat (k - q)" by (simp only: rint_of_int)
  then have "real_of_int (rint (x / 2 powi q)) \<le> real_of_int (2 ^ nat (k - q))"
    by (rule iffD2 [OF of_int_le_iff])
  then have "real_of_int (rint (x / 2 powi q)) * 2 powi q \<le> real_of_int (2 ^ nat (k - q)) * 2 powi q"
    using pw_pos [of q] by (simp add: mult_right_mono)
  also have "real_of_int (2 ^ nat (k - q)) * 2 powi q = 2 powi (k - q) * 2 powi q"
    using assms(2) by (simp add: pw_nonneg q_def)
  also have "\<dots> = 2 powi k" using pw_add [of "k - q" q] by simp
  finally show ?thesis using assms(1) by (simp add: fl_def q_def)
qed

lemma fl_ge_pow:
  assumes "0 < x" and "quantum x \<le> k" and "2 powi k \<le> x"
  shows "2 powi k \<le> fl x"
proof -
  define q where "q = quantum x"
  have "2 powi k / 2 powi q \<le> x / 2 powi q"
    using assms(3) pw_pos [of q] by (simp add: divide_right_mono)
  moreover have "2 powi k / 2 powi q = real_of_int (2 ^ nat (k - q))"
    using assms(2) by (simp add: pw_diff pw_nonneg q_def)
  ultimately have "real_of_int (2 ^ nat (k - q)) \<le> x / 2 powi q" by simp
  then have "rint (of_int (2 ^ nat (k - q))) \<le> rint (x / 2 powi q)" by (rule rint_mono)
  then have "2 ^ nat (k - q) \<le> rint (x / 2 powi q)" by (simp only: rint_of_int)
  then have "real_of_int (2 ^ nat (k - q)) \<le> real_of_int (rint (x / 2 powi q))"
    by (rule iffD2 [OF of_int_le_iff])
  then have a: "real_of_int (2 ^ nat (k - q)) * 2 powi q \<le> real_of_int (rint (x / 2 powi q)) * 2 powi q"
    using pw_pos [of q] by (simp add: mult_right_mono)
  have "real_of_int (2 ^ nat (k - q)) * 2 powi q = 2 powi (k - q) * 2 powi q"
    using assms(2) by (simp add: pw_nonneg q_def)
  also have "2 powi (k - q) * 2 powi q = (2::real) powi k" using pw_add [of "k - q" q] by simp
  finally have b: "real_of_int (2 ^ nat (k - q)) * 2 powi q = 2 powi k" .
  have c: "fl x = real_of_int (rint (x / 2 powi q)) * 2 powi q" using assms(1) by (simp add: fl_def q_def)
  from a show ?thesis unfolding c by (simp only: b)
qed

lemma fl_mono_pos:
  assumes "0 < x" and "x \<le> y"
  shows "fl x \<le> fl y"
proof -
  have y: "0 < y" using assms by simp
  have "expo x \<le> expo y" using assms by (intro expo_mono) simp_all
  then have qq: "quantum x \<le> quantum y" by (simp add: quantum_def)
  show ?thesis
  proof (cases "quantum x = quantum y")
    case True
    define q where "q = quantum y"
    have "x / 2 powi q \<le> y / 2 powi q" using assms(2) pw_pos [of q] by (simp add: divide_right_mono)
    then have "rint (x / 2 powi q) \<le> rint (y / 2 powi q)" by (rule rint_mono)
    then have "real_of_int (rint (x / 2 powi q)) \<le> real_of_int (rint (y / 2 powi q))"
      by (rule iffD2 [OF of_int_le_iff])
    then have "real_of_int (rint (x / 2 powi q)) * 2 powi q \<le> real_of_int (rint (y / 2 powi q)) * 2 powi q"
      using pw_pos [of q] by (simp add: mult_right_mono)
    then show ?thesis using assms(1) y True by (simp add: fl_def q_def)
  next
    case False
    then have lt: "quantum x < quantum y" using qq by simp
    then have qy: "quantum y = expo y - 52" by (simp add: quantum_def max_def split: if_splits)
    have ex: "expo x + 1 \<le> expo y" using lt qy by (simp add: quantum_def)
    have bx: "x < 2 powi (expo x + 1)" using expo_bounds [of x] assms(1) by simp
    have "(2::real) powi (expo x + 1) \<le> 2 powi (expo y)" using ex by (rule pw_mono)
    then have "x \<le> 2 powi (expo y)" using bx by linarith
    moreover have "quantum x \<le> expo y" using lt qy by simp
    ultimately have 1: "fl x \<le> 2 powi (expo y)" using assms(1) by (intro fl_le_pow)
    have "2 powi (expo y) \<le> y" using expo_bounds [of y] y by simp
    moreover have "quantum y \<le> expo y" using qy by simp
    ultimately have 2: "2 powi (expo y) \<le> fl y" using y by (intro fl_ge_pow)
    show ?thesis using 1 2 by linarith
  qed
qed

lemma fl_nonneg:
  assumes "0 \<le> x"
  shows "0 \<le> fl x"
proof (cases "x = 0")
  case True then show ?thesis by (simp add: fl_zero)
next
  case False
  then have x: "0 < x" using assms by simp
  have "0 \<le> x / 2 powi quantum x" using x pw_pos [of "quantum x"] by simp
  then have "rint 0 \<le> rint (x / 2 powi quantum x)" by (rule rint_mono)
  moreover have "rint 0 = 0" using rint_of_int [of 0] by simp
  ultimately have "0 \<le> real_of_int (rint (x / 2 powi quantum x))" by simp
  then show ?thesis using x pw_pos [of "quantum x"] by (simp add: fl_def)
qed

lemma fl_mono:
  assumes "x \<le> y"
  shows "fl x \<le> fl y"
proof -
  consider "0 < x" | "x = 0" | "x < 0" "0 \<le> y" | "x < 0" "y < 0" by linarith
  then show ?thesis
  proof cases
    case 1 then show ?thesis using assms by (rule fl_mono_pos)
  next
    case 2 then show ?thesis using assms fl_nonneg [of y] by (simp add: fl_zero)
  next
    case 3
    have "0 \<le> fl (- x)" using 3 by (intro fl_nonneg) simp
    then show ?thesis using fl_nonneg [of y] 3 by (simp add: fl_neg)
  next
    case 4
    have "fl (- y) \<le> fl (- x)" using 4 assms by (intro fl_mono_pos) simp_all
    then show ?thesis by (simp add: fl_neg)
  qed
qed

lemma fl_int_pow:
  assumes "\<bar>k\<bar> \<le> 2 ^ 53" and "- 1074 \<le> q"
  shows "fl (of_int k * 2 powi q) = of_int k * 2 powi q"
proof (cases "k = 0")
  case True then show ?thesis by (simp add: fl_zero)
next
  case False
  define v :: real where "v = of_int k * 2 powi q"
  have v0: "v \<noteq> 0" using False pw_pos [of q] by (simp add: v_def)
  have av: "\<bar>v\<bar> = real_of_int \<bar>k\<bar> * 2 powi q" using pw_pos [of q] by (simp add: v_def abs_mult)
  have "real_of_int \<bar>k\<bar> \<le> real_of_int (2 ^ 53)" by (rule iffD2 [OF of_int_le_iff]) (rule assms(1))
  then have "real_of_int \<bar>k\<bar> * 2 powi q \<le> real_of_int (2 ^ 53) * 2 powi q"
    using pw_pos [of q] by (simp only: mult_right_mono less_imp_le)
  also have "real_of_int (2 ^ 53) * 2 powi q = 2 powi (53 + q)"
    using pw_add [of 53 q] by (simp add: pw_nonneg)
  finally have vle: "\<bar>v\<bar> \<le> 2 powi (53 + q)" by (simp only: av)
  define e where "e = expo v"
  have eb: "2 powi e \<le> \<bar>v\<bar>" "\<bar>v\<bar> < 2 powi (e + 1)" using expo_bounds [of v] v0 by (simp_all add: e_def)
  have ele: "e \<le> 53 + q"
  proof (rule ccontr)
    assume "\<not> e \<le> 53 + q"
    then have "(2::real) powi (53 + q + 1) \<le> 2 powi e" by (intro pw_mono) simp
    moreover have "(2::real) powi (53 + q) < 2 powi (53 + q + 1)"
      by (rule power_int_strict_increasing) simp_all
    ultimately show False using eb(1) vle by linarith
  qed
  show ?thesis
  proof (cases "e \<le> 52 + q")
    case True
    define Q where "Q = quantum v"
    have Qq: "Q \<le> q" using True assms(2) by (simp add: Q_def quantum_def e_def [symmetric])
    have "v / 2 powi Q = of_int k * (2 powi q / 2 powi Q)" by (simp add: v_def)
    also have "\<dots> = of_int k * of_int (2 ^ nat (q - Q))" using Qq by (simp add: pw_diff pw_nonneg)
    also have "\<dots> = of_int (k * 2 ^ nat (q - Q))" by simp
    finally have "rint (v / 2 powi Q) = k * 2 ^ nat (q - Q)" by (simp only: rint_of_int)
    then have "fl v = of_int (k * 2 ^ nat (q - Q)) * 2 powi Q" using v0 by (simp add: fl_def Q_def)
    also have "\<dots> = of_int k * (2 powi (q - Q) * 2 powi Q)" using Qq by (simp add: pw_nonneg)
    also have "\<dots> = of_int k * 2 powi q" using pw_add [of "q - Q" Q] by simp
    finally show ?thesis by (simp add: v_def)
  next
    case False
    then have e: "e = 53 + q" using ele by simp
    have "2 powi (53 + q) \<le> real_of_int \<bar>k\<bar> * 2 powi q" using eb(1) by (simp only: e av)
    then have "2 powi 53 * 2 powi q \<le> real_of_int \<bar>k\<bar> * 2 powi q" by (simp only: pw_add)
    then have "(2::real) powi 53 \<le> real_of_int \<bar>k\<bar>" using pw_pos [of q] by simp
    then have "real_of_int (2 ^ 53) \<le> real_of_int \<bar>k\<bar>" by (simp add: pw_nonneg)
    then have "2 ^ 53 \<le> \<bar>k\<bar>" by (rule iffD1 [OF of_int_le_iff])
    then have k: "\<bar>k\<bar> = 2 ^ 53" using assms(1) by simp
    define h where "h = k div 2"
    have "k = 2 ^ 53 \<or> k = - (2 ^ 53)" using k by linarith
    then have kh: "k = 2 * h" by (elim disjE) (simp_all add: h_def)
    define Q where "Q = quantum v"
    have Q: "Q = q + 1" using assms(2) by (simp add: Q_def quantum_def e_def [symmetric] e)
    have "2 powi (q + 1) = 2 powi q * (2::real)" using pw_add [of q 1] by simp
    then have "v / 2 powi Q = of_int h" using pw_pos [of q] by (simp add: v_def Q kh)
    then have "rint (v / 2 powi Q) = h" by (simp only: rint_of_int)
    then have "fl v = of_int h * 2 powi (q + 1)" using v0 by (simp add: fl_def Q_def [symmetric] Q)
    also have "\<dots> = of_int k * 2 powi q" using pw_add [of q 1] by (simp add: kh)
    finally show ?thesis by (simp add: v_def)
  qed
qed

lemma fl_pow2: "- 1074 \<le> k \<Longrightarrow> fl (2 powi k) = 2 powi k"
  using fl_int_pow [of 1 k] by simp

lemma rint_bound:
  assumes "x \<noteq> 0"
  shows "\<bar>rint (x / 2 powi quantum x)\<bar> \<le> 2 ^ 53"
proof -
  define q where "q = quantum x"
  have q: "expo x - 52 \<le> q" by (simp add: q_def quantum_def)
  have "\<bar>x\<bar> < 2 powi (expo x + 1)" using expo_bounds [of x] assms by simp
  also have "\<dots> \<le> 2 powi (53 + q)" using q by (intro pw_mono) simp
  finally have "\<bar>x\<bar> / 2 powi q \<le> 2 powi (53 + q) / 2 powi q"
    using pw_pos [of q] by (simp add: divide_right_mono)
  also have "\<dots> = real_of_int (2 ^ 53)" by (simp add: pw_diff pw_nonneg)
  finally have b: "\<bar>x / 2 powi q\<bar> \<le> real_of_int (2 ^ 53)" using pw_pos [of q] by (simp add: abs_divide)
  have "x / 2 powi q \<le> real_of_int (2 ^ 53)" using b by linarith
  then have "rint (x / 2 powi q) \<le> rint (real_of_int (2 ^ 53))" by (rule rint_mono)
  moreover have "- real_of_int (2 ^ 53) \<le> x / 2 powi q" using b by linarith
  then have "rint (- real_of_int (2 ^ 53)) \<le> rint (x / 2 powi q)" by (rule rint_mono)
  ultimately have "rint (x / 2 powi q) \<le> 2 ^ 53 \<and> - (2 ^ 53) \<le> rint (x / 2 powi q)"
    by (simp only: rint_neg rint_of_int)
  then show ?thesis unfolding q_def [symmetric] by linarith
qed

lemma fl_idem: "fl (fl x) = fl x"
proof (cases "x = 0")
  case True then show ?thesis by (simp add: fl_zero)
next
  case False
  have q: "- 1074 \<le> quantum x" by (simp add: quantum_def)
  have "fl x = of_int (rint (x / 2 powi quantum x)) * 2 powi quantum x" using False by (simp add: fl_def)
  then show ?thesis using fl_int_pow [OF rint_bound [OF False] q] by simp
qed


text \<open>The value of \<open>fl\<close> at a given number, from its binary exponent.\<close>

lemma fl_evalI:
  assumes "2 powi e \<le> \<bar>x\<bar>" and "\<bar>x\<bar> < 2 powi (e + 1)"
    and "of_int (rint (x / 2 powi (max (e - 52) (- 1074)))) * 2 powi (max (e - 52) (- 1074)) = y"
  shows "fl x = y"
proof -
  have "0 < \<bar>x\<bar>" using assms(1) pw_pos [of e] by linarith
  then have x: "x \<noteq> 0" by simp
  have "expo x = e" using assms(1,2) by (rule expo_unique)
  then show ?thesis using x assms(3) by (simp add: fl_def quantum_def)
qed

lemma fl_one: "fl 1 = 1"
  using fl_pow2 [of 0] by simp


text \<open>
  The error of a rounding: half a unit in the last place, at most \<open>2 powi (-53)\<close> of the
  number in the normal range and \<open>2 powi (-1075)\<close> below it.
\<close>

lemma fl_error_quantum:
  assumes "x \<noteq> 0"
  shows "\<bar>fl x - x\<bar> \<le> 1 / 2 * 2 powi (quantum x)"
proof -
  define q where "q = quantum x"
  define y where "y = x / 2 powi q"
  have xy: "x = y * 2 powi q" using pw_pos [of q] by (simp add: y_def)
  have f: "fl x = of_int (rint y) * 2 powi q" using assms by (simp add: fl_def q_def y_def)
  have "\<bar>of_int (rint y) - y\<bar> \<le> 1 / 2" using rint_char [of y] by linarith
  then have "\<bar>of_int (rint y) - y\<bar> * 2 powi q \<le> 1 / 2 * 2 powi q"
    using pw_pos [of q] by (intro mult_right_mono) simp_all
  moreover have "fl x - x = of_int (rint y) * 2 powi q - y * 2 powi q"
    unfolding f using xy by linarith
  then have "fl x - x = (of_int (rint y) - y) * 2 powi q" by (simp add: algebra_simps)
  ultimately show ?thesis
    using pw_pos [of q] by (simp add: abs_mult q_def)
qed

lemma half_quantum:
  "(1 / 2) * 2 powi (e - 52) = (2::real) powi (- 53) * 2 powi e"
proof -
  have "(2::real) powi (- 1) = 1 / 2" by simp
  then have "(1 / 2) * 2 powi (e - 52) = (2::real) powi (- 1) * 2 powi (e - 52)" by (simp only:)
  also have "\<dots> = 2 powi (- 1 + (e - 52))" by (rule pw_add [symmetric])
  also have "- 1 + (e - 52) = - 53 + e" by simp
  also have "(2::real) powi (- 53 + e) = 2 powi (- 53) * 2 powi e" by (rule pw_add)
  finally show ?thesis .
qed

lemma fl_error:
  "\<bar>fl x - x\<bar> \<le> 2 powi (- 53) * \<bar>x\<bar> + 2 powi (- 1075)"
proof (cases "x = 0")
  case True
  then show ?thesis using pw_pos [of "- 1075"] by (simp add: fl_zero)
next
  case False
  have e: "\<bar>fl x - x\<bar> \<le> 1 / 2 * 2 powi (quantum x)" using False by (rule fl_error_quantum)
  have b: "2 powi (expo x) \<le> \<bar>x\<bar>" using expo_bounds [of x] False by simp
  show ?thesis
  proof (cases "quantum x = expo x - 52")
    case True
    have "(1 / 2) * 2 powi (quantum x) = (2::real) powi (- 53) * 2 powi (expo x)"
      unfolding True by (rule half_quantum)
    also have "\<dots> \<le> 2 powi (- 53) * \<bar>x\<bar>"
      using b pw_pos [of "- 53"] by (intro mult_left_mono) simp_all
    finally show ?thesis using e pw_pos [of "- 1075"] by linarith
  next
    case False
    then have "quantum x = - 1074" by (simp add: quantum_def max_def split: if_splits)
    then have "(1 / 2) * 2 powi (quantum x) = (2::real) powi (- 1075)"
      by simp
    moreover have "0 \<le> 2 powi (- 53) * \<bar>x\<bar>" using pw_pos [of "- 53"] by simp
    ultimately show ?thesis using e by linarith
  qed
qed

lemma fl_error_normal:
  assumes "2 powi (- 1022) \<le> \<bar>x\<bar>"
  shows "\<bar>fl x - x\<bar> \<le> 2 powi (- 53) * \<bar>x\<bar>"
proof -
  have x0: "x \<noteq> 0" using assms pw_pos [of "- 1022"] by auto
  have e: "\<bar>fl x - x\<bar> \<le> 1 / 2 * 2 powi (quantum x)" using x0 by (rule fl_error_quantum)
  have b: "2 powi (expo x) \<le> \<bar>x\<bar>" "\<bar>x\<bar> < 2 powi (expo x + 1)" using expo_bounds [of x] x0 by simp_all
  have "- 1022 \<le> expo x"
  proof (rule ccontr)
    assume "\<not> - 1022 \<le> expo x"
    then have "(2::real) powi (expo x + 1) \<le> 2 powi (- 1022)" by (intro pw_mono) simp
    then show False using b(2) assms by linarith
  qed
  then have q: "quantum x = expo x - 52" by (simp add: quantum_def)
  have "(1 / 2) * 2 powi (quantum x) = (2::real) powi (- 53) * 2 powi (expo x)"
    unfolding q by (rule half_quantum)
  also have "\<dots> \<le> 2 powi (- 53) * \<bar>x\<bar>"
    using b(1) pw_pos [of "- 53"] by (intro mult_left_mono) simp_all
  finally show ?thesis using e by linarith
qed

section \<open>Properties of the cleaner\<close>

text \<open>
  Updating a dict under a key it does not hold yet adds the new count to the sum of its
  values.
\<close>

lemma sum_update_new:
  "k \<notin> fst ` set al \<Longrightarrow> sum_list (map snd (AList.update k v al)) = sum_list (map snd al) + (v::nat)"
  by (induction al) auto

lemma length_filter3:
  "length (filter (\<lambda>r. lt_zero (f r)) xs) + length (filter (\<lambda>r. isnull (f r)) xs)
     + length (filter (\<lambda>r. \<not> lt_zero (f r) \<and> \<not> isnull (f r)) xs) = length xs"
proof (induction xs)
  case Nil
  then show ?case by simp
next
  case (Cons x xs)
  then show ?case by (cases "f x") auto
qed

lemma fst_clean_column:
  "fst (clean_column col st) = filter (\<lambda>r. valid_cell (r col)) (fst st)"
  by (simp add: clean_column_def Let_def valid_cell_def)

lemma clean_column_inv:
  assumes "clean_inv N st"
  shows "clean_inv N (clean_column col st)"
proof -
  obtain rs rem where st: "st = (rs, rem)" by (cases st)
  let ?nk = "''Negative values in '' @ col"
  let ?mk = "''Missing values in '' @ col"
  let ?neg = "length (filter (\<lambda>r. lt_zero (r col)) rs)"
  let ?nul = "length (filter (\<lambda>r. isnull (r col)) rs)"
  let ?rem1 = "if ?neg > 0 then AList.update ?nk ?neg rem else rem"
  let ?rem2 = "if ?nul > 0 then AList.update ?mk ?nul ?rem1 else ?rem1"
  have res: "clean_column col st = (filter (\<lambda>r. \<not> lt_zero (r col) \<and> \<not> isnull (r col)) rs, ?rem2)"
    by (simp add: clean_column_def Let_def st)
  from assms have sum0: "sum_list (map snd rem) + length rs = N"
    and cl: "?nk \<in> fst ` set rem \<or> ?mk \<in> fst ` set rem \<Longrightarrow> \<forall>r\<in>set rs. valid_cell (r col)"
    by (auto simp: clean_inv_def st)
  have dirty: "?neg > 0 \<or> ?nul > 0 \<Longrightarrow> ?nk \<notin> fst ` set rem \<and> ?mk \<notin> fst ` set rem"
  proof (rule ccontr)
    assume d: "?neg > 0 \<or> ?nul > 0" and "\<not> (?nk \<notin> fst ` set rem \<and> ?mk \<notin> fst ` set rem)"
    then have "\<forall>r\<in>set rs. valid_cell (r col)" using cl by blast
    then have "filter (\<lambda>r. lt_zero (r col)) rs = []" "filter (\<lambda>r. isnull (r col)) rs = []"
      by (auto simp: valid_cell_def filter_empty_conv)
    with d show False by simp
  qed
  have s1: "sum_list (map snd ?rem1) = sum_list (map snd rem) + ?neg"
    using dirty by (simp add: sum_update_new)
  have k1: "fst ` set ?rem1 = (if ?neg > 0 then insert ?nk (fst ` set rem) else fst ` set rem)"
    by (simp add: dom_update)
  have s2: "sum_list (map snd ?rem2) = sum_list (map snd ?rem1) + ?nul"
  proof (cases "?nul > 0")
    case True
    then have "?mk \<notin> fst ` set ?rem1" using dirty k1 by auto
    then show ?thesis using True by (simp add: sum_update_new)
  next
    case False
    then show ?thesis by simp
  qed
  have k2: "fst ` set ?rem2 \<subseteq> {?nk, ?mk} \<union> fst ` set rem"
    by (auto simp: dom_update split: if_splits)
  have len: "?neg + ?nul + length (filter (\<lambda>r. \<not> lt_zero (r col) \<and> \<not> isnull (r col)) rs) = length rs"
    by (rule length_filter3)
  have part1: "sum_list (map snd ?rem2) + length (filter (\<lambda>r. \<not> lt_zero (r col) \<and> \<not> isnull (r col)) rs) = N"
    using s1 s2 len sum0 by linarith
  have part2: "\<forall>r\<in>set (filter (\<lambda>r. \<not> lt_zero (r col) \<and> \<not> isnull (r col)) rs). valid_cell (r c)"
    if "(''Negative values in '' @ c) \<in> fst ` set ?rem2 \<or> (''Missing values in '' @ c) \<in> fst ` set ?rem2" for c
  proof (cases "c = col")
    case True
    then show ?thesis by (auto simp: valid_cell_def)
  next
    case False
    with that k2 have "(''Negative values in '' @ c) \<in> fst ` set rem \<or> (''Missing values in '' @ c) \<in> fst ` set rem"
      by auto
    with assms have "\<forall>r\<in>set rs. valid_cell (r c)" by (auto simp: clean_inv_def st)
    then show ?thesis by auto
  qed
  show ?thesis unfolding clean_inv_def res fst_conv snd_conv using part1 part2 by blast
qed

lemma clean_loop_inv:
  "clean_inv N st \<Longrightarrow> clean_inv N (clean_loop df cols st)"
  unfolding clean_loop_def
  by (induction cols arbitrary: st) (simp_all add: clean_column_inv)

lemma fst_clean_loop:
  "fst (clean_loop df cols st) =
     filter (\<lambda>r. \<forall>c\<in>set cols. is_numeric_dtype df c \<longrightarrow> valid_cell (r c)) (fst st)"
  unfolding clean_loop_def
proof (induction cols arbitrary: st)
  case Nil
  then show ?case by simp
next
  case (Cons c cols)
  show ?case
    by (simp add: Cons.IH fst_clean_column)
qed

lemma rows_clean_data:
  "rows (fst (clean_data df)) =
     filter (\<lambda>r. \<forall>c\<in>set (numeric_columns_to_clean df). valid_cell (r c)) (rows df)"
  by (simp add: clean_data_def Let_def fst_clean_loop numeric_columns_to_clean_def)
     (rule filter_cong, auto)

lemma clean_data_sum:
  "sum_list (map snd (removed_rows (snd (clean_data df)))) + final_rows (snd (clean_data df))
     = initial_rows (snd (clean_data df))"
proof -
  have "clean_inv (length (rows df)) (rows df, [])" by (simp add: clean_inv_def)
  then have "clean_inv (length (rows df)) (clean_loop df (columns_to_clean df) (rows df, []))"
    by (rule clean_loop_inv)
  then show ?thesis by (simp add: clean_data_def Let_def clean_inv_def)
qed

lemma length_filter_disjoint:
  "\<forall>x\<in>set xs. \<not> (P x \<and> Q x) \<Longrightarrow>
   length (filter P xs) + length (filter Q xs) + length (filter (\<lambda>x. \<not> P x \<and> \<not> Q x) xs) = length xs"
  by (induction xs) auto

text \<open>
  Claim C4. For every input table the report of \<^verbatim>\<open>clean_data\<close> satisfies
  \<open>final_rows = initial_rows - (sum of the reason counts)\<close> and
  \<open>total_removed = initial_rows - final_rows\<close>. In a table of 100 rows where 10 rows have
  a negative value in one cleaned numeric column \<open>a\<close>, 5 other rows have a missing value in
  another cleaned numeric column \<open>b\<close>, and no other cell is invalid, the report has
  \<open>final_rows = 85\<close> and \<open>total_removed = 15\<close>. \<^verbatim>\<open>clean_data\<close> has no raise and no
  operation that can fail on a table, so the model is a total function; when every row is
  invalid it returns the empty table with \<open>final_rows = 0\<close>.
\<close>

theorem clean_data_report:
  "(let stats = snd (clean_data df) in
      int (final_rows stats)
        = int (initial_rows stats) - int (sum_list (map snd (removed_rows stats)))
    \<and> total_removed stats = int (initial_rows stats) - int (final_rows stats)
    \<and> final_rows stats = length (rows (fst (clean_data df)))
    \<and> (length (rows df) = 100
         \<and> a \<in> set (numeric_columns_to_clean df) \<and> b \<in> set (numeric_columns_to_clean df)
         \<and> length (filter (\<lambda>r. lt_zero (r a)) (rows df)) = 10
         \<and> length (filter (\<lambda>r. isnull (r b)) (rows df)) = 5
         \<and> (\<forall>r\<in>set (rows df). \<not> (lt_zero (r a) \<and> isnull (r b)))
         \<and> (\<forall>r\<in>set (rows df). \<forall>c\<in>set (numeric_columns_to_clean df).
               \<not> valid_cell (r c) \<longrightarrow> (c = a \<and> lt_zero (r a)) \<or> (c = b \<and> isnull (r b)))
        \<longrightarrow> final_rows stats = 85 \<and> total_removed stats = 15)
    \<and> ((\<forall>r\<in>set (rows df). \<exists>c\<in>set (numeric_columns_to_clean df). \<not> valid_cell (r c))
        \<longrightarrow> rows (fst (clean_data df)) = [] \<and> final_rows stats = 0
            \<and> total_removed stats = int (initial_rows stats)))"
proof -
  let ?stats = "snd (clean_data df)"
  let ?C = "numeric_columns_to_clean df"
  have A: "int (final_rows ?stats)
        = int (initial_rows ?stats) - int (sum_list (map snd (removed_rows ?stats)))"
    using clean_data_sum [of df] by linarith
  have B: "total_removed ?stats = int (initial_rows ?stats) - int (final_rows ?stats)"
    by (simp add: clean_data_def Let_def)
  have F: "final_rows ?stats = length (rows (fst (clean_data df)))"
    by (simp add: clean_data_def Let_def)
  have I: "initial_rows ?stats = length (rows df)"
    by (simp add: clean_data_def Let_def)
  have S: "final_rows ?stats = 85 \<and> total_removed ?stats = 15"
    if len: "length (rows df) = 100"
      and a: "a \<in> set ?C" and b: "b \<in> set ?C"
      and na: "length (filter (\<lambda>r. lt_zero (r a)) (rows df)) = 10"
      and nb: "length (filter (\<lambda>r. isnull (r b)) (rows df)) = 5"
      and dis: "\<forall>r\<in>set (rows df). \<not> (lt_zero (r a) \<and> isnull (r b))"
      and oth: "\<forall>r\<in>set (rows df). \<forall>c\<in>set ?C.
               \<not> valid_cell (r c) \<longrightarrow> (c = a \<and> lt_zero (r a)) \<or> (c = b \<and> isnull (r b))"
  proof -
    have eq: "filter (\<lambda>r. \<forall>c\<in>set ?C. valid_cell (r c)) (rows df)
            = filter (\<lambda>r. \<not> lt_zero (r a) \<and> \<not> isnull (r b)) (rows df)"
    proof (rule filter_cong [OF refl])
      fix r assume r: "r \<in> set (rows df)"
      show "(\<forall>c\<in>set ?C. valid_cell (r c)) = (\<not> lt_zero (r a) \<and> \<not> isnull (r b))"
      proof
        assume "\<forall>c\<in>set ?C. valid_cell (r c)"
        with a b show "\<not> lt_zero (r a) \<and> \<not> isnull (r b)" by (auto simp: valid_cell_def)
      next
        assume "\<not> lt_zero (r a) \<and> \<not> isnull (r b)"
        with oth r show "\<forall>c\<in>set ?C. valid_cell (r c)" by blast
      qed
    qed
    have "length (filter (\<lambda>r. lt_zero (r a)) (rows df)) + length (filter (\<lambda>r. isnull (r b)) (rows df))
        + length (filter (\<lambda>r. \<not> lt_zero (r a) \<and> \<not> isnull (r b)) (rows df)) = length (rows df)"
      using dis by (intro length_filter_disjoint) blast
    with na nb len have "length (filter (\<lambda>r. \<not> lt_zero (r a) \<and> \<not> isnull (r b)) (rows df)) = 85"
      by linarith
    with eq have "final_rows ?stats = 85" by (simp add: F rows_clean_data)
    with B I len show ?thesis by simp
  qed
  have Z: "rows (fst (clean_data df)) = [] \<and> final_rows ?stats = 0
            \<and> total_removed ?stats = int (initial_rows ?stats)"
    if "\<forall>r\<in>set (rows df). \<exists>c\<in>set ?C. \<not> valid_cell (r c)"
  proof -
    from that have "rows (fst (clean_data df)) = []"
      by (auto simp: rows_clean_data filter_empty_conv)
    with B F show ?thesis by simp
  qed
  show ?thesis unfolding Let_def using A B F S Z by blast
qed

lemma scenario_columns:
  "numeric_columns_to_clean scenario_table = [''PE'', ''ROE'']"
  by (simp add: numeric_columns_to_clean_def columns_to_clean_def column_names_def
      scenario_table_def preserve_columns_def is_numeric_dtype_def)

text \<open>The scenario table: 10 rows with a negative \<open>PE\<close>, 5 with a missing \<open>ROE\<close>, 85 valid rows.\<close>

theorem clean_data_report_witness:
  "final_rows (snd (clean_data scenario_table)) = 85
   \<and> total_removed (snd (clean_data scenario_table)) = 15"
  using clean_data_report [of scenario_table "''PE''" "''ROE''"]
  by (simp add: Let_def scenario_columns valid_cell_def)
     (simp add: scenario_table_def scenario_row_def)

section \<open>Properties of the normalizer\<close>

lemma nums_Num: "nums (map Num vs) = vs"
  by (induction vs) auto

lemma not_Str_Num: "\<not> list_ex is_Str (map Num vs)"
  by (induction vs) auto

lemma fit_transform_Num:
  assumes "vs \<noteq> []"
  shows "fit_transform (map Num vs) = Inr (scaled_column vs)"
  using assms by (simp add: fit_transform_def nums_Num not_Str_Num scaled_column_def del: map_map)

lemma get_column_set_column:
  "length vs = length (rows df) \<Longrightarrow>
   get_column (set_column df c dt vs) c' = (if c' = c then vs else get_column df c')"
  by (auto simp: get_column_def set_column_def split_beta intro!: nth_equalityI)

lemma column_names_set_column:
  "c \<in> set (column_names df) \<Longrightarrow> column_names (set_column df c dt vs) = column_names df"
  by (simp add: column_names_def set_column_def update_keys)

lemma length_rows_set_column:
  "length vs = length (rows df) \<Longrightarrow> length (rows (set_column df c dt vs)) = length (rows df)"
  by (simp add: set_column_def)

lemma length_get_column: "length (get_column df c) = length (rows df)"
  by (simp add: get_column_def)

lemma length_scaled_column: "length (scaled_column vs) = length vs"
  by (simp add: scaled_column_def)

lemma normalize_column_Num:
  assumes c: "c \<in> set (column_names df)" and col: "get_column df c = map Num vs" and ne: "vs \<noteq> []"
  shows "\<exists>df'. normalize_column invs c df = Inr df'
           \<and> column_names df' = column_names df
           \<and> length (rows df') = length (rows df)
           \<and> get_column df' c = scaled_column (if c \<in> set invs then map uminus vs else vs)
           \<and> (\<forall>c'. c' \<noteq> c \<longrightarrow> get_column df' c' = get_column df c')"
proof -
  have len: "length vs = length (rows df)"
    using col length_get_column [of df c] by simp
  show ?thesis
  proof (cases "c \<in> set invs")
    case False
    then have "normalize_column invs c df = Inr (set_column df c Numeric (scaled_column vs))"
      using c ne by (simp add: normalize_column_def col fit_transform_Num)
    then show ?thesis using False c len
      by (simp add: get_column_set_column column_names_set_column length_rows_set_column
          length_scaled_column)
  next
    case True
    let ?ws = "map uminus vs"
    let ?df1 = "set_column df c (dtype_of df c) (map neg_cell (get_column df c))"
    have neg: "map neg_cell (get_column df c) = map Num ?ws"
      by (simp add: col)
    have g1: "get_column ?df1 c = map Num ?ws"
      using len by (simp add: get_column_set_column neg col)
    have ft: "fit_transform (get_column ?df1 c) = Inr (scaled_column ?ws)"
      using ne by (simp only: g1) (rule fit_transform_Num, simp)
    have "normalize_column invs c df = Inr (set_column ?df1 c Numeric (scaled_column ?ws))"
      using c True by (simp add: normalize_column_def ft)
    moreover have "length (rows ?df1) = length (rows df)"
      using len by (simp add: length_rows_set_column col)
    moreover have "column_names ?df1 = column_names df"
      using c by (rule column_names_set_column)
    ultimately show ?thesis using True c len
      by (simp add: get_column_set_column column_names_set_column length_rows_set_column
          length_scaled_column col)
  qed
qed

lemma normalize_loop_Num:
  assumes "distinct cols" "set cols \<subseteq> set (column_names df)" "rows df \<noteq> []"
    "\<forall>c\<in>set cols. \<exists>vs. get_column df c = map Num vs"
  shows "\<exists>df'. normalize_loop invs cols df = Inr df'
           \<and> column_names df' = column_names df
           \<and> length (rows df') = length (rows df)
           \<and> (\<forall>c. c \<notin> set cols \<longrightarrow> get_column df' c = get_column df c)
           \<and> (\<forall>c\<in>set cols. \<forall>vs. get_column df c = map Num vs \<longrightarrow>
                 get_column df' c = scaled_column (if c \<in> set invs then map uminus vs else vs))"
  using assms
proof (induction cols arbitrary: df)
  case Nil
  then show ?case by simp
next
  case (Cons c cols)
  from Cons.prems obtain vs where vs: "get_column df c = map Num vs" by auto
  have "length vs = length (rows df)" using vs length_get_column [of df c] by simp
  with Cons.prems(3) have ne: "vs \<noteq> []" by auto
  from Cons.prems(2) have cin: "c \<in> set (column_names df)" by simp
  from normalize_column_Num [OF cin vs ne, of invs]
  obtain df1 where df1: "normalize_column invs c df = Inr df1"
    and n1: "column_names df1 = column_names df"
    and l1: "length (rows df1) = length (rows df)"
    and c1: "get_column df1 c = scaled_column (if c \<in> set invs then map uminus vs else vs)"
    and o1: "\<forall>c'. c' \<noteq> c \<longrightarrow> get_column df1 c' = get_column df c'"
    by blast
  have notin: "c \<notin> set cols" and dist: "distinct cols" using Cons.prems(1) by simp_all
  have p2: "set cols \<subseteq> set (column_names df1)" using Cons.prems(2) n1 by simp
  have p3: "rows df1 \<noteq> []" using l1 Cons.prems(3) by auto
  have p4: "\<forall>c'\<in>set cols. \<exists>vs. get_column df1 c' = map Num vs"
    using Cons.prems(4) o1 notin by auto
  from Cons.IH [OF dist p2 p3 p4]
  obtain df' where r: "normalize_loop invs cols df1 = Inr df'"
    and n2: "column_names df' = column_names df1"
    and l2: "length (rows df') = length (rows df1)"
    and o2: "\<forall>c'. c' \<notin> set cols \<longrightarrow> get_column df' c' = get_column df1 c'"
    and c2: "\<forall>c'\<in>set cols. \<forall>vs. get_column df1 c' = map Num vs \<longrightarrow>
                 get_column df' c' = scaled_column (if c' \<in> set invs then map uminus vs else vs)"
    by blast
  have res: "normalize_loop invs (c # cols) df = Inr df'" by (simp add: df1 r)
  have A: "\<forall>c'. c' \<notin> set (c # cols) \<longrightarrow> get_column df' c' = get_column df c'"
    using o1 o2 by simp
  have B: "get_column df' c' = scaled_column (if c' \<in> set invs then map uminus ws else ws)"
    if "c' \<in> set (c # cols)" "get_column df c' = map Num ws" for c' ws
  proof (cases "c' = c")
    case True
    have "inj Num" by (simp add: inj_def)
    with that vs True have "ws = vs" by (simp add: inj_map_eq_map)
    with True c1 o2 notin show ?thesis by simp
  next
    case False
    with that have "c' \<in> set cols" by simp
    moreover have "get_column df1 c' = map Num ws" using o1 False that by simp
    ultimately show ?thesis using c2 by blast
  qed
  show ?case using res n1 n2 l1 l2 A B by (intro exI [of _ df']) simp
qed

lemma nums_map_Num: "nums (map (\<lambda>v. Num (f v)) vs) = map f vs"
  by (induction vs) simp_all

lemma example_get_column:
  "get_column (example_column_table col vs) col = map Num vs"
  by (simp add: example_column_table_def get_column_def)

lemma example_hyps:
  "col \<noteq> ''Stock'' \<Longrightarrow> vs \<noteq> [] \<Longrightarrow>
   distinct [col] \<and> set [col] \<subseteq> set (column_names (example_column_table col vs))
   \<and> rows (example_column_table col vs) \<noteq> []
   \<and> (\<forall>c\<in>set [col]. \<exists>ws. get_column (example_column_table col vs) c = map Num ws)"
  using example_get_column [of col vs]
  by (auto simp: example_column_table_def column_names_def)

lemma normalize_data_general:
  assumes "distinct cols" "set cols \<subseteq> set (column_names df)" "rows df \<noteq> []"
    "\<forall>c\<in>set cols. \<exists>vs. get_column df c = map Num vs"
    "c \<in> set cols" "get_column df c = map Num vs"
  shows "\<exists>df'. normalize_data df cols invs = Inr df'
           \<and> get_column df' c = scaled_column (if c \<in> set invs then map uminus vs else vs)"
  using normalize_loop_Num [OF assms(1-4), of invs] assms(5,6)
  unfolding normalize_data_def by blast

lemma handle_zeros_in_scale_pos: "0 < handle_zeros_in_scale r"
proof -
  have "0 < (2::real) powi (- 52)" by (rule pw_pos)
  then show ?thesis unfolding handle_zeros_in_scale_def by (cases "r < 10 * 2 powi (- 52)") simp_all
qed

lemma MinMaxScaler_fit_Some:
  assumes "d = handle_zeros_in_scale (fl (Max (set X) - Min (set X)))"
    and "scale = fl (1 / d)" and "min_shift = fl (0 - fl (Min (set X) * scale))"
  shows "MinMaxScaler_fit X = Some (scale, min_shift)"
proof -
  have "d \<noteq> 0" using handle_zeros_in_scale_pos [of "fl (Max (set X) - Min (set X))"] assms(1) by simp
  then show ?thesis
    unfolding MinMaxScaler_fit_def Let_def np_divide_def assms(1) [symmetric]
    by (simp add: assms(2,3))
qed

lemma MinMaxScaler_fit_not_None: "MinMaxScaler_fit X \<noteq> None"
  using MinMaxScaler_fit_Some [OF refl refl refl, of X] by simp

lemma scaled_column_eq:
  assumes "d = handle_zeros_in_scale (fl (Max (set ws) - Min (set ws)))"
    and "scale = fl (1 / d)" and "min_shift = fl (0 - fl (Min (set ws) * scale))"
  shows "scaled_column ws = map (\<lambda>v. Num (fl (fl (v * scale) + min_shift))) ws"
  unfolding scaled_column_def MinMaxScaler_fit_Some [OF assms] by simp

lemma scale_nonneg:
  assumes "scale = fl (1 / handle_zeros_in_scale r)"
  shows "0 \<le> scale"
proof -
  have "0 \<le> 1 / handle_zeros_in_scale r" using handle_zeros_in_scale_pos [of r] by simp
  then show ?thesis unfolding assms by (rule fl_nonneg)
qed

lemma min_shift_eq: "fl (0 - fl z) = - fl z"
  by (simp add: fl_neg fl_idem)

lemma fl_neg_fl: "fl (- fl z) = - fl z"
  by (simp add: fl_neg fl_idem)

lemma transform_lowest: "fl (fl z + fl (0 - fl z)) = 0"
  by (simp add: fl_neg_fl fl_zero)

lemma transform_mono:
  assumes "0 \<le> scale" and "v \<le> v'"
  shows "fl (fl (v * scale) + m) \<le> fl (fl (v' * scale) + m)"
proof -
  have "v * scale \<le> v' * scale" using assms by (rule mult_right_mono [rotated])
  then have "fl (v * scale) \<le> fl (v' * scale)" by (rule fl_mono)
  then have "fl (v * scale) + m \<le> fl (v' * scale) + m" by simp
  then show ?thesis by (rule fl_mono)
qed

lemma Min_Max_transform:
  fixes ws :: "real list"
  assumes "ws \<noteq> []" and "0 \<le> scale"
  shows "Min (set (map (\<lambda>v. fl (fl (v * scale) + m)) ws)) = fl (fl (Min (set ws) * scale) + m)"
    and "Max (set (map (\<lambda>v. fl (fl (v * scale) + m)) ws)) = fl (fl (Max (set ws) * scale) + m)"
proof -
  let ?T = "\<lambda>v. fl (fl (v * scale) + m)"
  have mono: "mono ?T" by (rule monoI) (rule transform_mono [OF assms(2)])
  have fin: "finite (set ws)" "set ws \<noteq> {}" using assms(1) by simp_all
  show "Min (set (map ?T ws)) = ?T (Min (set ws))"
    using mono_Min_commute [OF mono fin] by simp
  show "Max (set (map ?T ws)) = ?T (Max (set ws))"
    using mono_Max_commute [OF mono fin] by simp
qed

lemma scaled_column_replicate:
  "scaled_column (replicate n k) = replicate n (Num 0)"
proof (cases n)
  case 0
  then show ?thesis by (simp add: scaled_column_def)
next
  case (Suc m)
  then have s: "set (replicate n k) = {k}" by auto
  have "0 < (2::real) powi (- 52)" by (rule pw_pos)
  then have d: "handle_zeros_in_scale (fl (Max (set (replicate n k)) - Min (set (replicate n k)))) = 1"
    by (simp add: s fl_zero handle_zeros_in_scale_def)
  have "scaled_column (replicate n k)
      = map (\<lambda>v. Num (fl (fl (v * fl (1 / 1)) + fl (0 - fl (k * fl (1 / 1)))))) (replicate n k)"
    using scaled_column_eq [OF d [symmetric] refl refl] by (simp add: s)
  also have "\<dots> = replicate n (Num 0)"
    by (simp add: fl_one fl_neg_fl fl_zero)
  finally show ?thesis .
qed

text \<open>
  The scaled value against the exact quotient \<open>(v - lo) / (hi - lo)\<close>: five roundings, of
  the range, of the scale, of the two products and of the sum.
\<close>

lemma scaled_error_arith:
  fixes u eta R r s E v lo zv zl y :: real
  assumes u: "0 < u" "u \<le> 1 / 8" and eta: "0 \<le> eta" "eta \<le> u"
    and R: "0 < R" and rR: "\<bar>r - R\<bar> \<le> u * R" and sr: "\<bar>s - 1 / r\<bar> \<le> u / r"
    and lov: "lo \<le> v" and E1: "(v - lo) / R \<le> 1"
    and zv: "\<bar>zv - v * s\<bar> \<le> u * (\<bar>v\<bar> * s) + eta"
    and zl: "\<bar>zl - lo * s\<bar> \<le> u * (\<bar>lo\<bar> * s) + eta"
    and y: "\<bar>y - (zv - zl)\<bar> \<le> u * \<bar>zv - zl\<bar> + eta"
    and s0: "0 \<le> s"
  shows "\<bar>y - (v - lo) / R\<bar> \<le> 8 * u * (1 + s * (\<bar>v\<bar> + \<bar>lo\<bar>))"
proof -
  define E where "E = (v - lo) / R"
  define K where "K = s * (\<bar>v\<bar> + \<bar>lo\<bar>)"
  have K0: "0 \<le> K" unfolding K_def using s0 by simp
  have E0: "0 \<le> E" unfolding E_def using lov R by simp
  have uR: "u * R \<le> R / 8" using u(2) R by (simp add: field_simps)
  have r1: "7 / 8 * R \<le> r" using rR uR by linarith
  have r0: "0 < r" using r1 R by linarith
  have "1 / r - 1 / R = (R - r) / (r * R)" using r0 R by (simp add: field_simps)
  then have "\<bar>1 / r - 1 / R\<bar> = \<bar>R - r\<bar> / (r * R)" using r0 R by (simp add: abs_divide abs_mult)
  also have "\<dots> \<le> (u * R) / (r * R)"
    using rR r0 R by (intro divide_right_mono) simp_all
  also have "\<dots> = u / r" using R by simp
  finally have d1: "\<bar>1 / r - 1 / R\<bar> \<le> u / r" .
  have "u / r \<le> u / (7 / 8 * R)"
    using r1 R u(1) by (intro divide_left_mono) simp_all
  then have ur: "u / r \<le> 8 / 7 * u / R" by simp
  have sR: "\<bar>s - 1 / R\<bar> \<le> 16 / 7 * u / R" using sr d1 ur by linarith
  have "(v - lo) * s - E = (v - lo) * (s - 1 / R)" by (simp add: E_def algebra_simps)
  then have "\<bar>(v - lo) * s - E\<bar> = (v - lo) * \<bar>s - 1 / R\<bar>" using lov by (simp add: abs_mult)
  also have "\<dots> \<le> (v - lo) * (16 / 7 * u / R)" using sR lov by (intro mult_left_mono) simp_all
  also have "\<dots> = 16 / 7 * u * E" by (simp add: E_def)
  also have "\<dots> \<le> 16 / 7 * u * 1" using E1 u(1) unfolding E_def [symmetric] by (intro mult_left_mono) simp_all
  finally have AE: "\<bar>(v - lo) * s - E\<bar> \<le> 3 * u" using u(1) by linarith
  have "(zv - zl) - (v - lo) * s = (zv - v * s) - (zl - lo * s)" by (simp add: algebra_simps)
  then have "\<bar>(zv - zl) - (v - lo) * s\<bar> \<le> \<bar>zv - v * s\<bar> + \<bar>zl - lo * s\<bar>" by linarith
  also have "\<dots> \<le> u * (\<bar>v\<bar> * s) + eta + (u * (\<bar>lo\<bar> * s) + eta)" using zv zl by linarith
  also have "\<dots> = u * K + 2 * eta" by (simp add: K_def algebra_simps)
  finally have BA: "\<bar>(zv - zl) - (v - lo) * s\<bar> \<le> u * K + 2 * eta" .
  have B: "\<bar>zv - zl\<bar> \<le> 1 + 3 * u + u * K + 2 * eta"
    using AE BA E0 E1 unfolding E_def [symmetric] by linarith
  have "u * \<bar>zv - zl\<bar> \<le> u * (1 + 3 * u + u * K + 2 * eta)"
    using B u(1) by (intro mult_left_mono) simp_all
  also have "\<dots> = u + 3 * (u * u) + (u * u) * K + 2 * (u * eta)" by (simp add: algebra_simps)
  finally have uB: "u * \<bar>zv - zl\<bar> \<le> u + 3 * (u * u) + (u * u) * K + 2 * (u * eta)" .
  have "u * u \<le> u * (1 / 8)" using u by (intro mult_left_mono) simp_all
  then have uu: "u * u \<le> u / 8" by simp
  have "(u * u) * K \<le> (u / 8) * K" using uu K0 by (rule mult_right_mono)
  then have uuK: "(u * u) * K \<le> u * K / 8" by simp
  have "u * eta \<le> u * u" using eta(2) u(1) by (intro mult_left_mono) simp_all
  then have ue: "u * eta \<le> u / 8" using uu by linarith
  have uK0: "0 \<le> u * K" using u(1) K0 by simp
  have "\<bar>y - E\<bar> \<le> \<bar>y - (zv - zl)\<bar> + \<bar>(zv - zl) - (v - lo) * s\<bar> + \<bar>(v - lo) * s - E\<bar>" by linarith
  also have "\<dots> \<le> 8 * u + 8 * (u * K)" using y uB BA AE uu uuK ue eta uK0 by linarith
  also have "\<dots> = 8 * u * (1 + K)" by (simp add: algebra_simps)
  finally show ?thesis unfolding E_def K_def .
qed


lemma scaled_error:
  assumes lov: "lo \<le> v" and vhi: "v \<le> hi"
    and big: "10 * 2 powi (- 52) \<le> fl (hi - lo)"
    and bound: "\<bar>lo\<bar> \<le> 2 ^ 500" "\<bar>hi\<bar> \<le> 2 ^ 500"
    and sc: "scale = fl (1 / fl (hi - lo))"
  shows "\<bar>fl (fl (v * scale) + fl (0 - fl (lo * scale))) - (v - lo) / (hi - lo)\<bar>
         \<le> 2 powi (- 50) * (1 + scale * (\<bar>v\<bar> + \<bar>lo\<bar>))"
proof -
  define u :: real where "u = 2 powi (- 53)"
  define eta :: real where "eta = 2 powi (- 1075)"
  define R where "R = hi - lo"
  define r where "r = fl R"
  have u: "0 < u" "u \<le> 1 / 8" unfolding u_def by simp_all
  have eta: "0 \<le> eta" "eta \<le> u" unfolding u_def eta_def
    using pw_pos [of "- 1075"] pw_mono [of "- 1075" "- 53"] by simp_all
  have ten: "(2::real) powi (- 1022) < 10 * 2 powi (- 52)"
  proof -
    have "(2::real) powi (- 1022) \<le> 2 powi (- 52)" by (rule pw_mono) simp
    moreover have "0 < (2::real) powi (- 52)" by (rule pw_pos)
    ultimately show ?thesis by linarith
  qed
  have rbig: "10 * 2 powi (- 52) \<le> r" using big by (simp add: r_def R_def)
  have r0: "0 < r" using rbig pw_pos [of "- 52"] by linarith
  have Rn: "2 powi (- 1022) \<le> R"
  proof (rule ccontr)
    assume "\<not> 2 powi (- 1022) \<le> R"
    then have "R \<le> 2 powi (- 1022)" by simp
    then have "fl R \<le> fl (2 powi (- 1022))" by (rule fl_mono)
    then have "r \<le> 2 powi (- 1022)" unfolding r_def by (simp only: fl_pow2)
    then show False using rbig ten by linarith
  qed
  have R0: "0 < R" using Rn pw_pos [of "- 1022"] by linarith
  have "\<bar>fl R - R\<bar> \<le> 2 powi (- 53) * \<bar>R\<bar>" using Rn R0 by (intro fl_error_normal) simp
  then have rR: "\<bar>r - R\<bar> \<le> u * R" using R0 by (simp add: r_def u_def)
  have "R \<le> 2 ^ 500 + 2 ^ 500" using bound unfolding R_def by linarith
  also have "\<dots> = (2::real) powi 501" by simp
  finally have "fl R \<le> fl (2 powi 501)" by (rule fl_mono)
  then have rle: "r \<le> 2 powi 501" unfolding r_def by (simp only: fl_pow2)
  have "1 / (2::real) powi 501 \<le> 1 / r" using rle r0 by (intro divide_left_mono) simp_all
  moreover have "1 / (2::real) powi 501 = 2 powi (- 501)"
  proof -
    have "(2::real) powi (- 501) = inverse (2 powi 501)" by (rule power_int_minus)
    then show ?thesis by (simp only: inverse_eq_divide)
  qed
  moreover have "(2::real) powi (- 1022) \<le> 2 powi (- 501)" by (rule pw_mono) simp
  moreover have "\<bar>1 / r\<bar> = 1 / r" using r0 by simp
  ultimately have "2 powi (- 1022) \<le> \<bar>1 / r\<bar>" by linarith
  then have "\<bar>fl (1 / r) - 1 / r\<bar> \<le> 2 powi (- 53) * \<bar>1 / r\<bar>" by (rule fl_error_normal)
  then have sr: "\<bar>scale - 1 / r\<bar> \<le> u / r" using r0 by (simp add: sc r_def R_def u_def)
  have "0 \<le> 1 / r" using r0 by simp
  then have s0: "0 \<le> scale" unfolding sc r_def R_def by (rule fl_nonneg)
  define zv where "zv = fl (v * scale)"
  define zl where "zl = fl (lo * scale)"
  have zv: "\<bar>zv - v * scale\<bar> \<le> u * (\<bar>v\<bar> * scale) + eta"
    unfolding zv_def u_def eta_def using fl_error [of "v * scale"] s0 by (simp add: abs_mult)
  have zl: "\<bar>zl - lo * scale\<bar> \<le> u * (\<bar>lo\<bar> * scale) + eta"
    unfolding zl_def u_def eta_def using fl_error [of "lo * scale"] s0 by (simp add: abs_mult)
  define y where "y = fl (zv - zl)"
  have y: "\<bar>y - (zv - zl)\<bar> \<le> u * \<bar>zv - zl\<bar> + eta"
    unfolding y_def u_def eta_def by (rule fl_error)
  have E1: "(v - lo) / R \<le> 1" using vhi R0 by (simp add: R_def)
  have "\<bar>y - (v - lo) / R\<bar> \<le> 8 * u * (1 + scale * (\<bar>v\<bar> + \<bar>lo\<bar>))"
    using u eta R0 rR sr lov E1 zv zl y s0 by (rule scaled_error_arith)
  moreover have "8 * u = 2 powi (- 50)" unfolding u_def by simp
  moreover have "fl (fl (v * scale) + fl (0 - fl (lo * scale))) = y"
    unfolding y_def zv_def zl_def by (simp add: fl_neg_fl)
  ultimately show ?thesis unfolding R_def by simp
qed

text \<open>The roundings met in the examples below.\<close>

lemma fl_column_1: "fl 1 = 1"
  by (rule fl_evalI [where e = "0"]) (simp_all add: rint_def Let_def)

lemma fl_column_2: "fl 2 = 2"
  by (rule fl_evalI [where e = "1"]) (simp_all add: rint_def Let_def)

lemma fl_column_3: "fl 3 = 3"
  by (rule fl_evalI [where e = "1"]) (simp_all add: rint_def Let_def)

lemma fl_column_4: "fl 4 = 4"
  by (rule fl_evalI [where e = "2"]) (simp_all add: rint_def Let_def)

lemma fl_column_5: "fl 5 = 5"
  by (rule fl_evalI [where e = "2"]) (simp_all add: rint_def Let_def)

lemma fl_column_6: "fl (1 / 4) = 1 / 4"
  by (rule fl_evalI [where e = "- 2"]) (simp_all add: rint_def Let_def)

lemma fl_column_7: "fl (1 / 2) = 1 / 2"
  by (rule fl_evalI [where e = "- 1"]) (simp_all add: rint_def Let_def)

lemma fl_column_8: "fl (3 / 4) = 3 / 4"
  by (rule fl_evalI [where e = "- 1"]) (simp_all add: rint_def Let_def)

lemma fl_column_9: "fl (5 / 4) = 5 / 4"
  by (rule fl_evalI [where e = "0"]) (simp_all add: rint_def Let_def)

lemma fl_column_10: "fl 10 = 10"
  by (rule fl_evalI [where e = "3"]) (simp_all add: rint_def Let_def)

lemma fl_column_11: "fl 8 = 8"
  by (rule fl_evalI [where e = "3"]) (simp_all add: rint_def Let_def)

lemma fl_column_12: "fl (1 / 8) = 1 / 8"
  by (rule fl_evalI [where e = "- 3"]) (simp_all add: rint_def Let_def)

lemma fl_column_13: "fl (2589 / 100) = 1821846786759721 / 70368744177664"
  by (rule fl_evalI [where e = "4"]) (simp_all add: rint_def Let_def)

lemma fl_column_14: "fl (5113 / 100) = 7195907779607921 / 140737488355328"
  by (rule fl_evalI [where e = "5"]) (simp_all add: rint_def Let_def)

lemma fl_column_15: "fl (4049 / 100) = 5698460903507231 / 140737488355328"
  by (rule fl_evalI [where e = "5"]) (simp_all add: rint_def Let_def)

lemma fl_column_16: "fl (3552214206088479 / 140737488355328) = 3552214206088479 / 140737488355328"
  by (rule fl_evalI [where e = "4"]) (simp_all add: rint_def Let_def)

lemma fl_column_17: "fl (140737488355328 / 3552214206088479) = 2854896752691281 / 72057594037927936"
  by (rule fl_evalI [where e = "- 5"]) (simp_all add: rint_def Let_def)

lemma fl_column_18: "fl (5201184475421372155924238692601 / 5070602400912917605986812821504) = 4619579807948579 / 4503599627370496"
  by (rule fl_evalI [where e = "0"]) (simp_all add: rint_def Let_def)

lemma fl_column_19: "fl (4619579807948579 / 4503599627370496) = 4619579807948579 / 4503599627370496"
  by (rule fl_evalI [where e = "0"]) (simp_all add: rint_def Let_def)

lemma fl_column_20: "fl (20543573752668579822167735236801 / 10141204801825835211973625643008) = 2280794858829769 / 1125899906842624"
  by (rule fl_evalI [where e = "1"]) (simp_all add: rint_def Let_def)

lemma fl_column_21: "fl (4503599627370497 / 4503599627370496) = 4503599627370497 / 4503599627370496"
  by (rule fl_evalI [where e = "0"]) (simp_all add: rint_def Let_def)

lemma fl_column_22: "fl (16268517528761016942251094152911 / 10141204801825835211973625643008) = 7224673094779373 / 4503599627370496"
  by (rule fl_evalI [where e = "0"]) (simp_all add: rint_def Let_def)

lemma fl_column_23: "fl (1302546643415397 / 2251799813685248) = 1302546643415397 / 2251799813685248"
  by (rule fl_evalI [where e = "- 1"]) (simp_all add: rint_def Let_def)

lemma fl_column_24: "fl (1821846786759721 / 70368744177664) = 1821846786759721 / 70368744177664"
  by (rule fl_evalI [where e = "4"]) (simp_all add: rint_def Let_def)

lemma fl_column_25: "fl (7195907779607921 / 140737488355328) = 7195907779607921 / 140737488355328"
  by (rule fl_evalI [where e = "5"]) (simp_all add: rint_def Let_def)

lemma fl_column_26: "fl (5698460903507231 / 140737488355328) = 5698460903507231 / 140737488355328"
  by (rule fl_evalI [where e = "5"]) (simp_all add: rint_def Let_def)

lemmas fl_column = fl_column_1 fl_column_2 fl_column_3 fl_column_4 fl_column_5 fl_column_6 fl_column_7 fl_column_8 fl_column_9 fl_column_10 fl_column_11 fl_column_12 fl_column_13 fl_column_14 fl_column_15 fl_column_16 fl_column_17 fl_column_18 fl_column_19 fl_column_20 fl_column_21 fl_column_22 fl_column_23 fl_column_24 fl_column_25 fl_column_26

text \<open>
  Claim C7, as amended. For every column selected for normalization (a column of doubles
  of a non-empty table, the selected columns being distinct), \<^verbatim>\<open>normalize_data\<close> negates
  the values first when the column is to be inverted and then scales them in double
  precision: with \<open>ws\<close> the values after the optional negation, \<open>lo\<close> and \<open>hi\<close> their
  minimum and maximum, the divisor \<open>d\<close> is the rounded range \<open>hi - lo\<close>, or 1 when that is
  below \<open>10 * 2 powi (-52)\<close>; \<open>scale = 1 / d\<close> and \<open>min_shift = 0 - lo * scale\<close>, rounded,
  and the new column is \<open>v * scale + min_shift\<close> for each \<open>v\<close> of \<open>ws\<close>, rounded after the
  product and after the sum. The minimum of the new column is exactly 0, and its maximum
  is the scaled largest value. When the range is not replaced, every new value is
  \<open>(v - lo) / (hi - lo)\<close> up to the rounding, within
  \<open>2 powi (-50) * (1 + scale * (\<bar>v\<bar> + \<bar>lo\<bar>))\<close> of it, and so the maximum is within
  \<open>2 powi (-50) * (1 + scale * (\<bar>hi\<bar> + \<bar>lo\<bar>))\<close> of 1, not always 1 itself. The column
  \<open>[1, 2, 3, 4, 5]\<close>, not inverted, becomes \<open>[0, 0.25, 0.5, 0.75, 1.0]\<close>.
\<close>

theorem normalize_data_min_max:
  "(distinct cols \<and> set cols \<subseteq> set (column_names df) \<and> rows df \<noteq> []
      \<and> (\<forall>c\<in>set cols. \<exists>vs. get_column df c = map Num vs)
      \<and> c \<in> set cols \<and> get_column df c = map Num vs
      \<and> (\<forall>v\<in>set vs. fl v = v \<and> \<bar>v\<bar> \<le> 2 ^ 500)
      \<and> ws = (if c \<in> set invs then map (\<lambda>v. -1 * v) vs else vs)
      \<and> lo = Min (set ws) \<and> hi = Max (set ws)
      \<and> d = (if fl (hi - lo) < 10 * 2 powi (- 52) then 1 else fl (hi - lo))
      \<and> scale = fl (1 / d) \<and> min_shift = fl (0 - fl (lo * scale))
    \<longrightarrow> (\<exists>df'. normalize_data df cols invs = Inr df'
          \<and> get_column df' c = map (\<lambda>v. Num (fl (fl (v * scale) + min_shift))) ws
          \<and> Min (set (nums (get_column df' c))) = 0
          \<and> Max (set (nums (get_column df' c))) = fl (fl (hi * scale) + min_shift)
          \<and> (10 * 2 powi (- 52) \<le> fl (hi - lo) \<longrightarrow>
                (\<forall>v\<in>set ws. \<bar>fl (fl (v * scale) + min_shift) - (v - lo) / (hi - lo)\<bar>
                                \<le> 2 powi (- 50) * (1 + scale * (\<bar>v\<bar> + \<bar>lo\<bar>)))
              \<and> \<bar>Max (set (nums (get_column df' c))) - 1\<bar>
                    \<le> 2 powi (- 50) * (1 + scale * (\<bar>hi\<bar> + \<bar>lo\<bar>)))))
   \<and> (\<exists>df'. normalize_data (example_column_table ''A'' [1, 2, 3, 4, 5]) [''A''] [] = Inr df'
          \<and> get_column df' ''A'' = [Num 0, Num 0.25, Num 0.5, Num 0.75, Num 1.0])"
proof (intro conjI impI)
  assume h: "distinct cols \<and> set cols \<subseteq> set (column_names df) \<and> rows df \<noteq> []
      \<and> (\<forall>c\<in>set cols. \<exists>vs. get_column df c = map Num vs)
      \<and> c \<in> set cols \<and> get_column df c = map Num vs
      \<and> (\<forall>v\<in>set vs. fl v = v \<and> \<bar>v\<bar> \<le> 2 ^ 500)
      \<and> ws = (if c \<in> set invs then map (\<lambda>v. -1 * v) vs else vs)
      \<and> lo = Min (set ws) \<and> hi = Max (set ws)
      \<and> d = (if fl (hi - lo) < 10 * 2 powi (- 52) then 1 else fl (hi - lo))
      \<and> scale = fl (1 / d) \<and> min_shift = fl (0 - fl (lo * scale))"
  then have h1: "distinct cols" and h2: "set cols \<subseteq> set (column_names df)"
    and h3: "rows df \<noteq> []" and h4: "\<forall>c\<in>set cols. \<exists>vs. get_column df c = map Num vs"
    and h5: "c \<in> set cols" and h6: "get_column df c = map Num vs"
    and h7: "ws = (if c \<in> set invs then map (\<lambda>v. -1 * v) vs else vs)"
    and lo: "lo = Min (set ws)" and hi: "hi = Max (set ws)"
    and d: "d = (if fl (hi - lo) < 10 * 2 powi (- 52) then 1 else fl (hi - lo))"
    and sc: "scale = fl (1 / d)" and ms: "min_shift = fl (0 - fl (lo * scale))"
    and dbl: "\<forall>v\<in>set vs. fl v = v \<and> \<bar>v\<bar> \<le> 2 ^ 500"
    by blast+
  have ws: "ws = (if c \<in> set invs then map uminus vs else vs)"
    unfolding h7 by simp
  have "length vs = length (rows df)" using h6 length_get_column [of df c] by simp
  with h3 have "vs \<noteq> []" by auto
  then have ne: "ws \<noteq> []" unfolding ws by simp
  from normalize_data_general [OF h1 h2 h3 h4 h5 h6, of invs]
  obtain df' where r: "normalize_data df cols invs = Inr df'"
    and g: "get_column df' c = scaled_column ws"
    unfolding ws by blast
  have d': "d = handle_zeros_in_scale (fl (Max (set ws) - Min (set ws)))"
    unfolding d lo hi handle_zeros_in_scale_def by (rule refl)
  have ms': "min_shift = fl (0 - fl (Min (set ws) * scale))"
    unfolding ms lo by (rule refl)
  let ?T = "\<lambda>v. fl (fl (v * scale) + min_shift)"
  have col: "get_column df' c = map (\<lambda>v. Num (?T v)) ws"
    unfolding g by (rule scaled_column_eq [OF d' sc ms'])
  have nm: "nums (get_column df' c) = map ?T ws"
    unfolding col by (rule nums_map_Num)
  have nonneg: "0 \<le> scale" using sc unfolding d' by (rule scale_nonneg)
  have "Min (set (nums (get_column df' c))) = ?T lo"
    unfolding nm lo by (rule Min_Max_transform(1) [OF ne nonneg])
  also have "\<dots> = 0" unfolding ms by (rule transform_lowest)
  finally have mn: "Min (set (nums (get_column df' c))) = 0" .
  have mx: "Max (set (nums (get_column df' c))) = ?T hi"
    unfolding nm hi by (rule Min_Max_transform(2) [OF ne nonneg])
  have er: "(\<forall>v\<in>set ws. \<bar>fl (fl (v * scale) + min_shift) - (v - lo) / (hi - lo)\<bar>
                                \<le> 2 powi (- 50) * (1 + scale * (\<bar>v\<bar> + \<bar>lo\<bar>)))
              \<and> \<bar>Max (set (nums (get_column df' c))) - 1\<bar>
                    \<le> 2 powi (- 50) * (1 + scale * (\<bar>hi\<bar> + \<bar>lo\<bar>))"
    if big: "10 * 2 powi (- 52) \<le> fl (hi - lo)"
  proof -
    have fin: "finite (set ws)" "set ws \<noteq> {}" using ne by simp_all
    have bw: "\<bar>v\<bar> \<le> 2 ^ 500" if "v \<in> set ws" for v
      using that dbl unfolding ws by (auto split: if_splits)
    have lo_in: "lo \<in> set ws" unfolding lo using fin by (rule Min_in)
    have hi_in: "hi \<in> set ws" unfolding hi using fin by (rule Max_in)
    have sc': "scale = fl (1 / fl (hi - lo))" using big unfolding sc d by simp
    have e: "\<bar>fl (fl (v * scale) + min_shift) - (v - lo) / (hi - lo)\<bar>
              \<le> 2 powi (- 50) * (1 + scale * (\<bar>v\<bar> + \<bar>lo\<bar>))" if v: "v \<in> set ws" for v
    proof -
      have "lo \<le> v" unfolding lo using fin(1) v by (rule Min_le)
      moreover have "v \<le> hi" unfolding hi using fin(1) v by (rule Max_ge)
      ultimately show ?thesis
        unfolding ms using big bw [OF lo_in] bw [OF hi_in] sc' by (rule scaled_error)
    qed
    have "0 < fl (hi - lo)" using big pw_pos [of "- 52"] by linarith
    then have "hi - lo \<noteq> 0" by (auto simp: fl_zero)
    then have "(hi - lo) / (hi - lo) = 1" by simp
    with e [OF hi_in] have "\<bar>fl (fl (hi * scale) + min_shift) - 1\<bar>
              \<le> 2 powi (- 50) * (1 + scale * (\<bar>hi\<bar> + \<bar>lo\<bar>))" by simp
    with e show ?thesis unfolding mx by blast
  qed
  from r col mn mx er
  show "\<exists>df'. normalize_data df cols invs = Inr df'
          \<and> get_column df' c = map (\<lambda>v. Num (fl (fl (v * scale) + min_shift))) ws
          \<and> Min (set (nums (get_column df' c))) = 0
          \<and> Max (set (nums (get_column df' c))) = fl (fl (hi * scale) + min_shift)
          \<and> (10 * 2 powi (- 52) \<le> fl (hi - lo) \<longrightarrow>
                (\<forall>v\<in>set ws. \<bar>fl (fl (v * scale) + min_shift) - (v - lo) / (hi - lo)\<bar>
                                \<le> 2 powi (- 50) * (1 + scale * (\<bar>v\<bar> + \<bar>lo\<bar>)))
              \<and> \<bar>Max (set (nums (get_column df' c))) - 1\<bar>
                    \<le> 2 powi (- 50) * (1 + scale * (\<bar>hi\<bar> + \<bar>lo\<bar>)))"
    by blast
next
  let ?df = "example_column_table ''A'' [1, 2, 3, 4, 5]"
  have "distinct [''A''] \<and> set [''A''] \<subseteq> set (column_names ?df) \<and> rows ?df \<noteq> []
   \<and> (\<forall>c\<in>set [''A'']. \<exists>ws. get_column ?df c = map Num ws)"
    by (rule example_hyps) simp_all
  from normalize_data_general [of "[''A'']" ?df "''A''" "[1, 2, 3, 4, 5]" "[]"] this
  obtain df' where r: "normalize_data ?df [''A''] [] = Inr df'"
    and g: "get_column df' ''A'' = scaled_column [1, 2, 3, 4, 5]"
    by (auto simp: example_get_column)
  have "scaled_column [1, 2, 3, 4, 5] = [Num 0, Num 0.25, Num 0.5, Num 0.75, Num 1.0]"
    by (simp add: scaled_column_def MinMaxScaler_fit_def np_divide_def handle_zeros_in_scale_def
        Let_def fl_neg fl_zero fl_column)
  with r g show "\<exists>df'. normalize_data ?df [''A''] [] = Inr df'
          \<and> get_column df' ''A'' = [Num 0, Num 0.25, Num 0.5, Num 0.75, Num 1.0]"
    by simp
qed

text \<open>
  The claim as stated fails: the column \<open>[25.89, 51.13, 40.49]\<close> is not constant, and the
  maximum of its normalized values is \<open>1 + 2 powi (-52)\<close>, the double above 1, printed
  \<^verbatim>\<open>1.0000000000000002\<close>.
\<close>

theorem normalize_data_max_counterexample:
  "\<exists>df'. normalize_data (example_column_table ''ROE'' [fl 25.89, fl 51.13, fl 40.49]) [''ROE''] []
          = Inr df'
      \<and> get_column df' ''ROE''
          = [Num 0, Num (1 + 2 powi (- 52)), Num (1302546643415397 / 2251799813685248)]
      \<and> Min (set [fl 25.89, fl 51.13, fl 40.49]) \<noteq> Max (set [fl 25.89, fl 51.13, fl 40.49])
      \<and> Max (set (nums (get_column df' ''ROE''))) = 1 + 2 powi (- 52)
      \<and> Max (set (nums (get_column df' ''ROE''))) \<noteq> 1"
proof -
  let ?vs = "[fl 25.89, fl 51.13, fl 40.49]"
  let ?df = "example_column_table ''ROE'' ?vs"
  have "distinct [''ROE''] \<and> set [''ROE''] \<subseteq> set (column_names ?df) \<and> rows ?df \<noteq> []
   \<and> (\<forall>c\<in>set [''ROE'']. \<exists>ws. get_column ?df c = map Num ws)"
    by (rule example_hyps) simp_all
  from normalize_data_general [of "[''ROE'']" ?df "''ROE''" ?vs "[]"] this
  obtain df' where r: "normalize_data ?df [''ROE''] [] = Inr df'"
    and g: "get_column df' ''ROE'' = scaled_column ?vs"
    by (auto simp: example_get_column)
  have s: "scaled_column ?vs
      = [Num 0, Num (1 + 2 powi (- 52)), Num (1302546643415397 / 2251799813685248)]"
    by (simp add: scaled_column_def MinMaxScaler_fit_def np_divide_def handle_zeros_in_scale_def
        Let_def fl_neg fl_zero fl_column)
  have m: "Min (set ?vs) \<noteq> Max (set ?vs)" by (simp add: fl_column)
  have x: "Max (set (nums (get_column df' ''ROE''))) = 1 + 2 powi (- 52)"
    unfolding g s by simp
  have "(1::real) + 2 powi (- 52) \<noteq> 1" by simp
  with r g s m x show ?thesis by (intro exI [of _ df']) simp
qed

text \<open>The column \<open>[2, 4, 10]\<close>, inverted: \<open>ws = [-2, -4, -10]\<close>.\<close>

theorem normalize_data_min_max_witness:
  "\<exists>df'. normalize_data (example_column_table ''B'' [2, 4, 10]) [''B''] [''B''] = Inr df'
      \<and> get_column df' ''B'' = [Num 1, Num 0.75, Num 0]
      \<and> Min (set (nums (get_column df' ''B''))) = 0
      \<and> Max (set (nums (get_column df' ''B''))) = 1"
proof -
  let ?df = "example_column_table ''B'' [2, 4, 10]"
  have h: "distinct [''B''] \<and> set [''B''] \<subseteq> set (column_names ?df) \<and> rows ?df \<noteq> []
   \<and> (\<forall>c\<in>set [''B'']. \<exists>ws. get_column ?df c = map Num ws)"
    by (rule example_hyps) simp_all
  have v: "\<forall>v\<in>set [2, 4, 10 :: real]. fl v = v \<and> \<bar>v\<bar> \<le> 2 ^ 500"
    by (simp add: fl_column)
  have p: "(- 10 :: real) = Min (set [- 2, - 4, - 10])" "(- 2 :: real) = Max (set [- 2, - 4, - 10])"
    "(8 :: real) = (if fl (- 2 - - 10) < 10 * 2 powi (- 52) then 1 else fl (- 2 - - 10))"
    "(1 / 8 :: real) = fl (1 / 8)" "(5 / 4 :: real) = fl (0 - fl (- 10 * (1 / 8)))"
    by (simp_all add: fl_neg fl_column)
  have w: "[- 2, - 4, - 10 :: real]
      = (if ''B'' \<in> set [''B''] then map (\<lambda>v. - 1 * v) [2, 4, 10] else [2, 4, 10])"
    by simp
  have i: "''B'' \<in> set [''B'']" by simp
  have g: "get_column ?df ''B'' = map Num [2, 4, 10]" by (rule example_get_column)
  from h have h1: "distinct [''B'']" and h2: "set [''B''] \<subseteq> set (column_names ?df)"
    and h3: "rows ?df \<noteq> []"
    and h4: "\<forall>c\<in>set [''B'']. \<exists>ws. get_column ?df c = map Num ws"
    by blast+
  have "distinct [''B''] \<and> set [''B''] \<subseteq> set (column_names ?df) \<and> rows ?df \<noteq> []
      \<and> (\<forall>c\<in>set [''B'']. \<exists>vs. get_column ?df c = map Num vs)
      \<and> ''B'' \<in> set [''B''] \<and> get_column ?df ''B'' = map Num [2, 4, 10]
      \<and> (\<forall>v\<in>set [2, 4, 10 :: real]. fl v = v \<and> \<bar>v\<bar> \<le> 2 ^ 500)
      \<and> [- 2, - 4, - 10 :: real]
          = (if ''B'' \<in> set [''B''] then map (\<lambda>v. - 1 * v) [2, 4, 10] else [2, 4, 10])
      \<and> (- 10 :: real) = Min (set [- 2, - 4, - 10]) \<and> (- 2 :: real) = Max (set [- 2, - 4, - 10])
      \<and> (8 :: real) = (if fl (- 2 - - 10) < 10 * 2 powi (- 52) then 1 else fl (- 2 - - 10))
      \<and> (1 / 8 :: real) = fl (1 / 8) \<and> (5 / 4 :: real) = fl (0 - fl (- 10 * (1 / 8)))"
    by (intro conjI h1 h2 h3 h4 i g v w p)
  with normalize_data_min_max
         [of "[''B'']" ?df "''B''" "[2, 4, 10]" "[- 2, - 4, - 10]" "[''B'']" "- 10" "- 2" 8 "1 / 8" "5 / 4"]
  obtain df' where r: "normalize_data ?df [''B''] [''B''] = Inr df'"
    and c: "get_column df' ''B'' = map (\<lambda>v. Num (fl (fl (v * (1 / 8)) + 5 / 4))) [- 2, - 4, - 10]"
    and mn: "Min (set (nums (get_column df' ''B''))) = 0"
    and mx: "Max (set (nums (get_column df' ''B''))) = fl (fl (- 2 * (1 / 8)) + 5 / 4)"
    by blast
  have c': "get_column df' ''B'' = [Num 1, Num 0.75, Num 0]"
    unfolding c by (simp add: fl_neg fl_zero fl_column)
  have mx': "Max (set (nums (get_column df' ''B''))) = 1"
    unfolding mx by (simp add: fl_neg fl_column)
  from r c' mn mx' show ?thesis by blast
qed

text \<open>
  Claim C8. Normalizing a constant column is defined and never divides by zero. The range
  of a constant column is 0, which the scaler replaces by the divisor 1, and for no column
  is the divisor of the scaler 0: the fit always has a scale that is a number. Every
  constant column of numbers selected for normalization becomes all zeros, numbers and not
  NaN, whether it is inverted or not.
\<close>

theorem normalize_data_constant_column:
  "(distinct cols \<and> set cols \<subseteq> set (column_names df) \<and> rows df \<noteq> []
      \<and> (\<forall>c\<in>set cols. \<exists>vs. get_column df c = map Num vs)
      \<and> c \<in> set cols \<and> (\<forall>r\<in>set (rows df). r c = Num k)
    \<longrightarrow> (\<exists>df'. normalize_data df cols invs = Inr df'
          \<and> get_column df' c = replicate (length (rows df)) (Num 0)))
   \<and> (\<forall>X. \<exists>scale min_shift. MinMaxScaler_fit X = Some (scale, min_shift))
   \<and> (\<forall>a. np_divide a 0 = None)"
proof (intro conjI impI allI)
  assume h: "distinct cols \<and> set cols \<subseteq> set (column_names df) \<and> rows df \<noteq> []
      \<and> (\<forall>c\<in>set cols. \<exists>vs. get_column df c = map Num vs)
      \<and> c \<in> set cols \<and> (\<forall>r\<in>set (rows df). r c = Num k)"
  then have h1: "distinct cols" and h2: "set cols \<subseteq> set (column_names df)"
    and h3: "rows df \<noteq> []" and h4: "\<forall>c\<in>set cols. \<exists>vs. get_column df c = map Num vs"
    and h5: "c \<in> set cols" and h6: "\<forall>r\<in>set (rows df). r c = Num k"
    by blast+
  let ?n = "length (rows df)"
  have "get_column df c = replicate ?n (Num k)"
    unfolding get_column_def using h6 by (simp add: map_replicate_const [symmetric])
  then have col: "get_column df c = map Num (replicate ?n k)" by simp
  from normalize_data_general [OF h1 h2 h3 h4 h5 col, of invs]
  obtain df' where r: "normalize_data df cols invs = Inr df'"
    and g: "get_column df' c
          = scaled_column (if c \<in> set invs then map uminus (replicate ?n k) else replicate ?n k)"
    by blast
  have "get_column df' c = replicate ?n (Num 0)"
    unfolding g by (simp add: scaled_column_replicate)
  with r show "\<exists>df'. normalize_data df cols invs = Inr df'
          \<and> get_column df' c = replicate (length (rows df)) (Num 0)"
    by simp
next
  fix X
  show "\<exists>scale min_shift. MinMaxScaler_fit X = Some (scale, min_shift)"
    using MinMaxScaler_fit_Some [OF refl refl refl, of X] by blast
next
  fix a :: real
  show "np_divide a 0 = None" by (simp add: np_divide_def)
qed

text \<open>The constant column \<open>[7, 7, 7]\<close>, inverted.\<close>

theorem normalize_data_constant_column_witness:
  "\<exists>df'. normalize_data (example_column_table ''C'' [7, 7, 7]) [''C''] [''C''] = Inr df'
      \<and> get_column df' ''C'' = [Num 0, Num 0, Num 0]"
proof -
  let ?df = "example_column_table ''C'' [7, 7, 7]"
  have h: "distinct [''C''] \<and> set [''C''] \<subseteq> set (column_names ?df) \<and> rows ?df \<noteq> []
   \<and> (\<forall>c\<in>set [''C'']. \<exists>ws. get_column ?df c = map Num ws)"
    by (rule example_hyps) simp_all
  have k: "\<forall>r\<in>set (rows ?df). r ''C'' = Num 7" "length (rows ?df) = 3"
    by (simp_all add: example_column_table_def)
  from normalize_data_constant_column [of "[''C'']" ?df "''C''" 7 "[''C'']"] h k
  show ?thesis by (simp add: numeral_3_eq_3)
qed

section \<open>Properties of the rank\<close>

lemma positions_from_none:
  "\<forall>y\<in>set ys. y \<noteq> v \<Longrightarrow> positions_from k v ys = []"
  by (induction ys arbitrary: k) auto

lemma positions_from_desc:
  "sorted_wrt (\<ge>) ys \<Longrightarrow>
   positions_from k v ys
     = [k + length (filter (\<lambda>y. v < y) ys) ..< k + length (filter (\<lambda>y. v < y) ys) + length (filter (\<lambda>y. y = v) ys)]"
proof (induction ys arbitrary: k)
  case Nil
  then show ?case by simp
next
  case (Cons y ys)
  then have IH: "\<And>k. positions_from k v ys
     = [k + length (filter (\<lambda>y. v < y) ys) ..< k + length (filter (\<lambda>y. v < y) ys) + length (filter (\<lambda>y. y = v) ys)]"
    and le: "\<forall>z\<in>set ys. z \<le> y" by auto
  consider "v < y" | "y = v" | "y < v" by linarith
  then show ?case
  proof cases
    case 1
    then show ?thesis by (simp add: IH)
  next
    case 2
    with le have g0: "filter (\<lambda>y. v < y) ys = []" by (auto simp: filter_empty_conv)
    let ?c = "length (filter (\<lambda>y. y = v) ys)"
    have L: "positions_from k v (y # ys) = k # positions_from (Suc k) v ys"
      using 2 by simp
    have R: "positions_from (Suc k) v ys = [Suc k ..< Suc k + ?c]"
      using IH [of "Suc k"] g0 by simp
    have G: "length (filter (\<lambda>y. v < y) (y # ys)) = 0"
      using 2 g0 by simp
    have C: "length (filter (\<lambda>y. y = v) (y # ys)) = Suc ?c"
      using 2 by simp
    have "[k ..< k + Suc ?c] = k # [Suc k ..< k + Suc ?c]"
      by (rule upt_conv_Cons) simp
    then have U: "[k + 0 ..< k + 0 + Suc ?c] = k # [Suc k ..< Suc k + ?c]"
      by (simp only: add_0_right add_Suc_right add_Suc)
    show ?thesis by (simp only: L R G C U)
  next
    case 3
    with le have "filter (\<lambda>y. v < y) ys = []" "filter (\<lambda>y. y = v) ys = []"
      by (auto simp: filter_empty_conv)
    with 3 show ?thesis by (simp add: IH)
  qed
qed

lemma sum_list_upt_real:
  "real (sum_list [a ..< a + c]) = real c * real a + real c * (real c - 1) / 2"
proof (induction c)
  case 0
  then show ?case by simp
next
  case (Suc c)
  then show ?case by (simp add: field_simps)
qed


lemma average_rank_eq:
  assumes "v \<in> set vs"
  shows "average_rank vs v
       = real (competition_rank vs v) + (real (count_list vs v) - 1) / 2"
proof -
  let ?ys = "rev (sort vs)"
  let ?g = "length (filter (\<lambda>y. v < y) vs)"
  let ?c = "length (filter (\<lambda>y. y = v) vs)"
  have desc: "sorted_wrt (\<ge>) ?ys"
    using sorted_sort [of vs] by (simp add: sorted_wrt_rev)
  have g: "length (filter (\<lambda>y. v < y) ?ys) = ?g"
    by (simp add: filter_sort flip: rev_filter)
  have c: "length (filter (\<lambda>y. y = v) ?ys) = ?c"
    by (simp add: filter_sort flip: rev_filter)
  have ps: "positions_from 1 v ?ys = [1 + ?g ..< 1 + ?g + ?c]"
    using positions_from_desc [OF desc, of 1 v] by (simp only: g c)
  have cpos: "?c > 0" using assms by (simp add: filter_empty_conv length_greater_0_conv)
  have cl: "count_list vs v = ?c"
    by (induction vs) auto
  have "average_rank vs v = (real ?c * real (1 + ?g) + real ?c * (real ?c - 1) / 2) / real ?c"
    unfolding average_rank_def Let_def ps by (simp only: sum_list_upt_real length_upt) simp
  also have "\<dots> = real (1 + ?g) + (real ?c - 1) / 2"
    using cpos by (simp add: field_simps)
  finally show ?thesis by (simp add: competition_rank_def cl)
qed

text \<open>
  Claim C3, as amended. \<^verbatim>\<open>df['Composite Score'].rank(ascending=False)\<close> is pandas' default
  average ranking: on a column of scores, the rank of a score is the lowest position of its
  tie group in the descending order plus \<open>(k - 1) / 2\<close>, where \<open>k\<close> is the size of the tie
  group, that is, the average of the positions the group holds. An untied score
  (\<open>k = 1\<close>) has its position as rank, 1 for the largest score; tied scores share one rank.
\<close>

theorem rank_descending_average:
  "rank_descending (map Num vs)
     = map (\<lambda>v. Num (real (competition_rank vs v) + (real (count_list vs v) - 1) / 2)) vs"
  by (simp add: rank_descending_def nums_Num average_rank_eq)

text \<open>
  The claim as stated fails: with the scores \<open>[0.5, 0.5, 0.2]\<close> the two tied rows get the
  rank 1.5, where standard competition ranking gives them 1.
\<close>

theorem rank_descending_ties_counterexample:
  "rank_descending [Num 0.5, Num 0.5, Num 0.2] = [Num 1.5, Num 1.5, Num 3]
   \<and> map (\<lambda>v. Num (real (competition_rank [0.5, 0.5, 0.2] v))) [0.5, 0.5, 0.2]
       = [Num 1, Num 1, Num 3]"
  by (simp add: rank_descending_def average_rank_def competition_rank_def)

section \<open>Properties of the selector\<close>






























lemma market_cap_category_Num:
  "market_cap_category (Num v)
     = Inr (Str (if v \<le> 29182.71 then ''Small-Cap'' else if v \<le> 89123.03 then ''Mid-Cap''
                 else ''Large-Cap''))"
  by (simp add: market_cap_bins_def market_cap_labels_def)

lemma market_cap_label_cases:
  "(market_cap_labels ! cut_bin market_cap_bins v = ''Small-Cap'') = (v \<le> 29182.71)"
  "(market_cap_labels ! cut_bin market_cap_bins v = ''Mid-Cap'') = (29182.71 < v \<and> v \<le> 89123.03)"
  "(market_cap_labels ! cut_bin market_cap_bins v = ''Large-Cap'') = (89123.03 < v)"
  by (simp_all add: market_cap_bins_def market_cap_labels_def)

lemma sequence_market_cap_category:
  "\<forall>c\<in>set cs. \<not> is_Str c \<Longrightarrow>
   \<exists>cats. sequence (map market_cap_category cs) = Inr cats \<and> length cats = length cs
      \<and> (\<forall>i<length cs. market_cap_category (cs ! i) = Inr (cats ! i))"
proof (induction cs)
  case Nil
  then show ?case by simp
next
  case (Cons c cs)
  then obtain cats where s: "sequence (map market_cap_category cs) = Inr cats"
    and l: "length cats = length cs"
    and n: "\<forall>i<length cs. market_cap_category (cs ! i) = Inr (cats ! i)" by auto
  from Cons.prems obtain x where x: "market_cap_category c = Inr x"
    by (cases c) auto
  have "sequence (map market_cap_category (c # cs)) = Inr (x # cats)"
    by (simp add: x s)
  moreover have "\<forall>i<length (c # cs). market_cap_category ((c # cs) ! i) = Inr ((x # cats) ! i)"
    using x n by (auto simp: nth_Cons split: nat.splits)
  ultimately show ?case using l by (intro exI [of _ "x # cats"]) simp
qed

lemma rows_set_column_nth:
  "length vs = length (rows df) \<Longrightarrow> i < length (rows df) \<Longrightarrow>
   rows (set_column df c dt vs) ! i = (rows df ! i)(c := vs ! i)"
  by (simp add: set_column_def)

text \<open>
  Claim C6, as amended. The market capitalization column is exempt from cleaning, so a
  selected row can have a missing market capitalization. Every row of the selected table
  whose market capitalization is a number \<open>v\<close> gets exactly one of the three buckets:
  \<^verbatim>\<open>Small-Cap\<close> exactly when \<open>v \<le> 29182.71\<close>, \<^verbatim>\<open>Mid-Cap\<close> exactly when
  \<open>29182.71 < v \<le> 89123.03\<close>, \<^verbatim>\<open>Large-Cap\<close> exactly when \<open>89123.03 < v\<close>. A row whose
  market capitalization is missing gets the text \<^verbatim>\<open>nan\<close>, none of the three buckets. No
  other cell of the table changes.
\<close>

theorem market_cap_category_partition:
  "''Market Capitalization'' \<in> set (column_names df)
     \<and> (\<forall>r\<in>set (rows df). \<not> is_Str (r ''Market Capitalization''))
   \<longrightarrow> (\<exists>df'. assign_market_cap_category df = Inr df'
          \<and> length (rows df') = length (rows df)
          \<and> (\<forall>i<length (rows df).
                (\<forall>v. (rows df ! i) ''Market Capitalization'' = Num v \<longrightarrow>
                   ((rows df' ! i) ''Market Cap Category'' = Str ''Small-Cap'')
                      = (v \<le> 29182.71)
                 \<and> ((rows df' ! i) ''Market Cap Category'' = Str ''Mid-Cap'')
                      = (29182.71 < v \<and> v \<le> 89123.03)
                 \<and> ((rows df' ! i) ''Market Cap Category'' = Str ''Large-Cap'')
                      = (89123.03 < v))
              \<and> ((rows df ! i) ''Market Capitalization'' = NaN \<longrightarrow>
                   (rows df' ! i) ''Market Cap Category'' = Str ''nan'')
              \<and> (\<forall>col. col \<noteq> ''Market Cap Category'' \<longrightarrow>
                   (rows df' ! i) col = (rows df ! i) col)))"
proof (intro impI)
  assume "''Market Capitalization'' \<in> set (column_names df)
     \<and> (\<forall>r\<in>set (rows df). \<not> is_Str (r ''Market Capitalization''))"
  then have cin: "''Market Capitalization'' \<in> set (column_names df)"
    and ns: "\<forall>c\<in>set (get_column df ''Market Capitalization''). \<not> is_Str c"
    by (auto simp: get_column_def)
  let ?cs = "get_column df ''Market Capitalization''"
  from sequence_market_cap_category [OF ns]
  obtain cats where s: "sequence (map market_cap_category ?cs) = Inr cats"
    and l: "length cats = length ?cs"
    and n: "\<forall>i<length ?cs. market_cap_category (?cs ! i) = Inr (cats ! i)" by blast
  let ?df' = "set_column df ''Market Cap Category'' Object cats"
  have len: "length cats = length (rows df)" using l by (simp add: length_get_column)
  have res: "assign_market_cap_category df = Inr ?df'"
    using cin by (simp add: assign_market_cap_category_def s)
  have lr: "length (rows ?df') = length (rows df)"
    using len by (rule length_rows_set_column)
  have P: "(\<forall>v. (rows df ! i) ''Market Capitalization'' = Num v \<longrightarrow>
                   ((rows ?df' ! i) ''Market Cap Category'' = Str ''Small-Cap'')
                      = (v \<le> 29182.71)
                 \<and> ((rows ?df' ! i) ''Market Cap Category'' = Str ''Mid-Cap'')
                      = (29182.71 < v \<and> v \<le> 89123.03)
                 \<and> ((rows ?df' ! i) ''Market Cap Category'' = Str ''Large-Cap'')
                      = (89123.03 < v))
              \<and> ((rows df ! i) ''Market Capitalization'' = NaN \<longrightarrow>
                   (rows ?df' ! i) ''Market Cap Category'' = Str ''nan'')
              \<and> (\<forall>col. col \<noteq> ''Market Cap Category'' \<longrightarrow>
                   (rows ?df' ! i) col = (rows df ! i) col)"
    if i: "i < length (rows df)" for i
  proof -
    have r': "rows ?df' ! i = (rows df ! i)(''Market Cap Category'' := cats ! i)"
      using len i by (rule rows_set_column_nth)
    have ci: "?cs ! i = (rows df ! i) ''Market Capitalization''"
      using i by (simp add: get_column_def)
    have m: "market_cap_category ((rows df ! i) ''Market Capitalization'') = Inr (cats ! i)"
      using n i ci by (metis length_get_column)
    show ?thesis
    proof (cases "(rows df ! i) ''Market Capitalization''")
      case (Num v)
      with m have "cats ! i = Str (market_cap_labels ! cut_bin market_cap_bins v)" by simp
      with Num show ?thesis unfolding r' by (simp add: market_cap_label_cases)
    next
      case NaN
      with m show ?thesis unfolding r' by simp
    next
      case (Str s)
      with m show ?thesis by simp
    qed
  qed
  show "\<exists>df'. assign_market_cap_category df = Inr df'
          \<and> length (rows df') = length (rows df)
          \<and> (\<forall>i<length (rows df).
                (\<forall>v. (rows df ! i) ''Market Capitalization'' = Num v \<longrightarrow>
                   ((rows df' ! i) ''Market Cap Category'' = Str ''Small-Cap'')
                      = (v \<le> 29182.71)
                 \<and> ((rows df' ! i) ''Market Cap Category'' = Str ''Mid-Cap'')
                      = (29182.71 < v \<and> v \<le> 89123.03)
                 \<and> ((rows df' ! i) ''Market Cap Category'' = Str ''Large-Cap'')
                      = (89123.03 < v))
              \<and> ((rows df ! i) ''Market Capitalization'' = NaN \<longrightarrow>
                   (rows df' ! i) ''Market Cap Category'' = Str ''nan'')
              \<and> (\<forall>col. col \<noteq> ''Market Cap Category'' \<longrightarrow>
                   (rows df' ! i) col = (rows df ! i) col))"
    using res lr P by (intro exI [of _ ?df']) blast
qed

text \<open>The roundings met in the example below.\<close>

lemma fl_two_rows_1: "fl (3 / 5) = 5404319552844595 / 9007199254740992"
  by (rule fl_evalI [where e = "- 1"]) (simp_all add: rint_def Let_def)

lemma fl_two_rows_2: "fl (5404319552844595 / 9007199254740992) = 5404319552844595 / 9007199254740992"
  by (rule fl_evalI [where e = "- 1"]) (simp_all add: rint_def Let_def)

lemma fl_two_rows_3: "fl (4 / 5) = 3602879701896397 / 4503599627370496"
  by (rule fl_evalI [where e = "- 1"]) (simp_all add: rint_def Let_def)

lemma fl_two_rows_4: "fl (3602879701896397 / 9007199254740992) = 3602879701896397 / 9007199254740992"
  by (rule fl_evalI [where e = "- 2"]) (simp_all add: rint_def Let_def)

lemma fl_two_rows_5: "fl (12980742146337070512478121581609 / 40564819207303340847894502572032) = 1441151880758559 / 4503599627370496"
  by (rule fl_evalI [where e = "- 2"]) (simp_all add: rint_def Let_def)

lemma fl_two_rows_6: "fl (13060438919374437 / 22517998136852480) = 5224175567749775 / 9007199254740992"
  by (rule fl_evalI [where e = "- 1"]) (simp_all add: rint_def Let_def)

lemmas fl_two_rows = fl_two_rows_1 fl_two_rows_2 fl_two_rows_3 fl_two_rows_4 fl_two_rows_5 fl_two_rows_6

text \<open>
  The claim as stated fails: of two ranked rows, the one with the score 0.9 and no market
  capitalization is selected at \<open>p = 60\<close>, and its bucket is the text \<^verbatim>\<open>nan\<close>.
\<close>

theorem market_cap_category_missing_counterexample:
  "map_sum id (\<lambda>res. get_column (fst res) ''Market Cap Category'')
     (stock_selection (example_ranked_table [(0.9, NaN), (0.1, Num 50000)]) 60)
   = Inr [Str ''nan'']
   \<and> ''nan'' \<notin> set market_cap_labels"
  by (simp add: stock_selection_def market_cap_labels_def select_above_percentile_def np_percentile_def
      percentile_linear_def lerp_def Let_def assign_market_cap_category_def
      example_ranked_table_def get_column_def set_column_def column_names_def fl_two_rows)


text \<open>Four rows at and around the two thresholds, the last without a market capitalization.\<close>

theorem market_cap_category_partition_witness:
  "\<exists>df'. assign_market_cap_category
            (example_ranked_table
               [(0.9, Num 29182.71), (0.8, Num 89123.03), (0.7, Num 89123.04), (0.6, NaN)])
          = Inr df'
      \<and> (rows df' ! 0) ''Market Cap Category'' = Str ''Small-Cap''
      \<and> (rows df' ! 1) ''Market Cap Category'' = Str ''Mid-Cap''
      \<and> (rows df' ! 2) ''Market Cap Category'' = Str ''Large-Cap''
      \<and> (rows df' ! 3) ''Market Cap Category'' = Str ''nan''"
proof -
  let ?df = "example_ranked_table
               [(0.9, Num 29182.71), (0.8, Num 89123.03), (0.7, Num 89123.04), (0.6, NaN)]"
  have a: "''Market Capitalization'' \<in> set (column_names ?df)"
    "\<forall>r\<in>set (rows ?df). \<not> is_Str (r ''Market Capitalization'')"
    by (simp_all add: example_ranked_table_def column_names_def)
  have r: "length (rows ?df) = 4"
    "(rows ?df ! 0) ''Market Capitalization'' = Num 29182.71"
    "(rows ?df ! 1) ''Market Capitalization'' = Num 89123.03"
    "(rows ?df ! 2) ''Market Capitalization'' = Num 89123.04"
    "(rows ?df ! 3) ''Market Capitalization'' = NaN"
    by (simp_all add: example_ranked_table_def)
  from market_cap_category_partition [of ?df] a
  obtain df' where res: "assign_market_cap_category ?df = Inr df'"
    and P: "\<forall>i<length (rows ?df).
                (\<forall>v. (rows ?df ! i) ''Market Capitalization'' = Num v \<longrightarrow>
                   ((rows df' ! i) ''Market Cap Category'' = Str ''Small-Cap'')
                      = (v \<le> 29182.71)
                 \<and> ((rows df' ! i) ''Market Cap Category'' = Str ''Mid-Cap'')
                      = (29182.71 < v \<and> v \<le> 89123.03)
                 \<and> ((rows df' ! i) ''Market Cap Category'' = Str ''Large-Cap'')
                      = (89123.03 < v))
              \<and> ((rows ?df ! i) ''Market Capitalization'' = NaN \<longrightarrow>
                   (rows df' ! i) ''Market Cap Category'' = Str ''nan'')
              \<and> (\<forall>col. col \<noteq> ''Market Cap Category'' \<longrightarrow>
                   (rows df' ! i) col = (rows ?df ! i) col)"
    by blast
  have len: "i < length (rows ?df)" if "i < 4" for i
    using that r(1) by simp
  have P1: "((rows df' ! i) ''Market Cap Category'' = Str ''Small-Cap'') = (v \<le> 29182.71)
          \<and> ((rows df' ! i) ''Market Cap Category'' = Str ''Mid-Cap'')
               = (29182.71 < v \<and> v \<le> 89123.03)
          \<and> ((rows df' ! i) ''Market Cap Category'' = Str ''Large-Cap'') = (89123.03 < v)"
    if "i < 4" "(rows ?df ! i) ''Market Capitalization'' = Num v" for i v
    using P len [OF that(1)] that(2) by blast
  have P2: "(rows df' ! i) ''Market Cap Category'' = Str ''nan''"
    if "i < 4" "(rows ?df ! i) ''Market Capitalization'' = NaN" for i
    using P len [OF that(1)] that(2) by blast
  have "(rows df' ! 0) ''Market Cap Category'' = Str ''Small-Cap''"
    using P1 [OF _ r(2)] by simp
  moreover have "(rows df' ! 1) ''Market Cap Category'' = Str ''Mid-Cap''"
    using P1 [OF _ r(3)] by simp
  moreover have "(rows df' ! 2) ''Market Cap Category'' = Str ''Large-Cap''"
    using P1 [OF _ r(4)] by simp
  moreover have "(rows df' ! 3) ''Market Cap Category'' = Str ''nan''"
    using P2 [OF _ r(5)] by simp
  ultimately show ?thesis using res by blast
qed

section \<open>Properties of the optimizer's constraints\<close>

lemma industry_step_eq:
  "industry_step S cols ind (env, cs)
     = (env\<lparr>industry := Some ind\<rparr>,
        cs @ (if group_indices S cols ''Industry'' ind \<noteq> []
              then [(Ineq, IndustryLimitMinusSum (group_indices S cols ''Industry'' ind))]
              else []))"
  by (simp add: industry_step_def Let_def)

lemma cap_step_eq:
  "cap_step S cols ct (env, cs)
     = (env\<lparr>cap_type := Some ct\<rparr>,
        cs @ (if group_indices S cols ''Market Cap Category'' (Str ct) \<noteq> []
              then [(Ineq, CapLimitMinusSum (group_indices S cols ''Market Cap Category'' (Str ct)))]
              else []))"
  by (simp add: cap_step_def Let_def)

lemma fold_industry_step:
  "fold (industry_step S cols) inds (env, cs)
     = (env\<lparr>industry := (if inds = [] then industry env else Some (last inds))\<rparr>,
        cs @ map (\<lambda>ind. (Ineq, IndustryLimitMinusSum (group_indices S cols ''Industry'' ind)))
               (filter (\<lambda>ind. group_indices S cols ''Industry'' ind \<noteq> []) inds))"
proof (induction inds arbitrary: env cs)
  case Nil
  then show ?case by simp
next
  case (Cons ind inds)
  show ?case
    by (simp only: fold_simps industry_step_eq Cons.IH comp_apply) simp
qed

lemma fold_cap_step:
  "fold (cap_step S cols) cts (env, cs)
     = (env\<lparr>cap_type := (if cts = [] then cap_type env else Some (last cts))\<rparr>,
        cs @ map (\<lambda>ct. (Ineq, CapLimitMinusSum (group_indices S cols ''Market Cap Category'' (Str ct))))
               (filter (\<lambda>ct. group_indices S cols ''Market Cap Category'' (Str ct) \<noteq> []) cts))"
proof (induction cts arbitrary: env cs)
  case Nil
  then show ?case by simp
next
  case (Cons ct cts)
  show ?case
    by (simp only: fold_simps cap_step_eq Cons.IH comp_apply) simp
qed

lemma build_constraints_eq:
  assumes "set [''Industry'', ''Market Cap Category'', ''Symbol''] \<subseteq> set (column_names S)"
  shows "build_constraints S cols env
     = (let industries = unique (get_column S ''Industry'') in
        Inr (env\<lparr>industry := (if industries = [] then industry env else Some (last industries)),
                 cap_type := Some ''Small-Cap''\<rparr>,
             (Eq, SumMinusOne)
             # map (\<lambda>ind. (Ineq, IndustryLimitMinusSum (group_indices S cols ''Industry'' ind)))
                   (filter (\<lambda>ind. group_indices S cols ''Industry'' ind \<noteq> []) industries)
             @ map (\<lambda>ct. (Ineq, CapLimitMinusSum (group_indices S cols ''Market Cap Category'' (Str ct))))
                   (filter (\<lambda>ct. group_indices S cols ''Market Cap Category'' (Str ct) \<noteq> [])
                      [''Large-Cap'', ''Mid-Cap'', ''Small-Cap''])))"
  using assms unfolding build_constraints_def Let_def fold_industry_step fold_cap_step by simp

text \<open>
  Whatever the group, an industry constraint reads the limit of the last industry of the
  loop and a market cap constraint the limit of \<^verbatim>\<open>Small-Cap\<close>; only the index list is the
  group's own.
\<close>

lemma industry_constraint_value:
  assumes "build_constraints S cols env = Inr st"
    and "unique (get_column S ''Industry'') \<noteq> []"
    and "map_of (industry_limits env) (last (unique (get_column S ''Industry''))) = Some limit"
  shows "call_constraint (fst st) (IndustryLimitMinusSum idx) x = Inr (limit - sum_at x idx)"
proof -
  from assms(1) have "set [''Industry'', ''Market Cap Category'', ''Symbol''] \<subseteq> set (column_names S)"
    by (auto simp: build_constraints_def split: if_splits)
  from build_constraints_eq [OF this, of cols env] assms show ?thesis
    by (auto simp: Let_def)
qed

lemma cap_constraint_value:
  assumes "build_constraints S cols env = Inr st"
    and "map_of (cap_limits env) ''Small-Cap'' = Some limit"
  shows "call_constraint (fst st) (CapLimitMinusSum idx) x = Inr (limit - sum_at x idx)"
proof -
  from assms(1) have "set [''Industry'', ''Market Cap Category'', ''Symbol''] \<subseteq> set (column_names S)"
    by (auto simp: build_constraints_def split: if_splits)
  from build_constraints_eq [OF this, of cols env] assms show ?thesis
    by (auto simp: Let_def)
qed

lemma two_stocks_groups:
  "unique (get_column two_stocks ''Industry'') = [Str ''IT'', Str ''Banks'']"
  "group_indices two_stocks [''INFY'', ''HDFCBANK''] ''Industry'' (Str ''IT'') = [0]"
  "group_indices two_stocks [''INFY'', ''HDFCBANK''] ''Industry'' (Str ''Banks'') = [1]"
  "group_indices two_stocks [''INFY'', ''HDFCBANK''] ''Market Cap Category'' (Str ''Large-Cap'') = [0]"
  "group_indices two_stocks [''INFY'', ''HDFCBANK''] ''Market Cap Category'' (Str ''Mid-Cap'') = [1]"
  "group_indices two_stocks [''INFY'', ''HDFCBANK''] ''Market Cap Category'' (Str ''Small-Cap'') = []"
  by (simp_all add: unique_def get_column_def two_stocks_def group_indices_def eq_cell_def
      upt_rec [of 0] upt_rec [of 1] upt_rec [of 2])

text \<open>
  Claim C1 fails on the code. With the two stocks above and the weights \<open>[0.2, 0.2]\<close>, the
  constraints store the index lists \<open>[0]\<close> and \<open>[1]\<close> of their own groups, but the IT
  constraint returns \<open>0.6 - 0.2\<close>, with the limit of the banks, where the claim says
  \<open>0.3 - 0.2\<close>, and the large cap and mid cap constraints return \<open>0 - 0.2\<close>, with the
  limit of the small caps, where the claim says \<open>0.5 - 0.2\<close>.
\<close>

theorem group_constraints_late_binding:
  "map_sum id snd (build_constraints two_stocks [''INFY'', ''HDFCBANK''] two_stocks_locals)
     = Inr [(Eq, SumMinusOne), (Ineq, IndustryLimitMinusSum [0]), (Ineq, IndustryLimitMinusSum [1]),
            (Ineq, CapLimitMinusSum [0]), (Ineq, CapLimitMinusSum [1])]
   \<and> constraint_values two_stocks [''INFY'', ''HDFCBANK''] two_stocks_locals [0.2, 0.2]
     = Inr [Inr (- 0.6), Inr (0.6 - 0.2), Inr (0.6 - 0.2), Inr (0 - 0.2), Inr (0 - 0.2)]
   \<and> map_of (industry_limits two_stocks_locals) (Str ''IT'') = Some 0.3
   \<and> map_of (cap_limits two_stocks_locals) ''Large-Cap'' = Some 0.5
   \<and> map_of (cap_limits two_stocks_locals) ''Mid-Cap'' = Some 0.5"
proof -
  have c: "set [''Industry'', ''Market Cap Category'', ''Symbol''] \<subseteq> set (column_names two_stocks)"
    by (simp add: column_names_def two_stocks_def)
  show ?thesis
    by (simp add: constraint_values_def build_constraints_eq [OF c] two_stocks_groups Let_def
        two_stocks_locals_def)
       (simp add: sum_at_def)
qed

section \<open>Properties of the post-processing\<close>

lemma argmax_from_less:
  "best_i < i \<Longrightarrow> argmax_from best_i best i xs < i + length xs"
proof (induction xs arbitrary: best_i best i)
  case Nil
  then show ?case by simp
next
  case (Cons x xs)
  have a: "argmax_from i x (Suc i) xs < Suc i + length xs"
    by (rule Cons.IH) simp
  have b: "argmax_from best_i best (Suc i) xs < Suc i + length xs"
    by (rule Cons.IH) (use Cons.prems in simp)
  from a b show ?case by simp
qed

lemma argmax_less: "xs \<noteq> [] \<Longrightarrow> argmax xs < length xs"
  using argmax_from_less [of 0 1 _ "tl xs"]
  by (cases xs) (auto simp: argmax_def)

lemma sum_list_update_real:
  fixes xs :: "real list"
  shows "k < length xs \<Longrightarrow> sum_list (xs[k := v]) = sum_list xs + v - xs ! k"
  by (induction xs arbitrary: k) (auto split: nat.splits)

text \<open>
  Before any row is dropped, the adjusted percentages of a successful solve add up to
  exactly 100.
\<close>

lemma adjusted_weights_pct_sum:
  assumes "adjusted_weights_pct result_x = Some ws"
  shows "sum_list ws = 100"
proof -
  let ?w = "map (\<lambda>w. round2 (w * 100)) (map (\<lambda>x. x / sum_list result_x) result_x)"
  from assms have ne: "result_x \<noteq> []"
    and ws: "ws = ?w[argmax ?w := ?w ! argmax ?w + (100 - sum_list ?w)]"
    by (auto simp: adjusted_weights_pct_def Let_def split: if_splits)
  from ne have "?w \<noteq> []" by simp
  then have "argmax ?w < length ?w" by (rule argmax_less)
  then have "sum_list (?w[argmax ?w := ?w ! argmax ?w + (100 - sum_list ?w)])
      = sum_list ?w + (?w ! argmax ?w + (100 - sum_list ?w)) - ?w ! argmax ?w"
    using sum_list_update_real by blast
  then show ?thesis unfolding ws by simp
qed

text \<open>
  Claim C2 fails on the code. The residual is added before the rows with a weight of at
  most 0.01 are dropped, so a dropped weight of 0.01 is missing from the table. For the
  solution \<open>[0.9999, 0.0001]\<close> the adjusted percentages are \<open>[99.99, 0.01]\<close>; the second
  row is dropped, the per-asset weights of the table add up to 99.99, and the row
  \<^verbatim>\<open>Total\<close> still says 100.00.
\<close>

theorem dropped_weight_breaks_total:
  "adjusted_weights_pct [0.9999, 0.0001] = Some [99.99, 0.01]
   \<and> per_asset_rows [''A'', ''B''] [0.9999, 0.0001] = Some [\<lparr>ticker = ''A'', weight_pct = 99.99\<rparr>]
   \<and> map_option (\<lambda>rs. sum_list (map weight_pct rs)) (per_asset_rows [''A'', ''B''] [0.9999, 0.0001])
       = Some 99.99
   \<and> portfolio_results [''A'', ''B''] [0.9999, 0.0001]
       = Some [\<lparr>ticker = ''A'', weight_pct = 99.99\<rparr>, \<lparr>ticker = [], weight_pct = 100.00\<rparr>]"
proof -
  have r: "rint 9999 = 9999" "rint 1 = 1" by (simp_all add: rint_def)
  have a: "adjusted_weights_pct [0.9999, 0.0001] = Some [99.99, 0.01]"
    by (simp add: adjusted_weights_pct_def Let_def round2_def r argmax_def)
  show ?thesis
    unfolding portfolio_results_def per_asset_rows_def a by simp
qed

section \<open>Properties of the annualization\<close>













section \<open>Properties of the pages: which tables they change\<close>

lemma filter_update_in:
  "k \<in> cs \<Longrightarrow> filter (\<lambda>cd. fst cd \<notin> cs) (AList.update k v al) = filter (\<lambda>cd. fst cd \<notin> cs) al"
  by (induction al) auto

lemma mask_upd: "c \<in> cs \<Longrightarrow> mask cs (r(c := v)) = mask cs r"
  by (auto simp: mask_def)

lemma same_except_refl: "same_except cs f f"
  by (simp add: same_except_def)

lemma same_except_trans:
  "same_except cs f g \<Longrightarrow> same_except cs g h \<Longrightarrow> same_except cs f h"
  by (simp add: same_except_def)

lemma same_except_set_column:
  assumes "c \<in> cs" "length (rows f) \<le> length vs"
  shows "same_except cs f (set_column f c dt vs)"
proof -
  have "map (mask cs) (map (\<lambda>(r, v). r(c := v)) (zip (rows f) vs))
      = map (mask cs) (map fst (zip (rows f) vs))"
    using assms(1) by (simp add: split_beta mask_upd)
  also have "\<dots> = map (mask cs) (rows f)"
    using assms(2) by (simp add: map_fst_zip_take)
  finally show ?thesis
    using assms(1) by (simp add: same_except_def set_column_def filter_update_in)
qed

lemma length_calculate_composite_score:
  "calculate_composite_score f cols wd = Inr scores \<Longrightarrow> length scores = length (rows f)"
  by (auto simp: calculate_composite_score_def Let_def split: option.splits if_splits)

lemma length_rank_descending: "length (rank_descending cs) = length cs"
  by (simp add: rank_descending_def)

lemma rows_set_column_length:
  "length (rows f) \<le> length vs \<Longrightarrow> length (rows (set_column f c dt vs)) = length (rows f)"
  by (simp add: set_column_def)

lemma take_alloc: "take (length (heap w)) (heap (snd (alloc f w))) = heap w"
  by (simp add: alloc_def)

lemma heap_set_step: "heap (set_step n w) = heap w"
  by (simp add: set_step_def)

lemma data_import_heap:
  "take (length (heap w)) (heap (handle_data_import uploaded proceed w)) = heap w"
  by (simp add: handle_data_import_def alloc_def Let_def heap_set_step split_beta
      split: option.splits)

lemma normalization_heap:
  "take (length (heap w)) (heap (handle_normalization cols invs apply_clicked proceed w)) = heap w"
  by (simp add: handle_normalization_def alloc_def Let_def heap_set_step split_beta
      split: option.splits sum.splits)

lemma stock_selection_heap:
  "take (length (heap w)) (heap (handle_stock_selection p proceed w)) = heap w"
  by (simp add: handle_stock_selection_def alloc_def Let_def heap_set_step split_beta
      split: option.splits sum.splits)

lemma composite_score_heap_cases:
  "heap (handle_composite_score ws calc proceed w) = heap w
   \<or> (\<exists>df cols wd scores ranked.
        normalized_data (session w) = Some df
      \<and> calculate_composite_score (heap w ! df) cols wd = Inr scores
      \<and> heap (handle_composite_score ws calc proceed w)
          = ((heap w)[df := set_column (heap w ! df) ''Composite Score'' Numeric scores])
              [df := set_column
                       (((heap w)[df := set_column (heap w ! df) ''Composite Score'' Numeric scores]) ! df)
                       ''Rank'' Numeric
                       (rank_descending
                          (get_column
                             (((heap w)[df := set_column (heap w ! df) ''Composite Score'' Numeric scores]) ! df)
                             ''Composite Score''))]
            @ [ranked])"
  by (auto simp: handle_composite_score_def alloc_def Let_def heap_set_step split_beta
      split: option.splits sum.splits)

lemma composite_score_heap:
  "length (heap w) \<le> length (heap (handle_composite_score ws calc proceed w))
   \<and> (\<forall>a<length (heap w).
        if normalized_data (session w) = Some a
        then same_except {''Composite Score'', ''Rank''} (heap w ! a)
               (heap (handle_composite_score ws calc proceed w) ! a)
        else heap (handle_composite_score ws calc proceed w) ! a = heap w ! a)"
proof -
  let ?w' = "handle_composite_score ws calc proceed w"
  let ?cs = "{''Composite Score'', ''Rank''}"
  from composite_score_heap_cases [of ws calc proceed w]
  show ?thesis
  proof
    assume "heap ?w' = heap w"
    then show ?thesis by (simp add: same_except_refl)
  next
    assume "\<exists>df cols wd scores ranked.
        normalized_data (session w) = Some df
      \<and> calculate_composite_score (heap w ! df) cols wd = Inr scores
      \<and> heap ?w'
          = ((heap w)[df := set_column (heap w ! df) ''Composite Score'' Numeric scores])
              [df := set_column
                       (((heap w)[df := set_column (heap w ! df) ''Composite Score'' Numeric scores]) ! df)
                       ''Rank'' Numeric
                       (rank_descending
                          (get_column
                             (((heap w)[df := set_column (heap w ! df) ''Composite Score'' Numeric scores]) ! df)
                             ''Composite Score''))]
            @ [ranked]"
    then obtain df cols wd scores ranked where
      nd: "normalized_data (session w) = Some df"
      and sc: "calculate_composite_score (heap w ! df) cols wd = Inr scores"
      and hp: "heap ?w'
          = ((heap w)[df := set_column (heap w ! df) ''Composite Score'' Numeric scores])
              [df := set_column
                       (((heap w)[df := set_column (heap w ! df) ''Composite Score'' Numeric scores]) ! df)
                       ''Rank'' Numeric
                       (rank_descending
                          (get_column
                             (((heap w)[df := set_column (heap w ! df) ''Composite Score'' Numeric scores]) ! df)
                             ''Composite Score''))]
            @ [ranked]"
      by blast
    let ?f = "heap w ! df"
    let ?f1 = "set_column ?f ''Composite Score'' Numeric scores"
    let ?f2 = "set_column ?f1 ''Rank'' Numeric (rank_descending (get_column ?f1 ''Composite Score''))"
    have ls: "length scores = length (rows ?f)"
      using sc by (rule length_calculate_composite_score)
    have s1: "same_except ?cs ?f ?f1"
      by (rule same_except_set_column) (simp_all add: ls)
    have "length (rows ?f1) \<le> length (rank_descending (get_column ?f1 ''Composite Score''))"
      by (simp add: length_rank_descending length_get_column)
    then have s2: "same_except ?cs ?f1 ?f2"
      by (intro same_except_set_column) simp_all
    have s: "same_except ?cs ?f ?f2" using s1 s2 by (rule same_except_trans)
    have len: "length (heap w) \<le> length (heap ?w')" unfolding hp by simp
    have "if normalized_data (session w) = Some a
        then same_except ?cs (heap w ! a) (heap ?w' ! a)
        else heap ?w' ! a = heap w ! a" if a: "a < length (heap w)" for a
    proof (cases "a = df")
      case True
      with a have "heap ?w' ! a = ?f2" unfolding hp by (simp add: nth_append)
      with True nd s show ?thesis by simp
    next
      case False
      with a have "heap ?w' ! a = heap w ! a" unfolding hp by (simp add: nth_append)
      with False nd show ?thesis by simp
    qed
    with len show ?thesis by blast
  qed
qed

lemma returns_analysis_heap_cases:
  "heap (handle_returns_analysis pd rd prices proceed w) = heap w
   \<or> (\<exists>sel rest.
        selected_stocks (session w) = Some sel
      \<and> heap (handle_returns_analysis pd rd prices proceed w)
          = (heap w)[sel := set_column (heap w ! sel) ''Symbol'' Object
                              (map get_stock_symbol (rows (heap w ! sel)))] @ rest)"
proof (cases "selected_stocks (session w)")
  case None
  then show ?thesis by (simp add: handle_returns_analysis_def)
next
  case (Some sel)
  let ?h1 = "(heap w)[sel := set_column (heap w ! sel) ''Symbol'' Object
                              (map get_stock_symbol (rows (heap w ! sel)))]"
  have "heap (handle_returns_analysis pd rd prices proceed w) = heap w
      \<or> heap (handle_returns_analysis pd rd prices proceed w) = ?h1 @ []
      \<or> heap (handle_returns_analysis pd rd prices proceed w) = ?h1 @ [rd, prices]"
    using Some
    by (simp add: handle_returns_analysis_def alloc_def Let_def heap_set_step split_beta
        split: sum.splits)
  with Some show ?thesis by blast
qed

lemma returns_analysis_heap:
  "length (heap w) \<le> length (heap (handle_returns_analysis pd rd prices proceed w))
   \<and> (\<forall>a<length (heap w).
        if selected_stocks (session w) = Some a
        then same_except {''Symbol''} (heap w ! a)
               (heap (handle_returns_analysis pd rd prices proceed w) ! a)
        else heap (handle_returns_analysis pd rd prices proceed w) ! a = heap w ! a)"
proof -
  let ?w' = "handle_returns_analysis pd rd prices proceed w"
  from returns_analysis_heap_cases [of pd rd prices proceed w]
  show ?thesis
  proof
    assume "heap ?w' = heap w"
    then show ?thesis by (simp add: same_except_refl)
  next
    assume "\<exists>sel rest.
        selected_stocks (session w) = Some sel
      \<and> heap ?w'
          = (heap w)[sel := set_column (heap w ! sel) ''Symbol'' Object
                              (map get_stock_symbol (rows (heap w ! sel)))] @ rest"
    then obtain sel rest where
      ss: "selected_stocks (session w) = Some sel"
      and hp: "heap ?w'
          = (heap w)[sel := set_column (heap w ! sel) ''Symbol'' Object
                              (map get_stock_symbol (rows (heap w ! sel)))] @ rest"
      by blast
    let ?f = "heap w ! sel"
    let ?f1 = "set_column ?f ''Symbol'' Object (map get_stock_symbol (rows ?f))"
    have s: "same_except {''Symbol''} ?f ?f1"
      by (rule same_except_set_column) simp_all
    have len: "length (heap w) \<le> length (heap ?w')" unfolding hp by simp
    have "if selected_stocks (session w) = Some a
        then same_except {''Symbol''} (heap w ! a) (heap ?w' ! a)
        else heap ?w' ! a = heap w ! a" if a: "a < length (heap w)" for a
    proof (cases "a = sel")
      case True
      with a have "heap ?w' ! a = ?f1" unfolding hp by (simp add: nth_append)
      with True ss s show ?thesis by simp
    next
      case False
      with a have "heap ?w' ! a = heap w ! a" unfolding hp by (simp add: nth_append)
      with False ss show ?thesis by simp
    qed
    with len show ?thesis by blast
  qed
qed

text \<open>
  Claim C10, as amended. The pages that work on copies leave every table that exists when
  they start unchanged: importing and cleaning, normalization (the cleaned table stays as
  it is) and selection (the normalized and the ranked table stay as they are). Computing
  composite scores changes no table but the normalized one, into which it writes the
  columns \<^verbatim>\<open>Composite Score\<close> and \<^verbatim>\<open>Rank\<close>, every other column and cell of it unchanged.
  Returns analysis changes no table but the selected-stocks one, into which it writes the
  column \<^verbatim>\<open>Symbol\<close>, every other column and cell of it unchanged.
\<close>

theorem pages_change_only_their_own_columns:
  "take (length (heap w)) (heap (handle_data_import uploaded proceed w)) = heap w
   \<and> take (length (heap w)) (heap (handle_normalization cols invs apply_clicked proceed w)) = heap w
   \<and> take (length (heap w)) (heap (handle_stock_selection p proceed w)) = heap w
   \<and> length (heap w) \<le> length (heap (handle_composite_score ws calc proceed w))
   \<and> (\<forall>a<length (heap w).
        if normalized_data (session w) = Some a
        then same_except {''Composite Score'', ''Rank''} (heap w ! a)
               (heap (handle_composite_score ws calc proceed w) ! a)
        else heap (handle_composite_score ws calc proceed w) ! a = heap w ! a)
   \<and> length (heap w) \<le> length (heap (handle_returns_analysis pd rd prices proceed w))
   \<and> (\<forall>a<length (heap w).
        if selected_stocks (session w) = Some a
        then same_except {''Symbol''} (heap w ! a)
               (heap (handle_returns_analysis pd rd prices proceed w) ! a)
        else heap (handle_returns_analysis pd rd prices proceed w) ! a = heap w ! a)"
  using data_import_heap [of w uploaded proceed]
    normalization_heap [of w cols invs apply_clicked proceed]
    stock_selection_heap [of w p proceed]
    composite_score_heap [of w ws calc proceed]
    returns_analysis_heap [of w pd rd prices proceed]
  by blast

text \<open>The example file through pages 1 to 3, evaluated.\<close>

lemma clean_example_file: "clean_data example_file
   = (example_file, \<lparr>initial_rows = 2, removed_rows = [], final_rows = 2, total_removed = 0\<rparr>)"
  by (simp add: clean_data_def clean_loop_def columns_to_clean_def column_names_def
      preserve_columns_def is_numeric_dtype_def clean_column_def Let_def example_file_def)

lemma imported_world:
  "handle_data_import (Some example_file) True fresh_world
     = \<lparr>session = initialize_session_state\<lparr>step := 2, cleaned_data := Some 1\<rparr>,
        heap = [example_file, example_file]\<rparr>"
  by (simp add: handle_data_import_def alloc_def fresh_world_def clean_example_file set_step_def)
     (simp add: example_file_def)

text \<open>The roundings met in normalizing the example file.\<close>

lemma fl_example_file_1: "fl 20 = 20"
  by (rule fl_evalI [where e = "4"]) (simp_all add: rint_def Let_def)

lemma fl_example_file_2: "fl (1 / 20) = 3602879701896397 / 72057594037927936"
  by (rule fl_evalI [where e = "- 5"]) (simp_all add: rint_def Let_def)

lemma fl_example_file_3: "fl (18014398509481985 / 36028797018963968) = 1 / 2"
  by (rule fl_evalI [where e = "- 1"]) (simp_all add: rint_def Let_def)

lemma fl_example_file_4: "fl (1 / 2) = 1 / 2"
  by (rule fl_evalI [where e = "- 1"]) (simp_all add: rint_def Let_def)

lemma fl_example_file_5: "fl (54043195528445955 / 36028797018963968) = 3 / 2"
  by (rule fl_evalI [where e = "0"]) (simp_all add: rint_def Let_def)

lemma fl_example_file_6: "fl 1 = 1"
  by (rule fl_evalI [where e = "0"]) (simp_all add: rint_def Let_def)

lemmas fl_example_file = fl_example_file_1 fl_example_file_2 fl_example_file_3 fl_example_file_4 fl_example_file_5 fl_example_file_6

lemma normalize_example_file:
  "normalize_data example_file [''ROE''] []
     = Inr (set_column example_file ''ROE'' Numeric [Num 1, Num 0])"
proof -
  have g: "get_column example_file ''ROE'' = [Num 30, Num 10]"
    by (simp add: get_column_def example_file_def)
  have f: "fit_transform [Num 30, Num 10] = Inr [Num 1, Num 0]"
    by (simp add: fit_transform_def MinMaxScaler_fit_def np_divide_def handle_zeros_in_scale_def
        Let_def fl_neg fl_zero fl_example_file)
  have c: "''ROE'' \<in> set (column_names example_file)"
    by (simp add: column_names_def example_file_def)
  show ?thesis
    by (simp add: normalize_data_def normalize_column_def c g f)
qed

lemma normalized_world_eq:
  "normalized_world
     = \<lparr>session = initialize_session_state
          \<lparr>step := 3, cleaned_data := Some 1, normalized_data := Some 2,
           normalized_columns := Some [''ROE''], normalization_completed := True\<rparr>,
        heap = [example_file, example_file,
                set_column example_file ''ROE'' Numeric [Num 1, Num 0]]\<rparr>"
  by (simp add: normalized_world_def imported_world handle_normalization_def
      normalize_example_file alloc_def set_step_def initialize_session_state_def)


lemma normalized_example_columns:
  "column_names (set_column example_file ''ROE'' Numeric [Num 1, Num 0])
     = [''Stock'', ''NSE Code'', ''Market Capitalization'', ''ROE'']"
  "rows (set_column example_file ''ROE'' Numeric [Num 1, Num 0])
     = [(rows example_file ! 0)(''ROE'' := Num 1), (rows example_file ! 1)(''ROE'' := Num 0)]"
  by (simp_all add: column_names_def set_column_def example_file_def)

lemma score_example:
  "calculate_composite_score (set_column example_file ''ROE'' Numeric [Num 1, Num 0])
      [''ROE''] [(''ROE'', 100)] = Inr [Num 1, Num 0]"
  by (simp add: calculate_composite_score_def normalized_example_columns Let_def)

lemma ranked_world_heap:
  "heap ranked_world ! 2
     = set_column
         (set_column (set_column example_file ''ROE'' Numeric [Num 1, Num 0])
            ''Composite Score'' Numeric [Num 1, Num 0])
         ''Rank'' Numeric
         (rank_descending
            (get_column
               (set_column (set_column example_file ''ROE'' Numeric [Num 1, Num 0])
                  ''Composite Score'' Numeric [Num 1, Num 0])
               ''Composite Score''))"
  "length (heap ranked_world) = 4"
  "heap ranked_world ! 1 = example_file"
  by (simp_all add: ranked_world_def normalized_world_eq handle_composite_score_def
      initialize_session_state_def score_example alloc_def set_step_def Let_def)

lemma ranked_world_columns:
  "column_names (heap ranked_world ! 2)
     = [''Stock'', ''NSE Code'', ''Market Capitalization'', ''ROE'', ''Composite Score'', ''Rank'']"
  unfolding ranked_world_heap
  by (simp add: column_names_def set_column_def example_file_def)


lemma returns_world_columns:
  "column_names (heap (handle_returns_analysis exact_pandas three_days three_days False selected_world) ! 0)
     = [''Stock'', ''NSE Code'', ''BSE Code'', ''Symbol'']"
  by (simp add: handle_returns_analysis_def selected_world_def initialize_session_state_def
      symbols_raise_def column_names_def frame_empty_def three_days_def alloc_def Let_def
      set_column_def split: sum.splits)

text \<open>
  The claim as stated fails. After pages 1 and 2 the normalized table is the table at
  address 2, with four columns. Computing the composite score leaves that very table with
  the two added columns \<^verbatim>\<open>Composite Score\<close> and \<^verbatim>\<open>Rank\<close>. Likewise returns analysis
  leaves the selected-stocks table, at address 0 of \<open>selected_world\<close>, with the added column
  \<^verbatim>\<open>Symbol\<close>.
\<close>

theorem pages_write_into_earlier_tables_counterexample:
  "normalized_data (session normalized_world) = Some 2
   \<and> column_names (heap normalized_world ! 2)
       = [''Stock'', ''NSE Code'', ''Market Capitalization'', ''ROE'']
   \<and> column_names (heap (handle_composite_score [100] True True normalized_world) ! 2)
       = [''Stock'', ''NSE Code'', ''Market Capitalization'', ''ROE'',
          ''Composite Score'', ''Rank'']
   \<and> selected_stocks (session selected_world) = Some 0
   \<and> column_names (heap selected_world ! 0) = [''Stock'', ''NSE Code'', ''BSE Code'']
   \<and> column_names (heap (handle_returns_analysis exact_pandas three_days three_days False selected_world) ! 0)
       = [''Stock'', ''NSE Code'', ''BSE Code'', ''Symbol'']"
proof -
  have a: "normalized_data (session normalized_world) = Some 2"
    "column_names (heap normalized_world ! 2)
       = [''Stock'', ''NSE Code'', ''Market Capitalization'', ''ROE'']"
    by (simp_all add: normalized_world_eq normalized_example_columns)
  have b: "selected_stocks (session selected_world) = Some 0"
    "column_names (heap selected_world ! 0) = [''Stock'', ''NSE Code'', ''BSE Code'']"
    by (simp_all add: selected_world_def column_names_def)
  show ?thesis
    using a b ranked_world_columns returns_world_columns
    by (simp add: ranked_world_def)
qed

text \<open>
  On the same worlds: outside the written columns the normalized and the selected table
  are unchanged, and the cleaned table at address 1 is untouched by page 3.
\<close>

theorem pages_change_only_their_own_columns_witness:
  "same_except {''Composite Score'', ''Rank''} (heap normalized_world ! 2)
     (heap (handle_composite_score [100] True True normalized_world) ! 2)
   \<and> heap (handle_composite_score [100] True True normalized_world) ! 1
       = heap normalized_world ! 1
   \<and> same_except {''Symbol''} (heap selected_world ! 0)
       (heap (handle_returns_analysis exact_pandas three_days three_days False selected_world) ! 0)"
proof -
  have n: "length (heap normalized_world) = 3"
    "normalized_data (session normalized_world) = Some 2"
    by (simp_all add: normalized_world_eq)
  have s: "length (heap selected_world) = 1"
    "selected_stocks (session selected_world) = Some 0"
    by (simp_all add: selected_world_def)
  have A: "\<forall>a<length (heap normalized_world).
        if normalized_data (session normalized_world) = Some a
        then same_except {''Composite Score'', ''Rank''} (heap normalized_world ! a)
               (heap (handle_composite_score [100] True True normalized_world) ! a)
        else heap (handle_composite_score [100] True True normalized_world) ! a
               = heap normalized_world ! a"
    using pages_change_only_their_own_columns
         [where w = normalized_world and ws = "[100]" and calc = True and proceed = True]
    by blast
  have B: "\<forall>a<length (heap selected_world).
        if selected_stocks (session selected_world) = Some a
        then same_except {''Symbol''} (heap selected_world ! a)
               (heap (handle_returns_analysis exact_pandas three_days three_days False selected_world) ! a)
        else heap (handle_returns_analysis exact_pandas three_days three_days False selected_world) ! a
               = heap selected_world ! a"
    using pages_change_only_their_own_columns
         [where w = selected_world and pd = exact_pandas and rd = three_days and prices = three_days
            and proceed = False]
    by blast
  have "same_except {''Composite Score'', ''Rank''} (heap normalized_world ! 2)
     (heap (handle_composite_score [100] True True normalized_world) ! 2)"
    using A [rule_format, of 2] n by simp
  moreover have "heap (handle_composite_score [100] True True normalized_world) ! 1
       = heap normalized_world ! 1"
    using A [rule_format, of 1] n by simp
  moreover have "same_except {''Symbol''} (heap selected_world ! 0)
       (heap (handle_returns_analysis exact_pandas three_days three_days False selected_world) ! 0)"
    using B [rule_format, of 0] s by simp
  ultimately show ?thesis by blast
qed

end
